theory Spec2Isabelle
  imports Main "HOL-Library.Word" "HOL-Library.Multiset"
begin

section \<open>Data model of modules/consensus/maintenance.go\<close>

text \<open>
  Block heights are Go \<open>uint64\<close> values (\<open>types.BlockHeight\<close>), so \<open>+\<close> wraps and
  \<open>>\<close> is the unsigned comparison. Identifiers are 32-byte hashes.
\<close>

type_synonym BlockHeight = "64 word"
type_synonym SiacoinOutputID = "256 word"
type_synonym FileContractID = "256 word"

record SiacoinOutput =
  Value :: nat
  UnlockHash :: "256 word"

text \<open>Of a file contract the maintenance code reads \<open>WindowEnd\<close> and \<open>MissedProofOutputs\<close>.\<close>

record FileContract =
  WindowEnd :: BlockHeight
  MissedProofOutputs :: "SiacoinOutput list"

text \<open>The Go zero value, which a map read of a missing key returns.\<close>

definition zeroFileContract :: FileContract where
  "zeroFileContract = \<lparr>WindowEnd = 0, MissedProofOutputs = []\<rparr>"

datatype DiffDirection = DiffApply | DiffRevert

datatype ProofStatus = ProofValid | ProofMissed

text \<open>The three diff structs of package \<open>modules\<close>; the field names carry a prefix
  because the three structs share the names \<open>Direction\<close> and \<open>ID\<close>.\<close>

record SiacoinOutputDiff =
  scod_Direction :: DiffDirection
  scod_ID :: SiacoinOutputID
  scod_SiacoinOutput :: SiacoinOutput

record DelayedSiacoinOutputDiff =
  dscod_Direction :: DiffDirection
  dscod_ID :: SiacoinOutputID
  dscod_SiacoinOutput :: SiacoinOutput
  dscod_MaturityHeight :: BlockHeight

record FileContractDiff =
  fcd_Direction :: DiffDirection
  fcd_ID :: FileContractID
  fcd_FileContract :: FileContract

record Block =
  MinerPayouts :: "SiacoinOutput list"

record blockNode =
  block :: Block
  height :: BlockHeight
  siacoinOutputDiffs :: "SiacoinOutputDiff list"
  delayedSiacoinOutputDiffs :: "DelayedSiacoinOutputDiff list"
  fileContractDiffs :: "FileContractDiff list"

record ConsensusSet =
  siacoinOutputs :: "SiacoinOutputID \<rightharpoonup> SiacoinOutput"
  delayedSiacoinOutputs :: "BlockHeight \<rightharpoonup> (SiacoinOutputID \<rightharpoonup> SiacoinOutput)"
  fileContracts :: "FileContractID \<rightharpoonup> FileContract"

text \<open>
  What the file imports from packages \<open>build\<close> and \<open>types\<close> and does not define itself:
  the constant \<open>build.DEBUG\<close>, the constant \<open>types.MaturityDelay\<close> and the two hash
  functions that derive output identifiers. They are parameters of the model.
\<close>

record build_env =
  DEBUG :: bool
  MaturityDelay :: BlockHeight
  MinerPayoutID :: "Block \<Rightarrow> 64 word \<Rightarrow> SiacoinOutputID"
  StorageProofOutputID :: "FileContractID \<Rightarrow> ProofStatus \<Rightarrow> 64 word \<Rightarrow> SiacoinOutputID"

text \<open>The values handed to \<open>panic\<close>: the four error variables and the two string literals.\<close>

datatype panic =
  errMissingFileContract
  | errOutputAlreadyMature
  | errPayoutsAlreadyPaid
  | errStorageProofTiming
  | panic_deleting_non_empty_map
  | panic_expiring_file_contract_missed

type_synonym state = "ConsensusSet \<times> blockNode"

section \<open>Map reads and the commit operations\<close>

text \<open>
  \<open>cs.delayedSiacoinOutputs[h]\<close>: reading a height without a bucket gives the nil map,
  which reads as the empty map.
\<close>

definition bucket :: "ConsensusSet \<Rightarrow> BlockHeight \<Rightarrow> (SiacoinOutputID \<rightharpoonup> SiacoinOutput)" where
  "bucket cs h = (case delayedSiacoinOutputs cs h of None \<Rightarrow> Map.empty | Some b \<Rightarrow> b)"

text \<open>
  Modelled from the spec: \<open>commitSiacoinOutputDiff\<close>, which maintenance.go calls and
  does not define. The spec's commit operation applies a diff to the in-memory maps: in the
  diff's own direction the entry is inserted, against it the entry is removed.
\<close>

definition commitSiacoinOutputDiff ::
  "ConsensusSet \<Rightarrow> SiacoinOutputDiff \<Rightarrow> DiffDirection \<Rightarrow> ConsensusSet" where
  "commitSiacoinOutputDiff cs scod dir =
     (if scod_Direction scod = dir
      then cs\<lparr>siacoinOutputs := (siacoinOutputs cs)(scod_ID scod \<mapsto> scod_SiacoinOutput scod)\<rparr>
      else cs\<lparr>siacoinOutputs := (siacoinOutputs cs)(scod_ID scod := None)\<rparr>)"

text \<open>
  Modelled from the spec: \<open>commitDelayedSiacoinOutputDiff\<close>, which maintenance.go calls
  and does not define. The delayed outputs are a sparse mapping from height to a per-height
  mapping: an insertion makes the bucket when the height has none, a removal from a height
  without a bucket changes nothing.
\<close>

definition commitDelayedSiacoinOutputDiff ::
  "ConsensusSet \<Rightarrow> DelayedSiacoinOutputDiff \<Rightarrow> DiffDirection \<Rightarrow> ConsensusSet" where
  "commitDelayedSiacoinOutputDiff cs dscod dir =
     (if dscod_Direction dscod = dir
      then cs\<lparr>delayedSiacoinOutputs := (delayedSiacoinOutputs cs)
             (dscod_MaturityHeight dscod \<mapsto>
                (bucket cs (dscod_MaturityHeight dscod))(dscod_ID dscod \<mapsto> dscod_SiacoinOutput dscod))\<rparr>
      else (case delayedSiacoinOutputs cs (dscod_MaturityHeight dscod) of
              None \<Rightarrow> cs
            | Some b \<Rightarrow> cs\<lparr>delayedSiacoinOutputs := (delayedSiacoinOutputs cs)
                          (dscod_MaturityHeight dscod \<mapsto> b(dscod_ID dscod := None))\<rparr>))"

text \<open>
  Modelled from the spec: the commit operation for a contract diff, which the rewind path
  needs to undo the removal that \<open>applyMissedStorageProof\<close> records.
\<close>

definition commitFileContractDiff ::
  "ConsensusSet \<Rightarrow> FileContractDiff \<Rightarrow> DiffDirection \<Rightarrow> ConsensusSet" where
  "commitFileContractDiff cs fcd dir =
     (if fcd_Direction fcd = dir
      then cs\<lparr>fileContracts := (fileContracts cs)(fcd_ID fcd \<mapsto> fcd_FileContract fcd)\<rparr>
      else cs\<lparr>fileContracts := (fileContracts cs)(fcd_ID fcd := None)\<rparr>)"

section \<open>Loops\<close>

text \<open>
  A Go \<open>for ... range\<close> loop whose body may panic: the body runs on each element in turn
  and the first panic ends the loop.
\<close>

fun for_range :: "('a \<Rightarrow> 's \<Rightarrow> panic + 's) \<Rightarrow> 'a list \<Rightarrow> 's \<Rightarrow> panic + 's" where
  "for_range body [] s = Inr s"
| "for_range body (x # xs) s =
     (case body x s of Inl e \<Rightarrow> Inl e | Inr s' \<Rightarrow> for_range body xs s')"

section \<open>applyMinerPayouts\<close>

text \<open>The body of the loop over \<open>bn.block.MinerPayouts\<close>, at index \<open>i\<close>.\<close>

fun applyMinerPayouts_body :: "build_env \<Rightarrow> nat \<times> SiacoinOutput \<Rightarrow> state \<Rightarrow> panic + state" where
  "applyMinerPayouts_body env (i, payout) (cs, bn) =
     (let mpid = MinerPayoutID env (block bn) (of_nat i) in
      if DEBUG env \<and> bucket cs (height bn + MaturityDelay env) mpid \<noteq> None
      then Inl errPayoutsAlreadyPaid
      else if DEBUG env \<and> siacoinOutputs cs mpid \<noteq> None
      then Inl errPayoutsAlreadyPaid
      else
        let dscod = \<lparr>dscod_Direction = DiffApply, dscod_ID = mpid,
                     dscod_SiacoinOutput = payout,
                     dscod_MaturityHeight = height bn + MaturityDelay env\<rparr>;
            bn' = bn\<lparr>delayedSiacoinOutputDiffs := delayedSiacoinOutputDiffs bn @ [dscod]\<rparr>
        in Inr (commitDelayedSiacoinOutputDiff cs dscod DiffApply, bn'))"

definition applyMinerPayouts :: "build_env \<Rightarrow> state \<Rightarrow> panic + state" where
  "applyMinerPayouts env s =
     for_range (applyMinerPayouts_body env) (enumerate 0 (MinerPayouts (block (snd s)))) s"

section \<open>applyMaturedSiacoinOutputs\<close>

text \<open>
  The body of the loop over the bucket at \<open>bn.height\<close>. The loop removes entries from the
  map it ranges over; Go does not produce an entry that was removed before it was reached,
  which is the first case.
\<close>

fun applyMaturedSiacoinOutputs_body :: "build_env \<Rightarrow> SiacoinOutputID \<Rightarrow> state \<Rightarrow> panic + state" where
  "applyMaturedSiacoinOutputs_body env dscoid (cs, bn) =
     (case bucket cs (height bn) dscoid of
        None \<Rightarrow> Inr (cs, bn)
      | Some dsco \<Rightarrow>
          if DEBUG env \<and> siacoinOutputs cs dscoid \<noteq> None
          then Inl errOutputAlreadyMature
          else
            let scod = \<lparr>scod_Direction = DiffApply, scod_ID = dscoid, scod_SiacoinOutput = dsco\<rparr>;
                bn1 = bn\<lparr>siacoinOutputDiffs := siacoinOutputDiffs bn @ [scod]\<rparr>;
                cs1 = commitSiacoinOutputDiff cs scod DiffApply;
                dscod = \<lparr>dscod_Direction = DiffRevert, dscod_ID = dscoid,
                         dscod_SiacoinOutput = dsco, dscod_MaturityHeight = height bn\<rparr>;
                bn2 = bn1\<lparr>delayedSiacoinOutputDiffs := delayedSiacoinOutputDiffs bn1 @ [dscod]\<rparr>
            in Inr (commitDelayedSiacoinOutputDiff cs1 dscod DiffApply, bn2))"

text \<open>
  \<open>order\<close> is the order in which the runtime yields the keys of the bucket at \<open>bn.height\<close>;
  Go leaves the iteration order of a map unspecified.
\<close>

definition applyMaturedSiacoinOutputs ::
  "build_env \<Rightarrow> SiacoinOutputID list \<Rightarrow> state \<Rightarrow> panic + state" where
  "applyMaturedSiacoinOutputs env order s =
     (if \<not> (height (snd s) > MaturityDelay env) then Inr s
      else
        case for_range (applyMaturedSiacoinOutputs_body env) order s of
          Inl e \<Rightarrow> Inl e
        | Inr (cs1, bn1) \<Rightarrow>
            if DEBUG env \<and> bucket cs1 (height bn1) \<noteq> Map.empty
            then Inl panic_deleting_non_empty_map
            else Inr (cs1\<lparr>delayedSiacoinOutputs := (delayedSiacoinOutputs cs1)(height bn1 := None)\<rparr>,
                      bn1))"

section \<open>applyMissedStorageProof\<close>

fun applyMissedStorageProof_body ::
  "build_env \<Rightarrow> FileContractID \<Rightarrow> nat \<times> SiacoinOutput \<Rightarrow> state \<Rightarrow> panic + state" where
  "applyMissedStorageProof_body env fcid (i, mpo) (cs, bn) =
     (let spoid = StorageProofOutputID env fcid ProofMissed (of_nat i) in
      if DEBUG env \<and> bucket cs (height bn + MaturityDelay env) spoid \<noteq> None
      then Inl errPayoutsAlreadyPaid
      else if DEBUG env \<and> siacoinOutputs cs spoid \<noteq> None
      then Inl errPayoutsAlreadyPaid
      else
        let dscod = \<lparr>dscod_Direction = DiffApply, dscod_ID = spoid,
                     dscod_SiacoinOutput = mpo,
                     dscod_MaturityHeight = height bn + MaturityDelay env\<rparr>;
            bn' = bn\<lparr>delayedSiacoinOutputDiffs := delayedSiacoinOutputDiffs bn @ [dscod]\<rparr>
        in Inr (commitDelayedSiacoinOutputDiff cs dscod DiffApply, bn'))"

fun applyMissedStorageProof :: "build_env \<Rightarrow> FileContractID \<Rightarrow> state \<Rightarrow> panic + state" where
  "applyMissedStorageProof env fcid (cs, bn) =
     (let (fc, exists) = (case fileContracts cs fcid of
                            None \<Rightarrow> (zeroFileContract, False)
                          | Some c \<Rightarrow> (c, True)) in
      if DEBUG env \<and> \<not> exists then Inl errMissingFileContract
      else if DEBUG env \<and> WindowEnd fc \<noteq> height bn then Inl errStorageProofTiming
      else
        case for_range (applyMissedStorageProof_body env fcid)
               (enumerate 0 (MissedProofOutputs fc)) (cs, bn) of
          Inl e \<Rightarrow> Inl e
        | Inr (cs1, bn1) \<Rightarrow>
            Inr (cs1\<lparr>fileContracts := (fileContracts cs1)(fcid := None)\<rparr>,
                 bn1\<lparr>fileContractDiffs := fileContractDiffs bn1 @
                        [\<lparr>fcd_Direction = DiffRevert, fcd_ID = fcid, fcd_FileContract = fc\<rparr>]\<rparr>))"

declare applyMissedStorageProof.simps [simp del]

section \<open>applyFileContractMaintenance\<close>

text \<open>
  The body of the first loop, which ranges over \<open>cs.fileContracts\<close>. Like the other loop
  bodies it takes and returns the ledger and the block node; next to them it carries the
  slice \<open>expiredFileContracts\<close>, the only thing it writes. A key without an entry is never
  produced by the range.
\<close>

fun expiredFileContracts_body ::
  "build_env \<Rightarrow> FileContractID \<Rightarrow> state \<times> FileContractID list
     \<Rightarrow> panic + state \<times> FileContractID list" where
  "expiredFileContracts_body env fcid ((cs, bn), expired) =
     (case fileContracts cs fcid of
        None \<Rightarrow> Inr ((cs, bn), expired)
      | Some fc \<Rightarrow>
          let expired' = (if WindowEnd fc = height bn then expired @ [fcid] else expired) in
          if DEBUG env \<and> WindowEnd fc < height bn
          then Inl panic_expiring_file_contract_missed
          else Inr ((cs, bn), expired'))"

text \<open>
  \<open>order\<close> is the order in which the runtime yields the keys of \<open>cs.fileContracts\<close>. The
  second loop starts from the ledger and block node that the first loop leaves.
\<close>

fun applyFileContractMaintenance ::
  "build_env \<Rightarrow> FileContractID list \<Rightarrow> state \<Rightarrow> panic + state" where
  "applyFileContractMaintenance env order (cs, bn) =
     (case for_range (expiredFileContracts_body env) order ((cs, bn), []) of
        Inl e \<Rightarrow> Inl e
      | Inr (s1, expired) \<Rightarrow> for_range (applyMissedStorageProof env) expired s1)"

declare applyFileContractMaintenance.simps [simp del]

section \<open>applyMaintenance\<close>

definition applyMaintenance ::
  "build_env \<Rightarrow> SiacoinOutputID list \<Rightarrow> FileContractID list \<Rightarrow> state \<Rightarrow> panic + state" where
  "applyMaintenance env dorder forder s =
     (case applyMinerPayouts env s of
        Inl e \<Rightarrow> Inl e
      | Inr s1 \<Rightarrow>
          (case applyMaturedSiacoinOutputs env dorder s1 of
             Inl e \<Rightarrow> Inl e
           | Inr s2 \<Rightarrow> applyFileContractMaintenance env forder s2))"

section \<open>The rewind path\<close>

text \<open>
  Modelled from the spec: the rewind path, which is not in maintenance.go. It replays a diff
  log in exact reverse order and commits every diff in the Revert direction, which undoes
  an Apply diff and re-does the entity that a Revert diff removed.
\<close>

definition undo_S :: "SiacoinOutputDiff list \<Rightarrow> ConsensusSet \<Rightarrow> ConsensusSet" where
  "undo_S ds cs = fold (\<lambda>d c. commitSiacoinOutputDiff c d DiffRevert) (rev ds) cs"

definition undo_D :: "DelayedSiacoinOutputDiff list \<Rightarrow> ConsensusSet \<Rightarrow> ConsensusSet" where
  "undo_D ds cs = fold (\<lambda>d c. commitDelayedSiacoinOutputDiff c d DiffRevert) (rev ds) cs"

definition undo_F :: "FileContractDiff list \<Rightarrow> ConsensusSet \<Rightarrow> ConsensusSet" where
  "undo_F ds cs = fold (\<lambda>d c. commitFileContractDiff c d DiffRevert) (rev ds) cs"

text \<open>Modelled from the spec: the rewind of the three diff logs of one block node.\<close>

definition revertDiffs ::
  "SiacoinOutputDiff list \<Rightarrow> DelayedSiacoinOutputDiff list \<Rightarrow> FileContractDiff list
     \<Rightarrow> ConsensusSet \<Rightarrow> ConsensusSet" where
  "revertDiffs X Y Z cs = undo_F Z (undo_D Y (undo_S X cs))"

section \<open>The invariant of the spec\<close>

text \<open>
  No identifier is both in the mature-output set and in a delayed bucket (a height without
  a bucket reads as an empty bucket).
\<close>

definition mature_delayed_disjoint :: "ConsensusSet \<Rightarrow> bool" where
  "mature_delayed_disjoint cs \<longleftrightarrow> (\<forall>k h. siacoinOutputs cs k \<noteq> None \<longrightarrow> bucket cs h k = None)"

text \<open>No identifier of the bucket at \<open>H\<close> is in the bucket of another height.\<close>

definition bucket_exclusive :: "ConsensusSet \<Rightarrow> BlockHeight \<Rightarrow> bool" where
  "bucket_exclusive cs H \<longleftrightarrow> (\<forall>k h. h \<noteq> H \<longrightarrow> bucket cs H k \<noteq> None \<longrightarrow> bucket cs h k = None)"

text \<open>
  No derived payout identifier of the block is in a bucket other than the one the payouts
  go to.
\<close>

definition payouts_fresh :: "build_env \<Rightarrow> ConsensusSet \<Rightarrow> blockNode \<Rightarrow> bool" where
  "payouts_fresh env cs bn \<longleftrightarrow>
     (\<forall>i h. i < length (MinerPayouts (block bn)) \<longrightarrow> h \<noteq> height bn + MaturityDelay env \<longrightarrow>
        bucket cs h (MinerPayoutID env (block bn) (of_nat i)) = None)"

section \<open>Auxiliary notions for the proofs\<close>

text \<open>
  The loop bodies of \<open>applyMinerPayouts\<close> and \<open>applyMissedStorageProof\<close> are the same code
  up to the identifier and the output they handle; \<open>addDelayed\<close> is that common shape, and
  \<open>delayedDiff\<close> the diff it appends.
\<close>

definition addDelayed :: "build_env \<Rightarrow> SiacoinOutputID \<times> SiacoinOutput \<Rightarrow> state \<Rightarrow> panic + state" where
  "addDelayed env x s =
     (if DEBUG env \<and> (bucket (fst s) (height (snd s) + MaturityDelay env) (fst x) \<noteq> None
                      \<or> siacoinOutputs (fst s) (fst x) \<noteq> None)
      then Inl errPayoutsAlreadyPaid
      else Inr (commitDelayedSiacoinOutputDiff (fst s)
                  \<lparr>dscod_Direction = DiffApply, dscod_ID = fst x, dscod_SiacoinOutput = snd x,
                   dscod_MaturityHeight = height (snd s) + MaturityDelay env\<rparr> DiffApply,
                (snd s)\<lparr>delayedSiacoinOutputDiffs := delayedSiacoinOutputDiffs (snd s) @
                   [\<lparr>dscod_Direction = DiffApply, dscod_ID = fst x, dscod_SiacoinOutput = snd x,
                     dscod_MaturityHeight = height (snd s) + MaturityDelay env\<rparr>]\<rparr>))"

definition delayedDiff :: "BlockHeight \<Rightarrow> SiacoinOutputID \<times> SiacoinOutput \<Rightarrow> DelayedSiacoinOutputDiff" where
  "delayedDiff h x = \<lparr>dscod_Direction = DiffApply, dscod_ID = fst x, dscod_SiacoinOutput = snd x,
                      dscod_MaturityHeight = h\<rparr>"

text \<open>The identifier and output of each payout of the block, in payout order.\<close>

definition minerPayoutIDs :: "build_env \<Rightarrow> blockNode \<Rightarrow> (SiacoinOutputID \<times> SiacoinOutput) list" where
  "minerPayoutIDs env bn =
     map (\<lambda>ip. (MinerPayoutID env (block bn) (of_nat (fst ip)), snd ip))
       (enumerate 0 (MinerPayouts (block bn)))"

text \<open>
  The two diffs that \<open>applyMaturedSiacoinOutputs\<close> records for the key \<open>k\<close> of the bucket
  \<open>B\<close> at height \<open>h\<close>.
\<close>

definition maturedDiff :: "(SiacoinOutputID \<rightharpoonup> SiacoinOutput) \<Rightarrow> SiacoinOutputID \<Rightarrow> SiacoinOutputDiff" where
  "maturedDiff B k = \<lparr>scod_Direction = DiffApply, scod_ID = k, scod_SiacoinOutput = the (B k)\<rparr>"

definition drainedDiff :: "BlockHeight \<Rightarrow> (SiacoinOutputID \<rightharpoonup> SiacoinOutput) \<Rightarrow> SiacoinOutputID
    \<Rightarrow> DelayedSiacoinOutputDiff" where
  "drainedDiff h B k = \<lparr>dscod_Direction = DiffRevert, dscod_ID = k, dscod_SiacoinOutput = the (B k),
                        dscod_MaturityHeight = h\<rparr>"

text \<open>
  What the scanner and \<open>applyMissedStorageProof\<close> read of the contract set: whether the
  contract under a key expires at \<open>H\<close>, the contract a key reads as (the zero value when
  the key is missing), the identifier and output of each of its missed-proof outputs, and
  the diff recorded for its removal.
\<close>

definition expires :: "ConsensusSet \<Rightarrow> BlockHeight \<Rightarrow> FileContractID \<Rightarrow> bool" where
  "expires cs H fcid = (case fileContracts cs fcid of None \<Rightarrow> False | Some fc \<Rightarrow> WindowEnd fc = H)"

definition contractOf :: "ConsensusSet \<Rightarrow> FileContractID \<Rightarrow> FileContract" where
  "contractOf cs fcid = (case fileContracts cs fcid of None \<Rightarrow> zeroFileContract | Some c \<Rightarrow> c)"

definition missedOutputs ::
  "build_env \<Rightarrow> FileContractID \<Rightarrow> FileContract \<Rightarrow> (SiacoinOutputID \<times> SiacoinOutput) list" where
  "missedOutputs env fcid fc =
     map (\<lambda>ip. (StorageProofOutputID env fcid ProofMissed (of_nat (fst ip)), snd ip))
       (enumerate 0 (MissedProofOutputs fc))"

definition contractDiff :: "ConsensusSet \<Rightarrow> FileContractID \<Rightarrow> FileContractDiff" where
  "contractDiff cs fcid =
     \<lparr>fcd_Direction = DiffRevert, fcd_ID = fcid, fcd_FileContract = contractOf cs fcid\<rparr>"

text \<open>
  What one turn of the first loop of \<open>applyFileContractMaintenance\<close> does to the slice, as
  a function of the ledger and block node it reads.
\<close>

definition collect_step ::
  "build_env \<Rightarrow> ConsensusSet \<Rightarrow> blockNode \<Rightarrow> FileContractID \<Rightarrow> FileContractID list
     \<Rightarrow> panic + FileContractID list" where
  "collect_step env cs bn fcid expired =
     (case fileContracts cs fcid of
        None \<Rightarrow> Inr expired
      | Some fc \<Rightarrow>
          let expired' = (if WindowEnd fc = height bn then expired @ [fcid] else expired) in
          if DEBUG env \<and> WindowEnd fc < height bn
          then Inl panic_expiring_file_contract_missed
          else Inr expired')"

text \<open>The effect of the rewind on the three maps, one map at a time.\<close>

definition uS :: "SiacoinOutputDiff list \<Rightarrow> (SiacoinOutputID \<rightharpoonup> SiacoinOutput) \<Rightarrow> (SiacoinOutputID \<rightharpoonup> SiacoinOutput)" where
  "uS X m = foldr (\<lambda>d m. if scod_Direction d = DiffRevert
                     then m(scod_ID d \<mapsto> scod_SiacoinOutput d) else m(scod_ID d := None)) X m"

definition uD :: "DelayedSiacoinOutputDiff list \<Rightarrow> (BlockHeight \<Rightarrow> SiacoinOutputID \<rightharpoonup> SiacoinOutput)
    \<Rightarrow> (BlockHeight \<Rightarrow> SiacoinOutputID \<rightharpoonup> SiacoinOutput)" where
  "uD Y b = foldr (\<lambda>d b. b(dscod_MaturityHeight d :=
                     (if dscod_Direction d = DiffRevert
                      then (b (dscod_MaturityHeight d))(dscod_ID d \<mapsto> dscod_SiacoinOutput d)
                      else (b (dscod_MaturityHeight d))(dscod_ID d := None)))) Y b"

definition uF :: "FileContractDiff list \<Rightarrow> (FileContractID \<rightharpoonup> FileContract) \<Rightarrow> (FileContractID \<rightharpoonup> FileContract)" where
  "uF Z m = foldr (\<lambda>d m. if fcd_Direction d = DiffRevert
                     then m(fcd_ID d \<mapsto> fcd_FileContract d) else m(fcd_ID d := None)) Z m"

text \<open>
  \<open>restores s s'\<close>: the diff logs of \<open>s'\<close> extend those of \<open>s\<close>, and rewinding the
  extensions takes the maps of \<open>s'\<close> back to the maps of \<open>s\<close>.
\<close>

definition restores :: "state \<Rightarrow> state \<Rightarrow> bool" where
  "restores s s' \<longleftrightarrow>
     (\<exists>X Y Z. siacoinOutputDiffs (snd s') = siacoinOutputDiffs (snd s) @ X
            \<and> delayedSiacoinOutputDiffs (snd s') = delayedSiacoinOutputDiffs (snd s) @ Y
            \<and> fileContractDiffs (snd s') = fileContractDiffs (snd s) @ Z
            \<and> uS X (siacoinOutputs (fst s')) = siacoinOutputs (fst s)
            \<and> uD Y (bucket (fst s')) = bucket (fst s)
            \<and> uF Z (fileContracts (fst s')) = fileContracts (fst s))"

text \<open>What a loop leaves alone: the block and height of the node; all but the delayed outputs.\<close>

definition same_node :: "state \<Rightarrow> state \<Rightarrow> bool" where
  "same_node s s' \<longleftrightarrow> height (snd s') = height (snd s) \<and> block (snd s') = block (snd s)"

definition delayed_only :: "state \<Rightarrow> state \<Rightarrow> bool" where
  "delayed_only s s' \<longleftrightarrow>
     siacoinOutputs (fst s') = siacoinOutputs (fst s)
     \<and> fileContracts (fst s') = fileContracts (fst s)
     \<and> siacoinOutputDiffs (snd s') = siacoinOutputDiffs (snd s)
     \<and> fileContractDiffs (snd s') = fileContractDiffs (snd s)"

section \<open>Concrete inputs\<close>

text \<open>
  A build with the checks on, \<open>MaturityDelay = 10\<close>, and identifier functions that stand
  in for the hashes.
\<close>

definition env0 :: build_env where
  "env0 = \<lparr>DEBUG = True, MaturityDelay = 10,
           MinerPayoutID = (\<lambda>b i. 1000 + ucast i),
           StorageProofOutputID = (\<lambda>fcid st i. 2000 + 16 * fcid + ucast i)\<rparr>"

definition emptyCS :: ConsensusSet where
  "emptyCS = \<lparr>siacoinOutputs = Map.empty, delayedSiacoinOutputs = Map.empty,
              fileContracts = Map.empty\<rparr>"

definition mkNode :: "BlockHeight \<Rightarrow> SiacoinOutput list \<Rightarrow> blockNode" where
  "mkNode h payouts = \<lparr>block = \<lparr>MinerPayouts = payouts\<rparr>, height = h,
                       siacoinOutputDiffs = [], delayedSiacoinOutputDiffs = [],
                       fileContractDiffs = []\<rparr>"

definition outA :: SiacoinOutput where
  "outA = \<lparr>Value = 100, UnlockHash = 7\<rparr>"

definition outB :: SiacoinOutput where
  "outB = \<lparr>Value = 50, UnlockHash = 8\<rparr>"

definition fcC :: FileContract where
  "fcC = \<lparr>WindowEnd = 20, MissedProofOutputs = [outB]\<rparr>"

text \<open>
  A block node at height 20 with one payout, on a ledger with one entry in the bucket at 20
  and one contract that expires at 20; then the states after each of the three phases of
  \<open>applyMaintenance\<close>.
\<close>

definition ex_cs :: ConsensusSet where
  "ex_cs = \<lparr>siacoinOutputs = Map.empty,
            delayedSiacoinOutputs = [20 \<mapsto> [1 \<mapsto> outA]],
            fileContracts = [3 \<mapsto> fcC]\<rparr>"

definition ex_bn :: blockNode where
  "ex_bn = mkNode 20 [outA]"

definition ex_cs1 :: ConsensusSet where
  "ex_cs1 = \<lparr>siacoinOutputs = Map.empty,
            delayedSiacoinOutputs = [20 \<mapsto> [1 \<mapsto> outA], 30 \<mapsto> [1000 \<mapsto> outA]],
            fileContracts = [3 \<mapsto> fcC]\<rparr>"

definition ex_bn1 :: blockNode where
  "ex_bn1 = \<lparr>block = \<lparr>MinerPayouts = [outA]\<rparr>, height = 20,
       siacoinOutputDiffs = [],
       delayedSiacoinOutputDiffs = [\<lparr>dscod_Direction = DiffApply, dscod_ID = 1000,
          dscod_SiacoinOutput = outA, dscod_MaturityHeight = 30\<rparr>],
       fileContractDiffs = []\<rparr>"

definition ex_cs2 :: ConsensusSet where
  "ex_cs2 = \<lparr>siacoinOutputs = [1 \<mapsto> outA],
            delayedSiacoinOutputs = [30 \<mapsto> [1000 \<mapsto> outA]],
            fileContracts = [3 \<mapsto> fcC]\<rparr>"

definition ex_bn2 :: blockNode where
  "ex_bn2 = \<lparr>block = \<lparr>MinerPayouts = [outA]\<rparr>, height = 20,
       siacoinOutputDiffs = [\<lparr>scod_Direction = DiffApply, scod_ID = 1, scod_SiacoinOutput = outA\<rparr>],
       delayedSiacoinOutputDiffs = [\<lparr>dscod_Direction = DiffApply, dscod_ID = 1000,
          dscod_SiacoinOutput = outA, dscod_MaturityHeight = 30\<rparr>,
          \<lparr>dscod_Direction = DiffRevert, dscod_ID = 1,
          dscod_SiacoinOutput = outA, dscod_MaturityHeight = 20\<rparr>],
       fileContractDiffs = []\<rparr>"

definition ex_cs3 :: ConsensusSet where
  "ex_cs3 = \<lparr>siacoinOutputs = [1 \<mapsto> outA],
            delayedSiacoinOutputs = [30 \<mapsto> [1000 \<mapsto> outA, 2048 \<mapsto> outB]],
            fileContracts = Map.empty\<rparr>"

definition ex_bn3 :: blockNode where
  "ex_bn3 = \<lparr>block = \<lparr>MinerPayouts = [outA]\<rparr>, height = 20,
       siacoinOutputDiffs = [\<lparr>scod_Direction = DiffApply, scod_ID = 1, scod_SiacoinOutput = outA\<rparr>],
       delayedSiacoinOutputDiffs = [\<lparr>dscod_Direction = DiffApply, dscod_ID = 1000,
          dscod_SiacoinOutput = outA, dscod_MaturityHeight = 30\<rparr>,
          \<lparr>dscod_Direction = DiffRevert, dscod_ID = 1,
          dscod_SiacoinOutput = outA, dscod_MaturityHeight = 20\<rparr>,
          \<lparr>dscod_Direction = DiffApply, dscod_ID = 2048,
          dscod_SiacoinOutput = outB, dscod_MaturityHeight = 30\<rparr>],
       fileContractDiffs = [\<lparr>fcd_Direction = DiffRevert, fcd_ID = 3, fcd_FileContract = fcC\<rparr>]\<rparr>"

text \<open>
  A ledger whose target bucket already holds the identifier of the block's payout, and the
  state after a pass without the checks.
\<close>

definition cx_cs :: ConsensusSet where
  "cx_cs = \<lparr>siacoinOutputs = Map.empty,
            delayedSiacoinOutputs = [30 \<mapsto> [1000 \<mapsto> outB]],
            fileContracts = Map.empty\<rparr>"

definition cx_cs' :: ConsensusSet where
  "cx_cs' = \<lparr>siacoinOutputs = Map.empty,
            delayedSiacoinOutputs = [30 \<mapsto> [1000 \<mapsto> outA]],
            fileContracts = Map.empty\<rparr>"

definition cx_bn' :: blockNode where
  "cx_bn' = \<lparr>block = \<lparr>MinerPayouts = [outA]\<rparr>, height = 20,
       siacoinOutputDiffs = [],
       delayedSiacoinOutputDiffs = [\<lparr>dscod_Direction = DiffApply, dscod_ID = 1000,
          dscod_SiacoinOutput = outA, dscod_MaturityHeight = 30\<rparr>],
       fileContractDiffs = []\<rparr>"

text \<open>
  A ledger with one identifier in two buckets, and the state after the maturation at
  height 20; a ledger where the identifier of the block's payout is already mature, and the
  state after the payouts were applied without the checks.
\<close>

definition cx2_cs :: ConsensusSet where
  "cx2_cs = \<lparr>siacoinOutputs = Map.empty,
            delayedSiacoinOutputs = [20 \<mapsto> [1 \<mapsto> outA], 30 \<mapsto> [1 \<mapsto> outA]],
            fileContracts = Map.empty\<rparr>"

definition cx2_cs' :: ConsensusSet where
  "cx2_cs' = \<lparr>siacoinOutputs = [1 \<mapsto> outA],
            delayedSiacoinOutputs = [30 \<mapsto> [1 \<mapsto> outA]],
            fileContracts = Map.empty\<rparr>"

definition cx2_bn' :: blockNode where
  "cx2_bn' = \<lparr>block = \<lparr>MinerPayouts = []\<rparr>, height = 20,
       siacoinOutputDiffs = [\<lparr>scod_Direction = DiffApply, scod_ID = 1, scod_SiacoinOutput = outA\<rparr>],
       delayedSiacoinOutputDiffs = [\<lparr>dscod_Direction = DiffRevert, dscod_ID = 1,
          dscod_SiacoinOutput = outA, dscod_MaturityHeight = 20\<rparr>],
       fileContractDiffs = []\<rparr>"

definition cx3_cs :: ConsensusSet where
  "cx3_cs = \<lparr>siacoinOutputs = [1000 \<mapsto> outB],
            delayedSiacoinOutputs = Map.empty,
            fileContracts = Map.empty\<rparr>"

definition cx3_cs' :: ConsensusSet where
  "cx3_cs' = \<lparr>siacoinOutputs = [1000 \<mapsto> outB],
            delayedSiacoinOutputs = [30 \<mapsto> [1000 \<mapsto> outA]],
            fileContracts = Map.empty\<rparr>"

text \<open>
  A ledger with two entries in the bucket at 20, and the block nodes after maintenance with
  the two iteration orders.
\<close>

definition cx4_cs :: ConsensusSet where
  "cx4_cs = \<lparr>siacoinOutputs = Map.empty,
            delayedSiacoinOutputs = [20 \<mapsto> [1 \<mapsto> outA, 2 \<mapsto> outB]],
            fileContracts = Map.empty\<rparr>"

definition cx4_cs' :: ConsensusSet where
  "cx4_cs' = \<lparr>siacoinOutputs = [1 \<mapsto> outA, 2 \<mapsto> outB],
            delayedSiacoinOutputs = Map.empty,
            fileContracts = Map.empty\<rparr>"

definition cx4_bn_12 :: blockNode where
  "cx4_bn_12 = \<lparr>block = \<lparr>MinerPayouts = []\<rparr>, height = 20,
       siacoinOutputDiffs =
         [\<lparr>scod_Direction = DiffApply, scod_ID = 1, scod_SiacoinOutput = outA\<rparr>,
          \<lparr>scod_Direction = DiffApply, scod_ID = 2, scod_SiacoinOutput = outB\<rparr>],
       delayedSiacoinOutputDiffs =
         [\<lparr>dscod_Direction = DiffRevert, dscod_ID = 1, dscod_SiacoinOutput = outA,
           dscod_MaturityHeight = 20\<rparr>,
          \<lparr>dscod_Direction = DiffRevert, dscod_ID = 2, dscod_SiacoinOutput = outB,
           dscod_MaturityHeight = 20\<rparr>],
       fileContractDiffs = []\<rparr>"

definition cx4_bn_21 :: blockNode where
  "cx4_bn_21 = \<lparr>block = \<lparr>MinerPayouts = []\<rparr>, height = 20,
       siacoinOutputDiffs =
         [\<lparr>scod_Direction = DiffApply, scod_ID = 2, scod_SiacoinOutput = outB\<rparr>,
          \<lparr>scod_Direction = DiffApply, scod_ID = 1, scod_SiacoinOutput = outA\<rparr>],
       delayedSiacoinOutputDiffs =
         [\<lparr>dscod_Direction = DiffRevert, dscod_ID = 2, dscod_SiacoinOutput = outB,
           dscod_MaturityHeight = 20\<rparr>,
          \<lparr>dscod_Direction = DiffRevert, dscod_ID = 1, dscod_SiacoinOutput = outA,
           dscod_MaturityHeight = 20\<rparr>],
       fileContractDiffs = []\<rparr>"

text \<open>Ledgers that violate a precondition.\<close>

definition cs_mature_clash :: ConsensusSet where
  "cs_mature_clash = \<lparr>siacoinOutputs = [1 \<mapsto> outB],
            delayedSiacoinOutputs = [20 \<mapsto> [1 \<mapsto> outA]],
            fileContracts = Map.empty\<rparr>"

definition cs_missed_clash :: ConsensusSet where
  "cs_missed_clash = \<lparr>siacoinOutputs = Map.empty,
            delayedSiacoinOutputs = [30 \<mapsto> [2048 \<mapsto> outA]],
            fileContracts = [3 \<mapsto> fcC]\<rparr>"

text \<open>
  A ledger with three contracts, two of which expire at height 20, and the ledger and block
  node that \<open>applyFileContractMaintenance\<close> leaves for it.
\<close>

definition fcD :: FileContract where
  "fcD = \<lparr>WindowEnd = 20, MissedProofOutputs = [outB, outA]\<rparr>"

definition fcE :: FileContract where
  "fcE = \<lparr>WindowEnd = 25, MissedProofOutputs = [outA]\<rparr>"

definition c7_cs :: ConsensusSet where
  "c7_cs = \<lparr>siacoinOutputs = Map.empty,
            delayedSiacoinOutputs = Map.empty,
            fileContracts = [3 \<mapsto> fcD, 4 \<mapsto> fcC, 5 \<mapsto> fcE]\<rparr>"

definition c7_cs' :: ConsensusSet where
  "c7_cs' = \<lparr>siacoinOutputs = Map.empty,
            delayedSiacoinOutputs = [30 \<mapsto> [2048 \<mapsto> outB, 2049 \<mapsto> outA, 2064 \<mapsto> outB]],
            fileContracts = [5 \<mapsto> fcE]\<rparr>"

definition c7_bn' :: blockNode where
  "c7_bn' = \<lparr>block = \<lparr>MinerPayouts = []\<rparr>, height = 20,
       siacoinOutputDiffs = [],
       delayedSiacoinOutputDiffs =
         [\<lparr>dscod_Direction = DiffApply, dscod_ID = 2048, dscod_SiacoinOutput = outB,
           dscod_MaturityHeight = 30\<rparr>,
          \<lparr>dscod_Direction = DiffApply, dscod_ID = 2049, dscod_SiacoinOutput = outA,
           dscod_MaturityHeight = 30\<rparr>,
          \<lparr>dscod_Direction = DiffApply, dscod_ID = 2064, dscod_SiacoinOutput = outB,
           dscod_MaturityHeight = 30\<rparr>],
       fileContractDiffs =
         [\<lparr>fcd_Direction = DiffRevert, fcd_ID = 3, fcd_FileContract = fcD\<rparr>,
          \<lparr>fcd_Direction = DiffRevert, fcd_ID = 4, fcd_FileContract = fcC\<rparr>]\<rparr>"

section \<open>Basic facts\<close>

lemma expiredFileContracts_body_collect:
  "expiredFileContracts_body env fcid ((cs, bn), acc) =
     (case collect_step env cs bn fcid acc of Inl e \<Rightarrow> Inl e | Inr ex \<Rightarrow> Inr ((cs, bn), ex))"
  by (cases "fileContracts cs fcid") (simp_all add: collect_step_def Let_def)

lemma for_range_expiredFileContracts_body:
  "for_range (expiredFileContracts_body env) order ((cs, bn), acc) =
     (case for_range (collect_step env cs bn) order acc of
        Inl e \<Rightarrow> Inl e | Inr ex \<Rightarrow> Inr ((cs, bn), ex))"
proof (induction order arbitrary: acc)
  case Nil
  then show ?case by simp
next
  case (Cons k ks)
  show ?case
  proof (cases "collect_step env cs bn k acc")
    case (Inl e)
    then show ?thesis
      by (simp add: expiredFileContracts_body_collect del: expiredFileContracts_body.simps)
  next
    case (Inr acc1)
    then show ?thesis using Cons.IH[of acc1]
      by (simp add: expiredFileContracts_body_collect del: expiredFileContracts_body.simps)
  qed
qed

lemma applyFileContractMaintenance_unfold:
  "applyFileContractMaintenance env order (cs, bn) =
     (case for_range (collect_step env cs bn) order [] of
        Inl e \<Rightarrow> Inl e
      | Inr expired \<Rightarrow> for_range (applyMissedStorageProof env) expired (cs, bn))"
  by (cases "for_range (collect_step env cs bn) order []")
     (simp_all add: applyFileContractMaintenance.simps for_range_expiredFileContracts_body)

lemma siacoinOutputs_commitD [simp]:
  "siacoinOutputs (commitDelayedSiacoinOutputDiff cs d dir) = siacoinOutputs cs"
  by (simp add: commitDelayedSiacoinOutputDiff_def split: option.splits)

lemma fileContracts_commitD [simp]:
  "fileContracts (commitDelayedSiacoinOutputDiff cs d dir) = fileContracts cs"
  by (simp add: commitDelayedSiacoinOutputDiff_def split: option.splits)

lemma bucket_commitD:
  "bucket (commitDelayedSiacoinOutputDiff cs d dir) =
     (bucket cs)(dscod_MaturityHeight d :=
        (if dscod_Direction d = dir
         then (bucket cs (dscod_MaturityHeight d))(dscod_ID d \<mapsto> dscod_SiacoinOutput d)
         else (bucket cs (dscod_MaturityHeight d))(dscod_ID d := None)))"
  by (auto simp: commitDelayedSiacoinOutputDiff_def bucket_def fun_eq_iff split: option.splits)

lemma delayed_commitD_other:
  "h \<noteq> dscod_MaturityHeight d \<Longrightarrow>
   delayedSiacoinOutputs (commitDelayedSiacoinOutputDiff cs d dir) h = delayedSiacoinOutputs cs h"
  by (simp add: commitDelayedSiacoinOutputDiff_def split: option.splits)

lemma siacoinOutputs_commitS:
  "siacoinOutputs (commitSiacoinOutputDiff cs d dir) =
     (if scod_Direction d = dir then (siacoinOutputs cs)(scod_ID d \<mapsto> scod_SiacoinOutput d)
      else (siacoinOutputs cs)(scod_ID d := None))"
  by (simp add: commitSiacoinOutputDiff_def)

lemma delayed_commitS [simp]:
  "delayedSiacoinOutputs (commitSiacoinOutputDiff cs d dir) = delayedSiacoinOutputs cs"
  by (simp add: commitSiacoinOutputDiff_def)

lemma bucket_commitS [simp]: "bucket (commitSiacoinOutputDiff cs d dir) = bucket cs"
  by (simp add: bucket_def fun_eq_iff)

lemma fileContracts_commitS [simp]:
  "fileContracts (commitSiacoinOutputDiff cs d dir) = fileContracts cs"
  by (simp add: commitSiacoinOutputDiff_def)

lemma fileContracts_commitF:
  "fileContracts (commitFileContractDiff cs d dir) =
     (if fcd_Direction d = dir then (fileContracts cs)(fcd_ID d \<mapsto> fcd_FileContract d)
      else (fileContracts cs)(fcd_ID d := None))"
  by (simp add: commitFileContractDiff_def)

lemma delayed_commitF [simp]:
  "delayedSiacoinOutputs (commitFileContractDiff cs d dir) = delayedSiacoinOutputs cs"
  by (simp add: commitFileContractDiff_def)

lemma bucket_commitF [simp]: "bucket (commitFileContractDiff cs d dir) = bucket cs"
  by (simp add: bucket_def fun_eq_iff)

lemma siacoinOutputs_commitF [simp]:
  "siacoinOutputs (commitFileContractDiff cs d dir) = siacoinOutputs cs"
  by (simp add: commitFileContractDiff_def)

lemma bucket_fileContracts_update [simp]: "bucket (cs\<lparr>fileContracts := f\<rparr>) = bucket cs"
  by (simp add: bucket_def fun_eq_iff)

lemma bucket_delete_height:
  "bucket (cs\<lparr>delayedSiacoinOutputs := (delayedSiacoinOutputs cs)(H := None)\<rparr>) =
     (bucket cs)(H := Map.empty)"
  by (simp add: bucket_def fun_eq_iff)

lemma applyMinerPayouts_body_addDelayed:
  "applyMinerPayouts_body env ip s =
     addDelayed env (MinerPayoutID env (block (snd s)) (of_nat (fst ip)), snd ip) s"
  by (cases ip; cases s) (simp add: addDelayed_def Let_def)

lemma applyMissedStorageProof_body_addDelayed:
  "applyMissedStorageProof_body env fcid ip s =
     addDelayed env (StorageProofOutputID env fcid ProofMissed (of_nat (fst ip)), snd ip) s"
  by (cases ip; cases s) (simp add: addDelayed_def Let_def)


lemma for_range_lift:
  assumes "for_range body xs s = Inr s'"
    and "R s s"
    and "\<And>x a b. x \<in> set xs \<Longrightarrow> R s a \<Longrightarrow> body x a = Inr b \<Longrightarrow> R s b"
  shows "R s s'"
proof -
  have "R s0 s \<Longrightarrow> for_range body xs s = Inr s' \<Longrightarrow>
        (\<And>x a b. x \<in> set xs \<Longrightarrow> R s0 a \<Longrightarrow> body x a = Inr b \<Longrightarrow> R s0 b) \<Longrightarrow> R s0 s'" for s0
  proof (induction xs arbitrary: s)
    case Nil
    then show ?case by simp
  next
    case (Cons x xs)
    from Cons.prems(2) obtain s1 where b: "body x s = Inr s1" and r: "for_range body xs s1 = Inr s'"
      by (auto split: sum.splits)
    have r1: "R s0 s1" using Cons.prems(3)[OF _ Cons.prems(1) b] by simp
    show ?case
    proof (rule Cons.IH[OF r1 r])
      fix y a b assume "y \<in> set xs" "R s0 a" "body y a = Inr b"
      then show "R s0 b" using Cons.prems(3)[of y a b] by simp
    qed
  qed
  from this[OF assms(2) assms(1)] assms(3) show ?thesis by blast
qed

lemma for_range_cong_Inr:
  assumes "for_range body1 xs s = Inr s'"
    and "\<And>x a b. x \<in> set xs \<Longrightarrow> body1 x a = Inr b \<Longrightarrow> body2 x a = Inr b"
  shows "for_range body2 xs s = Inr s'"
  using assms
proof (induction xs arbitrary: s)
  case Nil
  then show ?case by simp
next
  case (Cons x xs)
  from Cons.prems(1) obtain s1 where b: "body1 x s = Inr s1" and r: "for_range body1 xs s1 = Inr s'"
    by (auto split: sum.splits)
  have "body2 x s = Inr s1" using Cons.prems(2) b by simp
  moreover have "for_range body2 xs s1 = Inr s'" using Cons.IH[OF r] Cons.prems(2) by simp
  ultimately show ?case by simp
qed

lemma uS_append: "uS (X1 @ X2) m = uS X1 (uS X2 m)" by (simp add: uS_def)

lemma uD_append: "uD (X1 @ X2) m = uD X1 (uD X2 m)" by (simp add: uD_def)

lemma uF_append: "uF (X1 @ X2) m = uF X1 (uF X2 m)" by (simp add: uF_def)

lemma undo_S_Cons: "undo_S (d # X) c = commitSiacoinOutputDiff (undo_S X c) d DiffRevert"
  by (simp add: undo_S_def)

lemma undo_D_Cons: "undo_D (d # X) c = commitDelayedSiacoinOutputDiff (undo_D X c) d DiffRevert"
  by (simp add: undo_D_def)

lemma undo_F_Cons: "undo_F (d # X) c = commitFileContractDiff (undo_F X c) d DiffRevert"
  by (simp add: undo_F_def)

lemma undo_S_siacoinOutputs: "siacoinOutputs (undo_S X c) = uS X (siacoinOutputs c)"
proof (induction X)
  case Nil
  then show ?case by (simp add: undo_S_def uS_def)
next
  case (Cons d X)
  have "siacoinOutputs (undo_S (d # X) c) =
        (if scod_Direction d = DiffRevert
         then (siacoinOutputs (undo_S X c))(scod_ID d \<mapsto> scod_SiacoinOutput d)
         else (siacoinOutputs (undo_S X c))(scod_ID d := None))"
    by (simp only: undo_S_Cons siacoinOutputs_commitS)
  also have "\<dots> = uS (d # X) (siacoinOutputs c)"
    by (simp only: Cons.IH) (simp add: uS_def)
  finally show ?case .
qed

lemma undo_S_others [simp]:
  "bucket (undo_S X c) = bucket c" "fileContracts (undo_S X c) = fileContracts c"
  by (induction X) (simp_all add: undo_S_Cons, simp_all add: undo_S_def)

lemma undo_D_bucket: "bucket (undo_D Y c) = uD Y (bucket c)"
proof (induction Y)
  case Nil
  then show ?case by (simp add: undo_D_def uD_def)
next
  case (Cons d Y)
  have "bucket (undo_D (d # Y) c) =
        (bucket (undo_D Y c))(dscod_MaturityHeight d :=
          (if dscod_Direction d = DiffRevert
           then (bucket (undo_D Y c) (dscod_MaturityHeight d))(dscod_ID d \<mapsto> dscod_SiacoinOutput d)
           else (bucket (undo_D Y c) (dscod_MaturityHeight d))(dscod_ID d := None)))"
    by (simp only: undo_D_Cons bucket_commitD)
  also have "\<dots> = uD (d # Y) (bucket c)"
    by (simp only: Cons.IH) (simp add: uD_def)
  finally show ?case .
qed

lemma undo_D_others [simp]:
  "siacoinOutputs (undo_D X c) = siacoinOutputs c" "fileContracts (undo_D X c) = fileContracts c"
  by (induction X) (simp_all add: undo_D_Cons, simp_all add: undo_D_def)

lemma undo_F_fileContracts: "fileContracts (undo_F Z c) = uF Z (fileContracts c)"
proof (induction Z)
  case Nil
  then show ?case by (simp add: undo_F_def uF_def)
next
  case (Cons d Z)
  have "fileContracts (undo_F (d # Z) c) =
        (if fcd_Direction d = DiffRevert
         then (fileContracts (undo_F Z c))(fcd_ID d \<mapsto> fcd_FileContract d)
         else (fileContracts (undo_F Z c))(fcd_ID d := None))"
    by (simp only: undo_F_Cons fileContracts_commitF)
  also have "\<dots> = uF (d # Z) (fileContracts c)"
    by (simp only: Cons.IH) (simp add: uF_def)
  finally show ?case .
qed

lemma undo_F_others [simp]:
  "siacoinOutputs (undo_F X c) = siacoinOutputs c" "bucket (undo_F X c) = bucket c"
  by (induction X) (simp_all add: undo_F_Cons, simp_all add: undo_F_def)

lemma restores_refl: "restores s s"
  by (simp add: restores_def uS_def uD_def uF_def)

lemma restores_trans:
  assumes "restores s s1" and "restores s1 s2"
  shows "restores s s2"
proof -
  from assms(1) obtain X Y Z where
    a: "siacoinOutputDiffs (snd s1) = siacoinOutputDiffs (snd s) @ X"
       "delayedSiacoinOutputDiffs (snd s1) = delayedSiacoinOutputDiffs (snd s) @ Y"
       "fileContractDiffs (snd s1) = fileContractDiffs (snd s) @ Z"
       "uS X (siacoinOutputs (fst s1)) = siacoinOutputs (fst s)"
       "uD Y (bucket (fst s1)) = bucket (fst s)"
       "uF Z (fileContracts (fst s1)) = fileContracts (fst s)"
    unfolding restores_def by blast
  from assms(2) obtain X' Y' Z' where
    b: "siacoinOutputDiffs (snd s2) = siacoinOutputDiffs (snd s1) @ X'"
       "delayedSiacoinOutputDiffs (snd s2) = delayedSiacoinOutputDiffs (snd s1) @ Y'"
       "fileContractDiffs (snd s2) = fileContractDiffs (snd s1) @ Z'"
       "uS X' (siacoinOutputs (fst s2)) = siacoinOutputs (fst s1)"
       "uD Y' (bucket (fst s2)) = bucket (fst s1)"
       "uF Z' (fileContracts (fst s2)) = fileContracts (fst s1)"
    unfolding restores_def by blast
  show ?thesis
    unfolding restores_def
    apply (rule exI[of _ "X @ X'"], rule exI[of _ "Y @ Y'"], rule exI[of _ "Z @ Z'"])
    using a b by (simp add: uS_append uD_append uF_append)
qed

lemma for_range_restores:
  assumes "for_range body xs s = Inr s'"
    and "\<And>x a b. x \<in> set xs \<Longrightarrow> body x a = Inr b \<Longrightarrow> restores a b"
  shows "restores s s'"
  using assms(1)
proof (rule for_range_lift)
  show "restores s s" by (rule restores_refl)
next
  fix x a b assume "x \<in> set xs" "restores s a" "body x a = Inr b"
  then show "restores s b" using assms(2) restores_trans by blast
qed

lemma addDelayed_restores:
  assumes "DEBUG env" and "addDelayed env x s = Inr s'"
  shows "restores s s'"
proof -
  let ?h = "height (snd s) + MaturityDelay env"
  let ?d = "\<lparr>dscod_Direction = DiffApply, dscod_ID = fst x, dscod_SiacoinOutput = snd x,
             dscod_MaturityHeight = ?h\<rparr>"
  from assms have fresh: "bucket (fst s) ?h (fst x) = None"
    by (auto simp: addDelayed_def split: if_splits)
  from assms have s': "s' = (commitDelayedSiacoinOutputDiff (fst s) ?d DiffApply,
       (snd s)\<lparr>delayedSiacoinOutputDiffs := delayedSiacoinOutputDiffs (snd s) @ [?d]\<rparr>)"
    by (auto simp: addDelayed_def split: if_splits)
  have "((bucket (fst s) ?h)(fst x \<mapsto> snd x))(fst x := None) = bucket (fst s) ?h"
    using fresh by (simp add: fun_upd_idem)
  then have 2: "uD [?d] (bucket (fst s')) = bucket (fst s)"
    by (simp add: s' uD_def bucket_commitD)
  show ?thesis
    unfolding restores_def
    apply (rule exI[of _ "[]"], rule exI[of _ "[?d]"], rule exI[of _ "[]"])
    using 2 by (simp add: s' uS_def uF_def)
qed

lemma applyMaturedSiacoinOutputs_body_restores:
  assumes "DEBUG env" and "applyMaturedSiacoinOutputs_body env k s = Inr s'"
  shows "restores s s'"
proof (cases "bucket (fst s) (height (snd s)) k")
  case None
  then have "s' = s" using assms(2) by (cases s) simp
  then show ?thesis by (simp add: restores_refl)
next
  case (Some dsco)
  obtain cs bn where s: "s = (cs, bn)" by (cases s)
  let ?a = "\<lparr>scod_Direction = DiffApply, scod_ID = k, scod_SiacoinOutput = dsco\<rparr>"
  let ?d = "\<lparr>dscod_Direction = DiffRevert, dscod_ID = k, dscod_SiacoinOutput = dsco,
             dscod_MaturityHeight = height bn\<rparr>"
  from assms Some have fresh: "siacoinOutputs cs k = None"
    by (auto simp: s split: if_splits)
  from assms Some have s': "s' = (commitDelayedSiacoinOutputDiff (commitSiacoinOutputDiff cs ?a DiffApply) ?d DiffApply,
      bn\<lparr>siacoinOutputDiffs := siacoinOutputDiffs bn @ [?a],
         delayedSiacoinOutputDiffs := delayedSiacoinOutputDiffs bn @ [?d]\<rparr>)"
    by (auto simp: s Let_def split: if_splits)
  have 1: "uS [?a] (siacoinOutputs (fst s')) = siacoinOutputs cs"
    using fresh by (simp add: s' uS_def siacoinOutputs_commitS fun_upd_idem)
  have "((bucket cs (height bn))(k := None))(k \<mapsto> dsco) = bucket cs (height bn)"
    using Some by (auto simp: s fun_eq_iff)
  then have 2: "uD [?d] (bucket (fst s')) = bucket cs"
    by (simp add: s' uD_def bucket_commitD)
  show ?thesis
    unfolding restores_def
    apply (rule exI[of _ "[?a]"], rule exI[of _ "[?d]"], rule exI[of _ "[]"])
    using 1 2 by (simp add: s s' uF_def)
qed

lemma addDelayed_same_node: "addDelayed env x s = Inr s' \<Longrightarrow> same_node s s'"
  by (auto simp: addDelayed_def same_node_def split: if_splits)

lemma addDelayed_delayed_only: "addDelayed env x s = Inr s' \<Longrightarrow> delayed_only s s'"
  by (auto simp: addDelayed_def delayed_only_def split: if_splits)

lemma for_range_same_node:
  assumes "for_range body xs s = Inr s'"
    and "\<And>x a b. x \<in> set xs \<Longrightarrow> body x a = Inr b \<Longrightarrow> same_node a b"
  shows "same_node s s'"
  using assms(1)
proof (rule for_range_lift)
  show "same_node s s" by (simp add: same_node_def)
next
  fix x a b assume "x \<in> set xs" "same_node s a" "body x a = Inr b"
  then show "same_node s b" using assms(2)[of x a b] by (simp add: same_node_def)
qed

lemma for_range_delayed_only:
  assumes "for_range body xs s = Inr s'"
    and "\<And>x a b. x \<in> set xs \<Longrightarrow> body x a = Inr b \<Longrightarrow> delayed_only a b"
  shows "delayed_only s s'"
  using assms(1)
proof (rule for_range_lift)
  show "delayed_only s s" by (simp add: delayed_only_def)
next
  fix x a b assume "x \<in> set xs" "delayed_only s a" "body x a = Inr b"
  then show "delayed_only s b" using assms(2)[of x a b] by (simp add: delayed_only_def)
qed

lemma applyMinerPayouts_restores:
  assumes "DEBUG env" and "applyMinerPayouts env s = Inr s'"
  shows "restores s s'"
  using assms(2) unfolding applyMinerPayouts_def
  by (rule for_range_restores)
     (simp add: applyMinerPayouts_body_addDelayed addDelayed_restores[OF assms(1)])

lemma applyMinerPayouts_same_node:
  assumes "applyMinerPayouts env s = Inr s'"
  shows "same_node s s'"
  using assms unfolding applyMinerPayouts_def
  by (rule for_range_same_node)
     (simp add: applyMinerPayouts_body_addDelayed addDelayed_same_node)

lemma applyMinerPayouts_delayed_only:
  assumes "applyMinerPayouts env s = Inr s'"
  shows "delayed_only s s'"
  using assms unfolding applyMinerPayouts_def
  by (rule for_range_delayed_only)
     (simp add: applyMinerPayouts_body_addDelayed addDelayed_delayed_only)

lemma applyMaturedSiacoinOutputs_body_same_node:
  "applyMaturedSiacoinOutputs_body env k s = Inr s' \<Longrightarrow> same_node s s'"
  by (cases s) (auto simp: same_node_def Let_def split: option.splits if_splits)

lemma applyMaturedSiacoinOutputs_restores:
  assumes "DEBUG env" and "applyMaturedSiacoinOutputs env order s = Inr s'"
  shows "restores s s'"
proof (cases "height (snd s) > MaturityDelay env")
  case False
  then have "s' = s" using assms(2) by (simp add: applyMaturedSiacoinOutputs_def)
  then show ?thesis by (simp add: restores_refl)
next
  case True
  from assms(2) True obtain cs1 bn1 where
    l: "for_range (applyMaturedSiacoinOutputs_body env) order s = Inr (cs1, bn1)"
    and e: "bucket cs1 (height bn1) = Map.empty"
    and s': "s' = (cs1\<lparr>delayedSiacoinOutputs := (delayedSiacoinOutputs cs1)(height bn1 := None)\<rparr>, bn1)"
    using assms(1)
    by (auto simp: applyMaturedSiacoinOutputs_def split: sum.splits if_splits)
  have r1: "restores s (cs1, bn1)"
    using l by (rule for_range_restores)
      (simp add: applyMaturedSiacoinOutputs_body_restores[OF assms(1)])
  have "bucket (fst s') = bucket cs1"
    using e by (auto simp: s' bucket_delete_height fun_eq_iff)
  then have "restores (cs1, bn1) s'"
    by (simp add: restores_def s' uS_def uD_def uF_def)
  with r1 show ?thesis by (rule restores_trans)
qed

lemma applyMaturedSiacoinOutputs_same_node:
  assumes "applyMaturedSiacoinOutputs env order s = Inr s'"
  shows "same_node s s'"
proof (cases "height (snd s) > MaturityDelay env")
  case False
  then have "s' = s" using assms by (simp add: applyMaturedSiacoinOutputs_def)
  then show ?thesis by (simp add: same_node_def)
next
  case True
  from assms True obtain cs1 bn1 where
    l: "for_range (applyMaturedSiacoinOutputs_body env) order s = Inr (cs1, bn1)"
    and s': "snd s' = bn1"
    by (auto simp: applyMaturedSiacoinOutputs_def split: sum.splits if_splits)
  have "same_node s (cs1, bn1)"
    using l by (rule for_range_same_node) (simp add: applyMaturedSiacoinOutputs_body_same_node)
  then show ?thesis by (simp add: same_node_def s')
qed

lemma applyMissedStorageProof_restores:
  assumes "DEBUG env" and "applyMissedStorageProof env fcid s = Inr s'"
  shows "restores s s'"
proof -
  obtain cs bn where s: "s = (cs, bn)" by (cases s)
  from assms obtain fc where fc: "fileContracts cs fcid = Some fc"
    by (cases "fileContracts cs fcid") (auto simp: s applyMissedStorageProof.simps)
  let ?d = "\<lparr>fcd_Direction = DiffRevert, fcd_ID = fcid, fcd_FileContract = fc\<rparr>"
  from assms fc obtain cs1 bn1 where
    l: "for_range (applyMissedStorageProof_body env fcid)
          (enumerate 0 (MissedProofOutputs fc)) (cs, bn) = Inr (cs1, bn1)"
    and s': "s' = (cs1\<lparr>fileContracts := (fileContracts cs1)(fcid := None)\<rparr>,
                  bn1\<lparr>fileContractDiffs := fileContractDiffs bn1 @ [?d]\<rparr>)"
    by (auto simp: s applyMissedStorageProof.simps split: sum.splits if_splits)
  have r1: "restores s (cs1, bn1)"
    using l unfolding s by (rule for_range_restores)
      (simp add: applyMissedStorageProof_body_addDelayed addDelayed_restores[OF assms(1)])
  have "delayed_only (cs, bn) (cs1, bn1)"
    using l by (rule for_range_delayed_only)
      (simp add: applyMissedStorageProof_body_addDelayed addDelayed_delayed_only)
  then have "fileContracts cs1 fcid = Some fc"
    using fc by (simp add: delayed_only_def)
  then have "(fileContracts cs1)(fcid \<mapsto> fc) = fileContracts cs1"
    by (auto simp: fun_eq_iff)
  then have 2: "uF [?d] (fileContracts (fst s')) = fileContracts cs1"
    by (simp add: s' uF_def)
  have "restores (cs1, bn1) s'"
    unfolding restores_def
    apply (rule exI[of _ "[]"], rule exI[of _ "[]"], rule exI[of _ "[?d]"])
    using 2 by (simp add: s' uS_def uD_def)
  with r1 show ?thesis by (rule restores_trans)
qed

lemma applyMissedStorageProof_same_node:
  assumes "applyMissedStorageProof env fcid s = Inr s'"
  shows "same_node s s'"
proof -
  obtain cs bn where s: "s = (cs, bn)" by (cases s)
  define fc where "fc = (case fileContracts cs fcid of None \<Rightarrow> zeroFileContract | Some c \<Rightarrow> c)"
  from assms obtain cs1 bn1 where
    l: "for_range (applyMissedStorageProof_body env fcid)
          (enumerate 0 (MissedProofOutputs fc)) (cs, bn) = Inr (cs1, bn1)"
    and s': "height (snd s') = height bn1" "block (snd s') = block bn1"
    by (auto simp: s fc_def applyMissedStorageProof.simps split: sum.splits if_splits option.splits)
  have "same_node (cs, bn) (cs1, bn1)"
    using l by (rule for_range_same_node)
      (simp add: applyMissedStorageProof_body_addDelayed addDelayed_same_node)
  then show ?thesis by (simp add: same_node_def s s')
qed

lemma applyFileContractMaintenance_restores:
  assumes "DEBUG env" and "applyFileContractMaintenance env order s = Inr s'"
  shows "restores s s'"
proof -
  obtain cs bn where s: "s = (cs, bn)" by (cases s)
  from assms(2) obtain expired where
    "for_range (applyMissedStorageProof env) expired (cs, bn) = Inr s'"
    by (auto simp: s applyFileContractMaintenance_unfold split: sum.splits)
  then show ?thesis unfolding s
    by (rule for_range_restores) (simp add: applyMissedStorageProof_restores[OF assms(1)])
qed

lemma applyFileContractMaintenance_same_node:
  assumes "applyFileContractMaintenance env order s = Inr s'"
  shows "same_node s s'"
proof -
  obtain cs bn where s: "s = (cs, bn)" by (cases s)
  from assms obtain expired where
    "for_range (applyMissedStorageProof env) expired (cs, bn) = Inr s'"
    by (auto simp: s applyFileContractMaintenance_unfold split: sum.splits)
  then show ?thesis unfolding s
    by (rule for_range_same_node) (simp add: applyMissedStorageProof_same_node)
qed

lemma applyMaintenance_restores:
  assumes "DEBUG env" and "applyMaintenance env dorder forder s = Inr s'"
  shows "restores s s'"
proof -
  from assms(2) obtain s1 s2 where
    1: "applyMinerPayouts env s = Inr s1"
    and 2: "applyMaturedSiacoinOutputs env dorder s1 = Inr s2"
    and 3: "applyFileContractMaintenance env forder s2 = Inr s'"
    by (auto simp: applyMaintenance_def split: sum.splits)
  show ?thesis
    using applyMinerPayouts_restores[OF assms(1) 1]
      applyMaturedSiacoinOutputs_restores[OF assms(1) 2]
      applyFileContractMaintenance_restores[OF assms(1) 3]
    by (blast intro: restores_trans)
qed

lemmas eval_defs = applyMinerPayouts_def applyMaturedSiacoinOutputs_def applyMaintenance_def
  collect_step_def applyFileContractMaintenance_unfold applyMissedStorageProof.simps
  commitSiacoinOutputDiff_def commitDelayedSiacoinOutputDiff_def
  commitFileContractDiff_def bucket_def env0_def mkNode_def enumerate_eq_zip Let_def

lemma ex1: "applyMinerPayouts env0 (ex_cs, ex_bn) = Inr (ex_cs1, ex_bn1)"
  by (simp add: eval_defs ex_cs_def ex_bn_def ex_cs1_def ex_bn1_def)

lemma ex2: "applyMaturedSiacoinOutputs env0 [1] (ex_cs1, ex_bn1) = Inr (ex_cs2, ex_bn2)"
  by (auto simp add: eval_defs ex_cs1_def ex_bn1_def ex_cs2_def ex_bn2_def fun_eq_iff)

lemma ex3: "applyFileContractMaintenance env0 [3] (ex_cs2, ex_bn2) = Inr (ex_cs3, ex_bn3)"
  by (auto simp add: eval_defs ex_cs2_def ex_bn2_def ex_cs3_def ex_bn3_def fcC_def fun_eq_iff)

lemma ex_all: "applyMaintenance env0 [1] [3] (ex_cs, ex_bn) = Inr (ex_cs3, ex_bn3)"
  by (simp add: applyMaintenance_def ex1 ex2 ex3)

lemma applyMaturedSiacoinOutputs_Inr:
  assumes "applyMaturedSiacoinOutputs env order s = Inr s'" and "height (snd s) > MaturityDelay env"
  shows "\<exists>cs1 bn1.
    for_range (applyMaturedSiacoinOutputs_body env) order s = Inr (cs1, bn1)
    \<and> (DEBUG env \<longrightarrow> bucket cs1 (height bn1) = Map.empty)
    \<and> s' = (cs1\<lparr>delayedSiacoinOutputs := (delayedSiacoinOutputs cs1)(height bn1 := None)\<rparr>, bn1)"
proof (cases "for_range (applyMaturedSiacoinOutputs_body env) order s")
  case (Inl e)
  then show ?thesis using assms by (simp add: applyMaturedSiacoinOutputs_def)
next
  case (Inr r)
  obtain cs1 bn1 where r: "r = (cs1, bn1)" by (cases r)
  show ?thesis
    using assms Inr r by (simp add: applyMaturedSiacoinOutputs_def split: if_splits)
qed

lemma applyMissedStorageProof_unfold:
  "applyMissedStorageProof env fcid (cs, bn) =
     (if DEBUG env \<and> fileContracts cs fcid = None then Inl errMissingFileContract
      else if DEBUG env \<and> WindowEnd (case fileContracts cs fcid of None \<Rightarrow> zeroFileContract | Some c \<Rightarrow> c) \<noteq> height bn
      then Inl errStorageProofTiming
      else
        case for_range (applyMissedStorageProof_body env fcid)
               (enumerate 0 (MissedProofOutputs (case fileContracts cs fcid of None \<Rightarrow> zeroFileContract | Some c \<Rightarrow> c))) (cs, bn) of
          Inl e \<Rightarrow> Inl e
        | Inr (cs1, bn1) \<Rightarrow>
            Inr (cs1\<lparr>fileContracts := (fileContracts cs1)(fcid := None)\<rparr>,
                 bn1\<lparr>fileContractDiffs := fileContractDiffs bn1 @
                        [\<lparr>fcd_Direction = DiffRevert, fcd_ID = fcid,
                          fcd_FileContract = (case fileContracts cs fcid of None \<Rightarrow> zeroFileContract | Some c \<Rightarrow> c)\<rparr>]\<rparr>))"
  by (cases "fileContracts cs fcid")
     (simp_all add: applyMissedStorageProof.simps split: sum.splits)

lemma applyMissedStorageProof_Inr:
  assumes "applyMissedStorageProof env fcid (cs, bn) = Inr s'"
    and "fc = (case fileContracts cs fcid of None \<Rightarrow> zeroFileContract | Some c \<Rightarrow> c)"
  shows "\<exists>cs1 bn1.
    (DEBUG env \<longrightarrow> fileContracts cs fcid = Some fc \<and> WindowEnd fc = height bn)
    \<and> for_range (applyMissedStorageProof_body env fcid)
       (enumerate 0 (MissedProofOutputs fc)) (cs, bn) = Inr (cs1, bn1)
    \<and> s' = (cs1\<lparr>fileContracts := (fileContracts cs1)(fcid := None)\<rparr>,
           bn1\<lparr>fileContractDiffs := fileContractDiffs bn1 @
             [\<lparr>fcd_Direction = DiffRevert, fcd_ID = fcid, fcd_FileContract = fc\<rparr>]\<rparr>)"
proof (cases "for_range (applyMissedStorageProof_body env fcid)
       (enumerate 0 (MissedProofOutputs fc)) (cs, bn)")
  case (Inl e)
  then show ?thesis
    using assms(1) unfolding applyMissedStorageProof_unfold assms(2)[symmetric]
    by (simp split: if_splits)
next
  case (Inr r)
  obtain cs1 bn1 where r: "r = (cs1, bn1)" by (cases r)
  have "DEBUG env \<longrightarrow> fileContracts cs fcid = Some fc \<and> WindowEnd fc = height bn"
    using assms(1) unfolding applyMissedStorageProof_unfold assms(2)[symmetric]
    by (cases "fileContracts cs fcid") (simp_all add: assms(2) split: if_splits)
  moreover have "s' = (cs1\<lparr>fileContracts := (fileContracts cs1)(fcid := None)\<rparr>,
           bn1\<lparr>fileContractDiffs := fileContractDiffs bn1 @
             [\<lparr>fcd_Direction = DiffRevert, fcd_ID = fcid, fcd_FileContract = fc\<rparr>]\<rparr>)"
    using assms(1) Inr r unfolding applyMissedStorageProof_unfold assms(2)[symmetric]
    by (simp split: if_splits)
  ultimately show ?thesis using Inr r by simp
qed

lemma applyMissedStorageProof_Inr_intro:
  assumes "fc = (case fileContracts cs fcid of None \<Rightarrow> zeroFileContract | Some c \<Rightarrow> c)"
    and "DEBUG env \<longrightarrow> fileContracts cs fcid = Some fc \<and> WindowEnd fc = height bn"
    and "for_range (applyMissedStorageProof_body env fcid)
       (enumerate 0 (MissedProofOutputs fc)) (cs, bn) = Inr (cs1, bn1)"
  shows "applyMissedStorageProof env fcid (cs, bn) =
     Inr (cs1\<lparr>fileContracts := (fileContracts cs1)(fcid := None)\<rparr>,
           bn1\<lparr>fileContractDiffs := fileContractDiffs bn1 @
             [\<lparr>fcd_Direction = DiffRevert, fcd_ID = fcid, fcd_FileContract = fc\<rparr>]\<rparr>)"
  using assms(2,3) unfolding applyMissedStorageProof_unfold assms(1)[symmetric]
  by simp

lemma applyFileContractMaintenance_Inr:
  assumes "applyFileContractMaintenance env order (cs, bn) = Inr s'"
  shows "\<exists>expired.
    for_range (collect_step env cs bn) order [] = Inr expired
    \<and> for_range (applyMissedStorageProof env) expired (cs, bn) = Inr s'"
  using assms by (cases "for_range (collect_step env cs bn) order []")
    (simp_all add: applyFileContractMaintenance_unfold)

lemma applyMaintenance_Inr:
  assumes "applyMaintenance env dorder forder s = Inr s'"
  shows "\<exists>s1 s2.
    applyMinerPayouts env s = Inr s1
    \<and> applyMaturedSiacoinOutputs env dorder s1 = Inr s2
    \<and> applyFileContractMaintenance env forder s2 = Inr s'"
proof (cases "applyMinerPayouts env s")
  case (Inl e)
  then show ?thesis using assms by (simp add: applyMaintenance_def)
next
  case (Inr s1)
  note 1 = this
  show ?thesis
  proof (cases "applyMaturedSiacoinOutputs env dorder s1")
    case (Inl e)
    then show ?thesis using assms 1 by (simp add: applyMaintenance_def)
  next
    case (Inr s2)
    have "applyFileContractMaintenance env forder s2 = Inr s'"
      using assms 1 Inr by (simp add: applyMaintenance_def)
    with 1 Inr show ?thesis by (intro exI[of _ s1] exI[of _ s2]) simp
  qed
qed

lemma addDelayed_checked:
  "addDelayed (env\<lparr>DEBUG := True\<rparr>) x s = Inr s' \<Longrightarrow> addDelayed env x s = Inr s'"
  unfolding addDelayed_def by (simp split: if_splits)

lemma applyMinerPayouts_checked:
  assumes "applyMinerPayouts (env\<lparr>DEBUG := True\<rparr>) s = Inr s'"
  shows "applyMinerPayouts env s = Inr s'"
  using assms unfolding applyMinerPayouts_def
  by (rule for_range_cong_Inr)
     (simp add: applyMinerPayouts_body_addDelayed, erule addDelayed_checked)

lemma applyMaturedSiacoinOutputs_body_checked:
  "applyMaturedSiacoinOutputs_body (env\<lparr>DEBUG := True\<rparr>) k s = Inr s' \<Longrightarrow>
   applyMaturedSiacoinOutputs_body env k s = Inr s'"
  by (cases s) (simp split: option.splits if_splits)

lemma applyMaturedSiacoinOutputs_checked:
  assumes "applyMaturedSiacoinOutputs (env\<lparr>DEBUG := True\<rparr>) order s = Inr s'"
  shows "applyMaturedSiacoinOutputs env order s = Inr s'"
proof (cases "height (snd s) > MaturityDelay env")
  case False
  then show ?thesis using assms by (simp add: applyMaturedSiacoinOutputs_def)
next
  case True
  then have h: "height (snd s) > MaturityDelay (env\<lparr>DEBUG := True\<rparr>)" by simp
  from applyMaturedSiacoinOutputs_Inr[OF assms h] obtain cs1 bn1 where
    l: "for_range (applyMaturedSiacoinOutputs_body (env\<lparr>DEBUG := True\<rparr>)) order s = Inr (cs1, bn1)"
    and e: "DEBUG (env\<lparr>DEBUG := True\<rparr>) \<longrightarrow> bucket cs1 (height bn1) = Map.empty"
    and s': "s' = (cs1\<lparr>delayedSiacoinOutputs := (delayedSiacoinOutputs cs1)(height bn1 := None)\<rparr>, bn1)"
    by (elim exE conjE)
  have "for_range (applyMaturedSiacoinOutputs_body env) order s = Inr (cs1, bn1)"
    using l by (rule for_range_cong_Inr) (erule applyMaturedSiacoinOutputs_body_checked)
  then show ?thesis using True e s' by (simp add: applyMaturedSiacoinOutputs_def)
qed

lemma applyMissedStorageProof_checked:
  assumes "applyMissedStorageProof (env\<lparr>DEBUG := True\<rparr>) fcid s = Inr s'"
  shows "applyMissedStorageProof env fcid s = Inr s'"
proof -
  obtain cs bn where s: "s = (cs, bn)" by (cases s)
  define fc where fc: "fc = (case fileContracts cs fcid of None \<Rightarrow> zeroFileContract | Some c \<Rightarrow> c)"
  from applyMissedStorageProof_Inr[OF assms[unfolded s] fc] obtain cs1 bn1 where
    d: "DEBUG (env\<lparr>DEBUG := True\<rparr>) \<longrightarrow> fileContracts cs fcid = Some fc \<and> WindowEnd fc = height bn"
    and l: "for_range (applyMissedStorageProof_body (env\<lparr>DEBUG := True\<rparr>) fcid)
          (enumerate 0 (MissedProofOutputs fc)) (cs, bn) = Inr (cs1, bn1)"
    and s': "s' = (cs1\<lparr>fileContracts := (fileContracts cs1)(fcid := None)\<rparr>,
                  bn1\<lparr>fileContractDiffs := fileContractDiffs bn1 @
                    [\<lparr>fcd_Direction = DiffRevert, fcd_ID = fcid, fcd_FileContract = fc\<rparr>]\<rparr>)"
    by (elim exE conjE)
  have l': "for_range (applyMissedStorageProof_body env fcid)
          (enumerate 0 (MissedProofOutputs fc)) (cs, bn) = Inr (cs1, bn1)"
    using l by (rule for_range_cong_Inr)
      (simp add: applyMissedStorageProof_body_addDelayed, erule addDelayed_checked)
  have d': "DEBUG env \<longrightarrow> fileContracts cs fcid = Some fc \<and> WindowEnd fc = height bn"
    using d by simp
  show ?thesis unfolding s s'
    by (rule applyMissedStorageProof_Inr_intro[OF fc d' l'])
qed

lemma collect_step_checked:
  "collect_step (env\<lparr>DEBUG := True\<rparr>) cs bn k acc = Inr acc' \<Longrightarrow>
   collect_step env cs bn k acc = Inr acc'"
  by (cases "fileContracts cs k")
     (simp_all add: collect_step_def Let_def split: if_splits)

lemma applyFileContractMaintenance_checked:
  assumes "applyFileContractMaintenance (env\<lparr>DEBUG := True\<rparr>) order s = Inr s'"
  shows "applyFileContractMaintenance env order s = Inr s'"
proof -
  obtain cs bn where s: "s = (cs, bn)" by (cases s)
  from applyFileContractMaintenance_Inr[OF assms[unfolded s]] obtain expired where
    sc: "for_range (collect_step (env\<lparr>DEBUG := True\<rparr>) cs bn) order [] = Inr expired"
    and l: "for_range (applyMissedStorageProof (env\<lparr>DEBUG := True\<rparr>)) expired (cs, bn) = Inr s'"
    by (elim exE conjE)
  have 1: "for_range (collect_step env cs bn) order [] = Inr expired"
    using sc by (rule for_range_cong_Inr) (erule collect_step_checked)
  have 2: "for_range (applyMissedStorageProof env) expired (cs, bn) = Inr s'"
    using l by (rule for_range_cong_Inr) (erule applyMissedStorageProof_checked)
  show ?thesis using 1 2 by (simp add: s applyFileContractMaintenance_unfold)
qed

lemma applyMaintenance_checked:
  assumes "applyMaintenance (env\<lparr>DEBUG := True\<rparr>) dorder forder s = Inr s'"
  shows "applyMaintenance env dorder forder s = Inr s'"
proof -
  from applyMaintenance_Inr[OF assms] obtain s1 s2 where
    1: "applyMinerPayouts (env\<lparr>DEBUG := True\<rparr>) s = Inr s1"
    and 2: "applyMaturedSiacoinOutputs (env\<lparr>DEBUG := True\<rparr>) dorder s1 = Inr s2"
    and 3: "applyFileContractMaintenance (env\<lparr>DEBUG := True\<rparr>) forder s2 = Inr s'"
    by (elim exE conjE)
  show ?thesis
    using applyMinerPayouts_checked[OF 1] applyMaturedSiacoinOutputs_checked[OF 2]
      applyFileContractMaintenance_checked[OF 3]
    by (simp add: applyMaintenance_def)
qed

lemma env0_checked: "env0\<lparr>DEBUG := True\<rparr> = env0"
  by (simp add: env0_def)

lemma restores_revertDiffs:
  assumes "restores (cs, bn) (cs', bn')"
  shows "\<exists>X Y Z. siacoinOutputDiffs bn' = siacoinOutputDiffs bn @ X
            \<and> delayedSiacoinOutputDiffs bn' = delayedSiacoinOutputDiffs bn @ Y
            \<and> fileContractDiffs bn' = fileContractDiffs bn @ Z
            \<and> siacoinOutputs (revertDiffs X Y Z cs') = siacoinOutputs cs
            \<and> bucket (revertDiffs X Y Z cs') = bucket cs
            \<and> fileContracts (revertDiffs X Y Z cs') = fileContracts cs"
  using assms
  by (simp add: restores_def revertDiffs_def undo_S_siacoinOutputs undo_D_bucket
      undo_F_fileContracts)

lemma cx_run:
  "applyMaintenance (env0\<lparr>DEBUG := False\<rparr>) [] [] (cx_cs, mkNode 20 [outA]) = Inr (cx_cs', cx_bn')"
  by (auto simp add: eval_defs cx_cs_def cx_cs'_def cx_bn'_def fun_eq_iff)

lemma addDelayed_Inr:
  assumes "addDelayed env x (cs, bn) = Inr (cs', bn')"
  shows "cs' = commitDelayedSiacoinOutputDiff cs (delayedDiff (height bn + MaturityDelay env) x) DiffApply"
    and "bn' = bn\<lparr>delayedSiacoinOutputDiffs := delayedSiacoinOutputDiffs bn @
                  [delayedDiff (height bn + MaturityDelay env) x]\<rparr>"
    and "DEBUG env \<Longrightarrow> bucket cs (height bn + MaturityDelay env) (fst x) = None
                      \<and> siacoinOutputs cs (fst x) = None"
  using assms by (auto simp: addDelayed_def delayedDiff_def split: if_splits)

lemma map_add_upd_rev:
  "m(k \<mapsto> v) ++ map_of (rev rest) = m ++ map_of (rev ((k, v) # rest))"
  by (simp add: map_add_assoc[symmetric])

lemma for_range_addDelayed:
  assumes "for_range (addDelayed env) xs (cs, bn) = Inr (cs', bn')"
  shows "bn' = bn\<lparr>delayedSiacoinOutputDiffs := delayedSiacoinOutputDiffs bn @
                  map (delayedDiff (height bn + MaturityDelay env)) xs\<rparr>
       \<and> siacoinOutputs cs' = siacoinOutputs cs
       \<and> fileContracts cs' = fileContracts cs
       \<and> bucket cs' = (bucket cs)(height bn + MaturityDelay env :=
                         bucket cs (height bn + MaturityDelay env) ++ map_of (rev xs))
       \<and> (\<forall>h. h \<noteq> height bn + MaturityDelay env \<longrightarrow>
              delayedSiacoinOutputs cs' h = delayedSiacoinOutputs cs h)
       \<and> (DEBUG env \<longrightarrow> distinct (map fst xs)
              \<and> (\<forall>x\<in>set xs. bucket cs (height bn + MaturityDelay env) (fst x) = None
                             \<and> siacoinOutputs cs (fst x) = None))"
  using assms
proof (induction xs arbitrary: cs bn)
  case Nil
  then show ?case by simp
next
  case (Cons x xs)
  let ?h = "height bn + MaturityDelay env"
  from Cons.prems obtain s1 where
    b: "addDelayed env x (cs, bn) = Inr s1" and r: "for_range (addDelayed env) xs s1 = Inr (cs', bn')"
    by (auto split: sum.splits)
  obtain cs1 bn1 where s1: "s1 = (cs1, bn1)" by (cases s1)
  note a = addDelayed_Inr[OF b[unfolded s1]]
  have h1: "height bn1 = height bn" by (simp add: a(2))
  note ih = Cons.IH[OF r[unfolded s1]]
  have bk1: "bucket cs1 = (bucket cs)(?h := (bucket cs ?h)(fst x \<mapsto> snd x))"
    by (simp add: a(1) bucket_commitD delayedDiff_def)
  have 1: "bn' = bn\<lparr>delayedSiacoinOutputDiffs := delayedSiacoinOutputDiffs bn @
                  map (delayedDiff ?h) (x # xs)\<rparr>"
    using ih by (simp add: a(2) h1)
  have 2: "siacoinOutputs cs' = siacoinOutputs cs" "fileContracts cs' = fileContracts cs"
    using ih by (simp_all add: a(1))
  have 3: "bucket cs' = (bucket cs)(?h := bucket cs ?h ++ map_of (rev (x # xs)))"
  proof -
    have "bucket cs' = (bucket cs1)(?h := bucket cs1 ?h ++ map_of (rev xs))"
      using ih unfolding h1 by blast
    also have "\<dots> = (bucket cs)(?h := (bucket cs ?h)(fst x \<mapsto> snd x) ++ map_of (rev xs))"
      by (simp add: bk1)
    also have "(bucket cs ?h)(fst x \<mapsto> snd x) ++ map_of (rev xs)
                 = bucket cs ?h ++ map_of (rev (x # xs))"
      using map_add_upd_rev[of "bucket cs ?h" "fst x" "snd x" xs] by simp
    finally show ?thesis .
  qed
  have 4: "\<forall>h. h \<noteq> ?h \<longrightarrow> delayedSiacoinOutputs cs' h = delayedSiacoinOutputs cs h"
    using ih by (simp add: a(1) delayed_commitD_other delayedDiff_def h1)
  have 5: "DEBUG env \<longrightarrow> distinct (map fst (x # xs))
              \<and> (\<forall>y\<in>set (x # xs). bucket cs ?h (fst y) = None \<and> siacoinOutputs cs (fst y) = None)"
  proof
    assume d: "DEBUG env"
    from ih d have dx: "distinct (map fst xs)"
      and f: "\<forall>y\<in>set xs. bucket cs1 ?h (fst y) = None \<and> siacoinOutputs cs1 (fst y) = None"
      unfolding h1 by blast+
    have so1: "siacoinOutputs cs1 = siacoinOutputs cs" by (simp add: a(1))
    have ne: "\<forall>y\<in>set xs. fst y \<noteq> fst x"
    proof
      fix y assume "y \<in> set xs"
      then have "bucket cs1 ?h (fst y) = None" using f by simp
      then show "fst y \<noteq> fst x" by (auto simp: bk1)
    qed
    have "\<forall>y\<in>set xs. bucket cs ?h (fst y) = None \<and> siacoinOutputs cs (fst y) = None"
    proof
      fix y assume y: "y \<in> set xs"
      then have "bucket cs1 ?h (fst y) = None" "fst y \<noteq> fst x" using f ne by simp_all
      then have "bucket cs ?h (fst y) = None" by (simp add: bk1)
      then show "bucket cs ?h (fst y) = None \<and> siacoinOutputs cs (fst y) = None"
        using f y so1 by simp
    qed
    moreover have "fst x \<notin> fst ` set xs" using ne by force
    ultimately show "distinct (map fst (x # xs))
              \<and> (\<forall>y\<in>set (x # xs). bucket cs ?h (fst y) = None \<and> siacoinOutputs cs (fst y) = None)"
      using dx a(3)[OF d] by simp
  qed
  show ?case using 1 2 3 4 5 by blast
qed

lemma for_range_map_state:
  assumes "\<And>x s. body x s = g (f (key s) x) s"
    and "\<And>y s s'. g y s = Inr s' \<Longrightarrow> key s' = key s"
  shows "for_range body xs s = for_range g (map (f (key s)) xs) s"
proof (induction xs arbitrary: s)
  case Nil
  then show ?case by simp
next
  case (Cons x xs)
  show ?case
  proof (cases "g (f (key s) x) s")
    case (Inl e)
    then show ?thesis by (simp add: assms(1))
  next
    case (Inr s1)
    then have "key s1 = key s" by (rule assms(2))
    then show ?thesis using Inr Cons.IH[of s1] by (simp add: assms(1))
  qed
qed

lemma applyMinerPayouts_addDelayed:
  "applyMinerPayouts env (cs, bn) = for_range (addDelayed env) (minerPayoutIDs env bn) (cs, bn)"
proof -
  have "for_range (applyMinerPayouts_body env) xs s =
        for_range (addDelayed env)
          (map (\<lambda>ip. (MinerPayoutID env (block (snd s)) (of_nat (fst ip)), snd ip)) xs) s" for xs s
    by (rule for_range_map_state[where key = "\<lambda>s. block (snd s)"
          and f = "\<lambda>b ip. (MinerPayoutID env b (of_nat (fst ip)), snd ip)"])
       (simp add: applyMinerPayouts_body_addDelayed,
        auto simp: addDelayed_def split: if_splits)
  then show ?thesis by (simp add: applyMinerPayouts_def minerPayoutIDs_def)
qed

lemma enumerate_0_nth: "enumerate 0 xs = map (\<lambda>i. (i, xs ! i)) [0..<length xs]"
  by (rule nth_equalityI) (simp_all add: nth_enumerate_eq)

lemma minerPayoutIDs_nth:
  "minerPayoutIDs env bn =
     map (\<lambda>i. (MinerPayoutID env (block bn) (of_nat i), MinerPayouts (block bn) ! i))
       [0..<length (MinerPayouts (block bn))]"
  by (simp add: minerPayoutIDs_def enumerate_0_nth)

lemma map_add_map_of_rev_distinct:
  assumes "distinct (map fst L)"
  shows "(k, v) \<in> set L \<Longrightarrow> (m ++ map_of (rev L)) k = Some v"
    and "k \<notin> fst ` set L \<Longrightarrow> (m ++ map_of (rev L)) k = m k"
proof -
  have d: "distinct (map fst (rev L))" using assms by (simp add: rev_map[symmetric])
  show "(k, v) \<in> set L \<Longrightarrow> (m ++ map_of (rev L)) k = Some v"
    using map_of_eq_Some_iff[OF d, of k v] by (simp add: map_add_Some_iff)
  show "k \<notin> fst ` set L \<Longrightarrow> (m ++ map_of (rev L)) k = m k"
    by (simp add: map_add_def map_of_eq_None_iff[THEN iffD2])
qed

lemma applyMaturedSiacoinOutputs_body_None:
  "bucket cs (height bn) k = None \<Longrightarrow> applyMaturedSiacoinOutputs_body env k (cs, bn) = Inr (cs, bn)"
  by simp

lemma applyMaturedSiacoinOutputs_body_Some:
  assumes "bucket cs (height bn) k = Some v"
    and "applyMaturedSiacoinOutputs_body env k (cs, bn) = Inr (cs', bn')"
  shows "bn' = bn\<lparr>siacoinOutputDiffs := siacoinOutputDiffs bn @ [maturedDiff (bucket cs (height bn)) k],
                  delayedSiacoinOutputDiffs := delayedSiacoinOutputDiffs bn @
                     [drainedDiff (height bn) (bucket cs (height bn)) k]\<rparr>"
    and "siacoinOutputs cs' = (siacoinOutputs cs)(k \<mapsto> v)"
    and "bucket cs' = (bucket cs)(height bn := (bucket cs (height bn))(k := None))"
    and "fileContracts cs' = fileContracts cs"
    and "h \<noteq> height bn \<Longrightarrow> delayedSiacoinOutputs cs' h = delayedSiacoinOutputs cs h"
    and "DEBUG env \<Longrightarrow> siacoinOutputs cs k = None"
  using assms
  by (auto simp: Let_def maturedDiff_def drainedDiff_def siacoinOutputs_commitS bucket_commitD
      delayed_commitD_other split: if_splits)

lemma for_range_matured:
  assumes "for_range (applyMaturedSiacoinOutputs_body env) ks (cs, bn) = Inr (cs', bn')"
    and "distinct ks"
  shows "bn' = bn\<lparr>siacoinOutputDiffs := siacoinOutputDiffs bn @
                    map (maturedDiff (bucket cs (height bn)))
                      (filter (\<lambda>k. bucket cs (height bn) k \<noteq> None) ks),
                  delayedSiacoinOutputDiffs := delayedSiacoinOutputDiffs bn @
                    map (drainedDiff (height bn) (bucket cs (height bn)))
                      (filter (\<lambda>k. bucket cs (height bn) k \<noteq> None) ks)\<rparr>
       \<and> siacoinOutputs cs' = siacoinOutputs cs ++ (bucket cs (height bn) |` set ks)
       \<and> bucket cs' = (bucket cs)(height bn := bucket cs (height bn) |` (- set ks))
       \<and> fileContracts cs' = fileContracts cs
       \<and> (\<forall>h. h \<noteq> height bn \<longrightarrow> delayedSiacoinOutputs cs' h = delayedSiacoinOutputs cs h)
       \<and> (DEBUG env \<longrightarrow> (\<forall>k\<in>set ks. bucket cs (height bn) k \<noteq> None \<longrightarrow> siacoinOutputs cs k = None))"
  using assms
proof (induction ks arbitrary: cs bn)
  case Nil
  then show ?case by (simp add: fun_eq_iff restrict_map_def)
next
  case (Cons k ks)
  let ?H = "height bn"
  let ?B = "bucket cs ?H"
  from Cons.prems(2) have dk: "distinct ks" and nk: "k \<notin> set ks" by simp_all
  show ?case
  proof (cases "?B k")
    case None
    then have r: "for_range (applyMaturedSiacoinOutputs_body env) ks (cs, bn) = Inr (cs', bn')"
      using Cons.prems(1) by simp
    note ih = Cons.IH[OF r dk]
    have e1: "?B |` set (k # ks) = ?B |` set ks"
      using None by (auto simp: fun_eq_iff restrict_map_def)
    have e2: "?B |` (- set (k # ks)) = ?B |` (- set ks)"
      using None by (auto simp: fun_eq_iff restrict_map_def)
    have e3: "filter (\<lambda>k. ?B k \<noteq> None) (k # ks) = filter (\<lambda>k. ?B k \<noteq> None) ks"
      using None by simp
    show ?thesis unfolding e1 e2 e3 using ih None by auto
  next
    case (Some v)
    from Cons.prems(1) obtain s1 where
      b: "applyMaturedSiacoinOutputs_body env k (cs, bn) = Inr s1"
      and r: "for_range (applyMaturedSiacoinOutputs_body env) ks s1 = Inr (cs', bn')"
      by (auto simp del: applyMaturedSiacoinOutputs_body.simps split: sum.splits)
    obtain cs1 bn1 where s1: "s1 = (cs1, bn1)" by (cases s1)
    note a = applyMaturedSiacoinOutputs_body_Some[OF Some b[unfolded s1]]
    have h1: "height bn1 = ?H" by (simp add: a(1))
    have B1: "bucket cs1 ?H = ?B(k := None)" by (simp add: a(3))
    have ih: "bn' = bn1\<lparr>siacoinOutputDiffs := siacoinOutputDiffs bn1 @
                    map (maturedDiff (?B(k := None)))
                      (filter (\<lambda>x. (?B(k := None)) x \<noteq> None) ks),
                  delayedSiacoinOutputDiffs := delayedSiacoinOutputDiffs bn1 @
                    map (drainedDiff ?H (?B(k := None)))
                      (filter (\<lambda>x. (?B(k := None)) x \<noteq> None) ks)\<rparr>"
      "siacoinOutputs cs' = siacoinOutputs cs1 ++ (?B(k := None) |` set ks)"
      "bucket cs' = (bucket cs1)(?H := ?B(k := None) |` (- set ks))"
      "fileContracts cs' = fileContracts cs1"
      "\<forall>h. h \<noteq> ?H \<longrightarrow> delayedSiacoinOutputs cs' h = delayedSiacoinOutputs cs1 h"
      "DEBUG env \<longrightarrow> (\<forall>x\<in>set ks. (?B(k := None)) x \<noteq> None \<longrightarrow> siacoinOutputs cs1 x = None)"
      using Cons.IH[OF r[unfolded s1] dk] unfolding h1 B1 by blast+
    have f1: "filter (\<lambda>x. (?B(k := None)) x \<noteq> None) ks = filter (\<lambda>x. ?B x \<noteq> None) ks"
      using nk by (intro filter_cong) auto
    have m1: "map (maturedDiff (?B(k := None))) (filter (\<lambda>x. ?B x \<noteq> None) ks)
                = map (maturedDiff ?B) (filter (\<lambda>x. ?B x \<noteq> None) ks)"
      using nk by (intro map_cong) (auto simp: maturedDiff_def)
    have m2: "map (drainedDiff ?H (?B(k := None))) (filter (\<lambda>x. ?B x \<noteq> None) ks)
                = map (drainedDiff ?H ?B) (filter (\<lambda>x. ?B x \<noteq> None) ks)"
      using nk by (intro map_cong) (auto simp: drainedDiff_def)
    have 1: "bn' = bn\<lparr>siacoinOutputDiffs := siacoinOutputDiffs bn @
                    map (maturedDiff ?B) (filter (\<lambda>k. ?B k \<noteq> None) (k # ks)),
                  delayedSiacoinOutputDiffs := delayedSiacoinOutputDiffs bn @
                    map (drainedDiff ?H ?B) (filter (\<lambda>k. ?B k \<noteq> None) (k # ks))\<rparr>"
      using ih(1) Some unfolding f1 m1 m2 by (simp add: a(1))
    have 2: "siacoinOutputs cs' = siacoinOutputs cs ++ (?B |` set (k # ks))"
    proof -
      have "siacoinOutputs cs' = (siacoinOutputs cs)(k \<mapsto> v) ++ (?B(k := None) |` set ks)"
        using ih(2) by (simp add: a(2))
      also have "\<dots> = siacoinOutputs cs ++ (?B |` set (k # ks))"
        using Some nk by (auto simp: fun_eq_iff map_add_def restrict_map_def split: option.splits)
      finally show ?thesis .
    qed
    have 3: "bucket cs' = (bucket cs)(?H := ?B |` (- set (k # ks)))"
    proof -
      have "bucket cs' = (bucket cs1)(?H := ?B(k := None) |` (- set ks))" by (rule ih(3))
      also have "\<dots> = (bucket cs)(?H := ?B(k := None) |` (- set ks))" by (simp add: a(3))
      also have "?B(k := None) |` (- set ks) = ?B |` (- set (k # ks))"
        by (auto simp: fun_eq_iff restrict_map_def)
      finally show ?thesis .
    qed
    have 4: "fileContracts cs' = fileContracts cs" using ih(4) by (simp add: a(4))
    have 5: "\<forall>h. h \<noteq> ?H \<longrightarrow> delayedSiacoinOutputs cs' h = delayedSiacoinOutputs cs h"
      using ih(5) a(5) by simp
    have 6: "DEBUG env \<longrightarrow> (\<forall>x\<in>set (k # ks). ?B x \<noteq> None \<longrightarrow> siacoinOutputs cs x = None)"
    proof (intro impI ballI)
      fix x assume d: "DEBUG env" and x: "x \<in> set (k # ks)" and bx: "?B x \<noteq> None"
      show "siacoinOutputs cs x = None"
      proof (cases "x = k")
        case True
        then show ?thesis using a(6)[OF d] by simp
      next
        case False
        then have "x \<in> set ks" "(?B(k := None)) x \<noteq> None" using x bx by simp_all
        then have "siacoinOutputs cs1 x = None" using ih(6) d by blast
        then show ?thesis using False by (simp add: a(2))
      qed
    qed
    show ?thesis using 1 2 3 4 5 6 by blast
  qed
qed

lemma for_range_expired:
  assumes "for_range (collect_step env cs bn) order acc = Inr expired"
  shows "expired = acc @ filter (expires cs (height bn)) order
       \<and> (DEBUG env \<longrightarrow> (\<forall>k\<in>set order. \<forall>fc. fileContracts cs k = Some fc
                                \<longrightarrow> \<not> WindowEnd fc < height bn))"
  using assms
proof (induction order arbitrary: acc)
  case Nil
  then show ?case by simp
next
  case (Cons k ks)
  from Cons.prems obtain acc1 where
    b: "collect_step env cs bn k acc = Inr acc1"
    and r: "for_range (collect_step env cs bn) ks acc1 = Inr expired"
    by (auto split: sum.splits)
  note ih = Cons.IH[OF r]
  show ?case
  proof (cases "fileContracts cs k")
    case None
    then have "acc1 = acc" using b by (simp add: collect_step_def)
    then show ?thesis using ih None by (simp add: expires_def)
  next
    case (Some fc)
    then have a1: "acc1 = (if WindowEnd fc = height bn then acc @ [k] else acc)"
      and d: "DEBUG env \<longrightarrow> \<not> WindowEnd fc < height bn"
      using b by (auto simp: collect_step_def Let_def split: if_splits)
    show ?thesis using ih Some a1 d by (auto simp: expires_def)
  qed
qed

lemma for_range_expired_total:
  assumes "\<not> DEBUG env \<or> (\<forall>k\<in>set order. \<forall>fc. fileContracts cs k = Some fc
                                \<longrightarrow> \<not> WindowEnd fc < height bn)"
  shows "for_range (collect_step env cs bn) order acc
           = Inr (acc @ filter (expires cs (height bn)) order)"
  using assms
proof (induction order arbitrary: acc)
  case Nil
  then show ?case by simp
next
  case (Cons k ks)
  have ih: "for_range (collect_step env cs bn) ks acc1
           = Inr (acc1 @ filter (expires cs (height bn)) ks)" for acc1
    using Cons.IH Cons.prems by auto
  show ?case
  proof (cases "fileContracts cs k")
    case None
    then have b: "collect_step env cs bn k acc = Inr acc"
      and e: "\<not> expires cs (height bn) k"
      by (simp_all add: collect_step_def expires_def)
    show ?thesis using ih[of acc] b e by simp
  next
    case (Some fc)
    then have n: "\<not> (DEBUG env \<and> WindowEnd fc < height bn)" using Cons.prems by auto
    show ?thesis
    proof (cases "WindowEnd fc = height bn")
      case True
      then have b: "collect_step env cs bn k acc = Inr (acc @ [k])"
        and e: "expires cs (height bn) k"
        using Some n by (simp_all add: collect_step_def expires_def)
      show ?thesis using ih[of "acc @ [k]"] b e by simp
    next
      case False
      then have b: "collect_step env cs bn k acc = Inr acc"
        and e: "\<not> expires cs (height bn) k"
        using Some n by (simp_all add: collect_step_def expires_def)
      show ?thesis using ih[of acc] b e by simp
    qed
  qed
qed

lemma for_range_expired_panic:
  assumes "DEBUG env" and "k \<in> set order" and "fileContracts cs k = Some fc"
    and "WindowEnd fc < height bn"
  shows "for_range (collect_step env cs bn) order acc
           = Inl panic_expiring_file_contract_missed"
  using assms(2)
proof (induction order arbitrary: acc)
  case Nil
  then show ?case by simp
next
  case (Cons x xs)
  show ?case
  proof (cases "collect_step env cs bn x acc")
    case (Inl e)
    then have "e = panic_expiring_file_contract_missed"
      by (auto simp: collect_step_def Let_def split: option.splits if_splits)
    then show ?thesis using Inl by simp
  next
    case (Inr acc1)
    then have "x \<noteq> k" using assms(1,3,4)
      by (auto simp: collect_step_def Let_def)
    then have "k \<in> set xs" using Cons.prems by simp
    then show ?thesis using Cons.IH Inr by simp
  qed
qed

lemma for_range_map: "for_range (\<lambda>x. g (f x)) xs s = for_range g (map f xs) s"
  by (induction xs arbitrary: s) (auto split: sum.splits)

lemma applyMissedStorageProof_char:
  assumes "applyMissedStorageProof env fcid (cs, bn) = Inr (cs', bn')"
  shows "bn' = bn\<lparr>delayedSiacoinOutputDiffs := delayedSiacoinOutputDiffs bn @
                    map (delayedDiff (height bn + MaturityDelay env))
                      (missedOutputs env fcid (contractOf cs fcid)),
                  fileContractDiffs := fileContractDiffs bn @ [contractDiff cs fcid]\<rparr>"
    and "siacoinOutputs cs' = siacoinOutputs cs"
    and "fileContracts cs' = (fileContracts cs)(fcid := None)"
    and "bucket cs' = (bucket cs)(height bn + MaturityDelay env :=
            bucket cs (height bn + MaturityDelay env)
              ++ map_of (rev (missedOutputs env fcid (contractOf cs fcid))))"
    and "\<forall>h. h \<noteq> height bn + MaturityDelay env \<longrightarrow>
            delayedSiacoinOutputs cs' h = delayedSiacoinOutputs cs h"
    and "DEBUG env \<longrightarrow> fileContracts cs fcid = Some (contractOf cs fcid)
            \<and> WindowEnd (contractOf cs fcid) = height bn"
    and "DEBUG env \<longrightarrow> distinct (map fst (missedOutputs env fcid (contractOf cs fcid)))
            \<and> (\<forall>x\<in>set (missedOutputs env fcid (contractOf cs fcid)).
                  bucket cs (height bn + MaturityDelay env) (fst x) = None
                  \<and> siacoinOutputs cs (fst x) = None)"
proof -
  let ?fc = "contractOf cs fcid"
  have fc: "?fc = (case fileContracts cs fcid of None \<Rightarrow> zeroFileContract | Some c \<Rightarrow> c)"
    by (simp add: contractOf_def)
  from applyMissedStorageProof_Inr[OF assms fc] obtain cs1 bn1 where
    d: "DEBUG env \<longrightarrow> fileContracts cs fcid = Some ?fc \<and> WindowEnd ?fc = height bn"
    and l: "for_range (applyMissedStorageProof_body env fcid)
          (enumerate 0 (MissedProofOutputs ?fc)) (cs, bn) = Inr (cs1, bn1)"
    and s': "(cs', bn') = (cs1\<lparr>fileContracts := (fileContracts cs1)(fcid := None)\<rparr>,
                  bn1\<lparr>fileContractDiffs := fileContractDiffs bn1 @
                    [\<lparr>fcd_Direction = DiffRevert, fcd_ID = fcid, fcd_FileContract = ?fc\<rparr>]\<rparr>)"
    by (elim exE conjE)
  have "for_range (applyMissedStorageProof_body env fcid) xs s =
        for_range (addDelayed env)
          (map (\<lambda>ip. (StorageProofOutputID env fcid ProofMissed (of_nat (fst ip)), snd ip)) xs) s"
    for xs s
    using for_range_map[of "addDelayed env"
        "\<lambda>ip. (StorageProofOutputID env fcid ProofMissed (of_nat (fst ip)), snd ip)" xs s]
    by (simp add: applyMissedStorageProof_body_addDelayed[abs_def])
  then have l': "for_range (addDelayed env) (missedOutputs env fcid ?fc) (cs, bn) = Inr (cs1, bn1)"
    using l by (simp add: missedOutputs_def)
  note c = for_range_addDelayed[OF l']
  show "bn' = bn\<lparr>delayedSiacoinOutputDiffs := delayedSiacoinOutputDiffs bn @
                    map (delayedDiff (height bn + MaturityDelay env))
                      (missedOutputs env fcid ?fc),
                  fileContractDiffs := fileContractDiffs bn @ [contractDiff cs fcid]\<rparr>"
    using c s' by (simp add: contractDiff_def)
  show "siacoinOutputs cs' = siacoinOutputs cs" using c s' by simp
  show "fileContracts cs' = (fileContracts cs)(fcid := None)" using c s' by simp
  show "bucket cs' = (bucket cs)(height bn + MaturityDelay env :=
            bucket cs (height bn + MaturityDelay env) ++ map_of (rev (missedOutputs env fcid ?fc)))"
    using c s' by simp
  show "\<forall>h. h \<noteq> height bn + MaturityDelay env \<longrightarrow>
            delayedSiacoinOutputs cs' h = delayedSiacoinOutputs cs h"
    using c s' by simp
  show "DEBUG env \<longrightarrow> fileContracts cs fcid = Some ?fc \<and> WindowEnd ?fc = height bn"
    by (rule d)
  show "DEBUG env \<longrightarrow> distinct (map fst (missedOutputs env fcid ?fc))
            \<and> (\<forall>x\<in>set (missedOutputs env fcid ?fc).
                  bucket cs (height bn + MaturityDelay env) (fst x) = None
                  \<and> siacoinOutputs cs (fst x) = None)"
    using c by blast
qed

lemma contractOf_upd_other:
  "j \<noteq> k \<Longrightarrow> fileContracts cs1 = (fileContracts cs)(k := None) \<Longrightarrow>
   contractOf cs1 j = contractOf cs j"
  by (simp add: contractOf_def)

lemma for_range_missed:
  assumes "for_range (applyMissedStorageProof env) ids (cs, bn) = Inr (cs', bn')"
    and "distinct ids"
  shows "bn' = bn\<lparr>delayedSiacoinOutputDiffs := delayedSiacoinOutputDiffs bn @
                    concat (map (\<lambda>k. map (delayedDiff (height bn + MaturityDelay env))
                                   (missedOutputs env k (contractOf cs k))) ids),
                  fileContractDiffs := fileContractDiffs bn @ map (contractDiff cs) ids\<rparr>
       \<and> siacoinOutputs cs' = siacoinOutputs cs
       \<and> fileContracts cs' = fileContracts cs |` (- set ids)
       \<and> bucket cs' = (bucket cs)(height bn + MaturityDelay env :=
            bucket cs (height bn + MaturityDelay env)
              ++ map_of (rev (concat (map (\<lambda>k. missedOutputs env k (contractOf cs k)) ids))))
       \<and> (\<forall>h. h \<noteq> height bn + MaturityDelay env \<longrightarrow>
            delayedSiacoinOutputs cs' h = delayedSiacoinOutputs cs h)
       \<and> (DEBUG env \<longrightarrow> (\<forall>k\<in>set ids. fileContracts cs k = Some (contractOf cs k)
                                \<and> WindowEnd (contractOf cs k) = height bn))"
  using assms
proof (induction ids arbitrary: cs bn)
  case Nil
  then show ?case by (simp add: fun_eq_iff restrict_map_def)
next
  case (Cons k ks)
  let ?h = "height bn + MaturityDelay env"
  let ?o = "\<lambda>c j. missedOutputs env j (contractOf c j)"
  from Cons.prems(2) have dk: "distinct ks" and nk: "k \<notin> set ks" by simp_all
  from Cons.prems(1) obtain s1 where
    b: "applyMissedStorageProof env k (cs, bn) = Inr s1"
    and r: "for_range (applyMissedStorageProof env) ks s1 = Inr (cs', bn')"
    by (auto split: sum.splits)
  obtain cs1 bn1 where s1: "s1 = (cs1, bn1)" by (cases s1)
  note a = applyMissedStorageProof_char[OF b[unfolded s1]]
  have h1: "height bn1 = height bn" by (simp add: a(1))
  have co: "contractOf cs1 j = contractOf cs j" if "j \<in> set ks" for j
  proof -
    from that nk have "j \<noteq> k" by auto
    then show ?thesis using a(3) by (rule contractOf_upd_other)
  qed
  have m1: "map (contractDiff cs1) ks = map (contractDiff cs) ks"
    by (rule map_cong) (simp_all add: contractDiff_def co)
  have m2: "map (?o cs1) ks = map (?o cs) ks"
    by (rule map_cong) (simp_all add: co)
  have m3: "map (\<lambda>j. map (delayedDiff ?h) (?o cs1 j)) ks = map (\<lambda>j. map (delayedDiff ?h) (?o cs j)) ks"
    by (rule map_cong) (simp_all add: co)
  have ih: "bn' = bn1\<lparr>delayedSiacoinOutputDiffs := delayedSiacoinOutputDiffs bn1 @
                    concat (map (\<lambda>j. map (delayedDiff ?h) (?o cs j)) ks),
                  fileContractDiffs := fileContractDiffs bn1 @ map (contractDiff cs) ks\<rparr>"
      "siacoinOutputs cs' = siacoinOutputs cs1"
      "fileContracts cs' = fileContracts cs1 |` (- set ks)"
      "bucket cs' = (bucket cs1)(?h := bucket cs1 ?h ++ map_of (rev (concat (map (?o cs) ks))))"
      "\<forall>h. h \<noteq> ?h \<longrightarrow> delayedSiacoinOutputs cs' h = delayedSiacoinOutputs cs1 h"
      "DEBUG env \<longrightarrow> (\<forall>j\<in>set ks. fileContracts cs1 j = Some (contractOf cs1 j)
                                \<and> WindowEnd (contractOf cs1 j) = height bn)"
    using Cons.IH[OF r[unfolded s1] dk] unfolding h1 m1 m2 m3 by blast+
  have 1: "bn' = bn\<lparr>delayedSiacoinOutputDiffs := delayedSiacoinOutputDiffs bn @
                    concat (map (\<lambda>j. map (delayedDiff ?h) (?o cs j)) (k # ks)),
                  fileContractDiffs := fileContractDiffs bn @ map (contractDiff cs) (k # ks)\<rparr>"
    using ih(1) by (simp add: a(1))
  have 2: "siacoinOutputs cs' = siacoinOutputs cs" using ih(2) a(2) by simp
  have 3: "fileContracts cs' = fileContracts cs |` (- set (k # ks))"
    using ih(3) by (auto simp: a(3) fun_eq_iff restrict_map_def)
  have 4: "bucket cs' = (bucket cs)(?h := bucket cs ?h ++ map_of (rev (concat (map (?o cs) (k # ks)))))"
  proof -
    have "bucket cs' = (bucket cs)(?h := (bucket cs ?h ++ map_of (rev (?o cs k)))
                                      ++ map_of (rev (concat (map (?o cs) ks))))"
      using ih(4) by (simp add: a(4))
    also have "(bucket cs ?h ++ map_of (rev (?o cs k))) ++ map_of (rev (concat (map (?o cs) ks)))
               = bucket cs ?h ++ map_of (rev (concat (map (?o cs) (k # ks))))"
      by simp
    finally show ?thesis .
  qed
  have 5: "\<forall>h. h \<noteq> ?h \<longrightarrow> delayedSiacoinOutputs cs' h = delayedSiacoinOutputs cs h"
    using ih(5) a(5) by simp
  have 6: "DEBUG env \<longrightarrow> (\<forall>j\<in>set (k # ks). fileContracts cs j = Some (contractOf cs j)
                                \<and> WindowEnd (contractOf cs j) = height bn)"
  proof (intro impI ballI)
    fix j assume d: "DEBUG env" and j: "j \<in> set (k # ks)"
    show "fileContracts cs j = Some (contractOf cs j) \<and> WindowEnd (contractOf cs j) = height bn"
    proof (cases "j = k")
      case True
      then show ?thesis using a(6) d by simp
    next
      case False
      then have jk: "j \<in> set ks" using j by simp
      then have "fileContracts cs1 j = Some (contractOf cs1 j)
                 \<and> WindowEnd (contractOf cs1 j) = height bn"
        using ih(6) d by blast
      then show ?thesis using False co[OF jk] by (simp add: a(3))
    qed
  qed
  show ?case using 1 2 3 4 5 6 by blast
qed

lemma filter_eq_distinct: "distinct xs \<Longrightarrow> x \<in> set xs \<Longrightarrow> filter (\<lambda>y. y = x) xs = [x]"
proof (induction xs)
  case Nil
  then show ?case by simp
next
  case (Cons a xs)
  show ?case
  proof (cases "a = x")
    case True
    then have "x \<notin> set xs" using Cons.prems by simp
    then have "filter (\<lambda>y. y = x) xs = []" by (auto simp: filter_empty_conv)
    then show ?thesis using True by simp
  next
    case False
    then show ?thesis using Cons by simp
  qed
qed

lemma missedOutputs_nth:
  "missedOutputs env fcid fc =
     map (\<lambda>i. (StorageProofOutputID env fcid ProofMissed (of_nat i), MissedProofOutputs fc ! i))
       [0..<length (MissedProofOutputs fc)]"
  by (simp add: missedOutputs_def enumerate_0_nth)

lemma map_add_map_of_rev_dom:
  "k \<in> fst ` set L \<Longrightarrow> (m ++ map_of (rev L)) k \<noteq> None"
proof -
  assume "k \<in> fst ` set L"
  then have "map_of (rev L) k \<noteq> None" by (simp add: map_of_eq_None_iff)
  then show ?thesis by (auto simp: map_add_def split: option.splits)
qed

lemma applyFileContractMaintenance_char:
  assumes "distinct order"
    and "applyFileContractMaintenance env order (cs, bn) = Inr (cs', bn')"
  shows "for_range (collect_step env cs bn) order []
           = Inr (filter (expires cs (height bn)) order)"
    and "for_range (applyMissedStorageProof env) (filter (expires cs (height bn)) order) (cs, bn)
           = Inr (cs', bn')"
proof -
  from applyFileContractMaintenance_Inr[OF assms(2)] obtain expired where
    sc: "for_range (collect_step env cs bn) order [] = Inr expired"
    and l: "for_range (applyMissedStorageProof env) expired (cs, bn) = Inr (cs', bn')"
    by (elim exE conjE)
  have e: "expired = filter (expires cs (height bn)) order"
    using for_range_expired[OF sc] by simp
  show "for_range (collect_step env cs bn) order []
           = Inr (filter (expires cs (height bn)) order)"
    using sc e by simp
  show "for_range (applyMissedStorageProof env) (filter (expires cs (height bn)) order) (cs, bn)
           = Inr (cs', bn')"
    using l e by simp
qed

lemma for_range_Inl:
  "for_range body xs s = Inl e \<Longrightarrow> \<exists>x\<in>set xs. \<exists>a. body x a = Inl e"
proof (induction xs arbitrary: s)
  case Nil
  then show ?case by simp
next
  case (Cons x xs)
  show ?case
  proof (cases "body x s")
    case (Inl e')
    then have "body x s = Inl e" using Cons.prems by simp
    then show ?thesis by auto
  next
    case (Inr s1)
    then have "for_range body xs s1 = Inl e" using Cons.prems by simp
    then show ?thesis using Cons.IH by auto
  qed
qed

lemma addDelayed_Inl: "addDelayed env x s = Inl e \<Longrightarrow> e = errPayoutsAlreadyPaid"
  by (auto simp: addDelayed_def split: if_splits)

lemma for_range_addDelayed_Inl:
  assumes "for_range (addDelayed env) xs s = Inl e"
  shows "e = errPayoutsAlreadyPaid"
proof -
  from for_range_Inl[OF assms] obtain x a where "addDelayed env x a = Inl e" by auto
  then show ?thesis by (rule addDelayed_Inl)
qed

lemma applyMaturedSiacoinOutputs_body_Inl:
  "applyMaturedSiacoinOutputs_body env k s = Inl e \<Longrightarrow> e = errOutputAlreadyMature"
  by (cases s) (auto simp: Let_def split: option.splits if_splits)

lemma for_range_addDelayed_panics:
  assumes "DEBUG env" and "x \<in> set xs"
    and "bucket cs (height bn + MaturityDelay env) (fst x) \<noteq> None \<or> siacoinOutputs cs (fst x) \<noteq> None"
  shows "for_range (addDelayed env) xs (cs, bn) = Inl errPayoutsAlreadyPaid"
proof (cases "for_range (addDelayed env) xs (cs, bn)")
  case (Inl e)
  then show ?thesis using for_range_addDelayed_Inl[OF Inl] by simp
next
  case (Inr r)
  obtain cs' bn' where r: "r = (cs', bn')" by (cases r)
  from for_range_addDelayed[OF Inr[unfolded r]] assms(1)
  have "\<forall>y\<in>set xs. bucket cs (height bn + MaturityDelay env) (fst y) = None
                    \<and> siacoinOutputs cs (fst y) = None"
    by blast
  then have "bucket cs (height bn + MaturityDelay env) (fst x) = None
                    \<and> siacoinOutputs cs (fst x) = None"
    using assms(2) by (rule bspec)
  then show ?thesis using assms(3) by simp
qed

lemma applyMinerPayouts_panics:
  assumes "DEBUG env" and "i < length (MinerPayouts (block bn))"
    and "bucket cs (height bn + MaturityDelay env) (MinerPayoutID env (block bn) (of_nat i)) \<noteq> None
         \<or> siacoinOutputs cs (MinerPayoutID env (block bn) (of_nat i)) \<noteq> None"
  shows "applyMinerPayouts env (cs, bn) = Inl errPayoutsAlreadyPaid"
proof -
  let ?x = "(MinerPayoutID env (block bn) (of_nat i), MinerPayouts (block bn) ! i)"
  have "?x \<in> set (minerPayoutIDs env bn)" using assms(2) by (simp add: minerPayoutIDs_nth)
  then show ?thesis
    unfolding applyMinerPayouts_addDelayed
    using assms(1,3) for_range_addDelayed_panics[of env ?x] by simp
qed

lemma applyMissedStorageProof_missing:
  assumes "DEBUG env" and "fileContracts cs fcid = None"
  shows "applyMissedStorageProof env fcid (cs, bn) = Inl errMissingFileContract"
  using assms by (simp add: applyMissedStorageProof_unfold)

lemma applyMissedStorageProof_timing:
  assumes "DEBUG env" and "fileContracts cs fcid = Some fc" and "WindowEnd fc \<noteq> height bn"
  shows "applyMissedStorageProof env fcid (cs, bn) = Inl errStorageProofTiming"
  using assms by (simp add: applyMissedStorageProof_unfold)

lemma applyMissedStorageProof_panics:
  assumes "DEBUG env" and "fileContracts cs fcid = Some fc" and "WindowEnd fc = height bn"
    and "i < length (MissedProofOutputs fc)"
    and "bucket cs (height bn + MaturityDelay env)
           (StorageProofOutputID env fcid ProofMissed (of_nat i)) \<noteq> None
         \<or> siacoinOutputs cs (StorageProofOutputID env fcid ProofMissed (of_nat i)) \<noteq> None"
  shows "applyMissedStorageProof env fcid (cs, bn) = Inl errPayoutsAlreadyPaid"
proof -
  let ?x = "(StorageProofOutputID env fcid ProofMissed (of_nat i), MissedProofOutputs fc ! i)"
  have x: "?x \<in> set (missedOutputs env fcid fc)" using assms(4) by (simp add: missedOutputs_nth)
  have "for_range (applyMissedStorageProof_body env fcid) xs s =
        for_range (addDelayed env)
          (map (\<lambda>ip. (StorageProofOutputID env fcid ProofMissed (of_nat (fst ip)), snd ip)) xs) s"
    for xs s
    using for_range_map[of "addDelayed env"
        "\<lambda>ip. (StorageProofOutputID env fcid ProofMissed (of_nat (fst ip)), snd ip)" xs s]
    by (simp add: applyMissedStorageProof_body_addDelayed[abs_def])
  then have "for_range (applyMissedStorageProof_body env fcid)
               (enumerate 0 (MissedProofOutputs fc)) (cs, bn) = Inl errPayoutsAlreadyPaid"
    using for_range_addDelayed_panics[OF assms(1) x, of cs bn] assms(5)
    by (simp add: missedOutputs_def)
  then show ?thesis using assms(1,2,3) by (simp add: applyMissedStorageProof_unfold)
qed

lemma applyMaturedSiacoinOutputs_panics:
  assumes "DEBUG env" and "height bn > MaturityDelay env" and "distinct order"
    and "k \<in> set order" and "bucket cs (height bn) k \<noteq> None" and "siacoinOutputs cs k \<noteq> None"
  shows "applyMaturedSiacoinOutputs env order (cs, bn) = Inl errOutputAlreadyMature"
proof (cases "for_range (applyMaturedSiacoinOutputs_body env) order (cs, bn)")
  case (Inl e)
  from for_range_Inl[OF Inl] obtain x a where
    "applyMaturedSiacoinOutputs_body env x a = Inl e" by auto
  then have "e = errOutputAlreadyMature" by (rule applyMaturedSiacoinOutputs_body_Inl)
  then show ?thesis using Inl assms(2) by (simp add: applyMaturedSiacoinOutputs_def)
next
  case (Inr r)
  obtain cs' bn' where r: "r = (cs', bn')" by (cases r)
  from for_range_matured[OF Inr[unfolded r] assms(3)] assms(1)
  have "\<forall>k\<in>set order. bucket cs (height bn) k \<noteq> None \<longrightarrow> siacoinOutputs cs k = None"
    by blast
  then have "bucket cs (height bn) k \<noteq> None \<longrightarrow> siacoinOutputs cs k = None"
    using assms(4) by (rule bspec)
  then show ?thesis using assms(5,6) by simp
qed

lemma applyMaturedSiacoinOutputs_nonempty_panics:
  assumes "DEBUG env" and "height bn > MaturityDelay env"
    and "for_range (applyMaturedSiacoinOutputs_body env) order (cs, bn) = Inr (cs1, bn1)"
    and "bucket cs1 (height bn1) \<noteq> Map.empty"
  shows "applyMaturedSiacoinOutputs env order (cs, bn) = Inl panic_deleting_non_empty_map"
  using assms by (simp add: applyMaturedSiacoinOutputs_def)

lemma applyFileContractMaintenance_panics:
  assumes "DEBUG env" and "k \<in> set order" and "fileContracts cs k = Some fc"
    and "WindowEnd fc < height bn"
  shows "applyFileContractMaintenance env order (cs, bn) = Inl panic_expiring_file_contract_missed"
  using for_range_expired_panic[OF assms, of "[]"] by (simp add: applyFileContractMaintenance_unfold)

lemma for_range_addDelayed_disjoint:
  assumes "DEBUG env" and "for_range (addDelayed env) xs (cs, bn) = Inr (cs', bn')"
    and "mature_delayed_disjoint cs"
  shows "mature_delayed_disjoint cs'"
proof -
  let ?h = "height bn + MaturityDelay env"
  note c = for_range_addDelayed[OF assms(2)]
  have so: "siacoinOutputs cs' = siacoinOutputs cs" using c by blast
  have bk: "bucket cs' = (bucket cs)(?h := bucket cs ?h ++ map_of (rev xs))" using c by blast
  have fr: "\<forall>x\<in>set xs. siacoinOutputs cs (fst x) = None" using c assms(1) by blast
  show ?thesis
    unfolding mature_delayed_disjoint_def
  proof (intro allI impI)
    fix k h assume k: "siacoinOutputs cs' k \<noteq> None"
    then have k0: "siacoinOutputs cs k \<noteq> None" by (simp add: so)
    then have b0: "bucket cs h k = None" for h
      using assms(3) by (simp add: mature_delayed_disjoint_def)
    have "k \<notin> fst ` set xs" using fr k0 by auto
    then have "map_of (rev xs) k = None" by (simp add: map_of_eq_None_iff)
    then show "bucket cs' h k = None" using b0 by (simp add: bk map_add_def)
  qed
qed

lemma applyMinerPayouts_disjoint:
  assumes "DEBUG env" and "applyMinerPayouts env (cs, bn) = Inr (cs', bn')"
    and "mature_delayed_disjoint cs"
  shows "mature_delayed_disjoint cs'"
  using for_range_addDelayed_disjoint[OF assms(1) assms(2)[unfolded applyMinerPayouts_addDelayed] assms(3)] .

lemma applyMissedStorageProof_disjoint:
  assumes "DEBUG env" and "applyMissedStorageProof env fcid (cs, bn) = Inr (cs', bn')"
    and "mature_delayed_disjoint cs"
  shows "mature_delayed_disjoint cs'"
proof -
  let ?h = "height bn + MaturityDelay env"
  let ?xs = "missedOutputs env fcid (contractOf cs fcid)"
  note c = applyMissedStorageProof_char[OF assms(2)]
  have fr: "\<forall>x\<in>set ?xs. siacoinOutputs cs (fst x) = None" using c(7) assms(1) by blast
  show ?thesis
    unfolding mature_delayed_disjoint_def
  proof (intro allI impI)
    fix k h assume k: "siacoinOutputs cs' k \<noteq> None"
    then have k0: "siacoinOutputs cs k \<noteq> None" by (simp add: c(2))
    then have b0: "bucket cs h k = None" for h
      using assms(3) by (simp add: mature_delayed_disjoint_def)
    have "k \<notin> fst ` set ?xs" using fr k0 by auto
    then have "map_of (rev ?xs) k = None" by (simp add: map_of_eq_None_iff)
    then show "bucket cs' h k = None" using b0 by (simp add: c(4) map_add_def)
  qed
qed

lemma applyFileContractMaintenance_disjoint:
  assumes "DEBUG env" and "applyFileContractMaintenance env order (cs, bn) = Inr (cs', bn')"
    and "mature_delayed_disjoint cs"
  shows "mature_delayed_disjoint cs'"
proof -
  from applyFileContractMaintenance_Inr[OF assms(2)] obtain expired where
    l: "for_range (applyMissedStorageProof env) expired (cs, bn) = Inr (cs', bn')"
    by (elim exE conjE)
  have "mature_delayed_disjoint (fst (cs', bn'))"
  proof (rule for_range_lift[where R = "\<lambda>s a. mature_delayed_disjoint (fst a)", OF l])
    show "mature_delayed_disjoint (fst (cs, bn))" using assms(3) by simp
  next
    fix x a b
    assume "mature_delayed_disjoint (fst a)" and b: "applyMissedStorageProof env x a = Inr b"
    then show "mature_delayed_disjoint (fst b)"
      using applyMissedStorageProof_disjoint[OF assms(1), of x "fst a" "snd a" "fst b" "snd b"]
      by simp
  qed
  then show ?thesis by simp
qed

lemma applyMaturedSiacoinOutputs_body_disjoint:
  assumes "applyMaturedSiacoinOutputs_body env k (cs, bn) = Inr (cs', bn')"
    and "mature_delayed_disjoint cs \<and> bucket_exclusive cs (height bn)"
  shows "(mature_delayed_disjoint cs' \<and> bucket_exclusive cs' (height bn)) \<and> height bn' = height bn"
proof (cases "bucket cs (height bn) k")
  case None
  then show ?thesis using assms by simp
next
  case (Some v)
  note a = applyMaturedSiacoinOutputs_body_Some[OF Some assms(1)]
  have d: "\<And>j h. siacoinOutputs cs j \<noteq> None \<Longrightarrow> bucket cs h j = None"
    using assms(2) by (simp add: mature_delayed_disjoint_def)
  have e: "\<And>j h. h \<noteq> height bn \<Longrightarrow> bucket cs (height bn) j \<noteq> None \<Longrightarrow> bucket cs h j = None"
    using assms(2) by (simp add: bucket_exclusive_def)
  have 1: "mature_delayed_disjoint cs'"
    unfolding mature_delayed_disjoint_def
  proof (intro allI impI)
    fix j h assume j: "siacoinOutputs cs' j \<noteq> None"
    show "bucket cs' h j = None"
    proof (cases "j = k")
      case True
      then show ?thesis using e[of h k] Some by (simp add: a(3))
    next
      case False
      then have "siacoinOutputs cs j \<noteq> None" using j by (simp add: a(2))
      then show ?thesis using d[of j h] d[of j "height bn"] by (simp add: a(3))
    qed
  qed
  have 2: "bucket_exclusive cs' (height bn)"
    unfolding bucket_exclusive_def
  proof (intro allI impI)
    fix j h assume h: "h \<noteq> height bn" and j: "bucket cs' (height bn) j \<noteq> None"
    then have "bucket cs (height bn) j \<noteq> None" by (simp add: a(3) split: if_splits)
    then show "bucket cs' h j = None" using e[OF h] h by (simp add: a(3))
  qed
  show ?thesis using 1 2 by (simp add: a(1))
qed

lemma applyMaturedSiacoinOutputs_disjoint:
  assumes "applyMaturedSiacoinOutputs env order (cs, bn) = Inr (cs', bn')"
    and "mature_delayed_disjoint cs" and "bucket_exclusive cs (height bn)"
  shows "mature_delayed_disjoint cs'"
proof (cases "height bn > MaturityDelay env")
  case False
  then have "cs' = cs" using assms(1) by (simp add: applyMaturedSiacoinOutputs_def)
  then show ?thesis using assms(2) by simp
next
  case True
  then have h: "height (snd (cs, bn)) > MaturityDelay env" by simp
  from applyMaturedSiacoinOutputs_Inr[OF assms(1) h] obtain cs1 bn1 where
    l: "for_range (applyMaturedSiacoinOutputs_body env) order (cs, bn) = Inr (cs1, bn1)"
    and s': "(cs', bn') = (cs1\<lparr>delayedSiacoinOutputs := (delayedSiacoinOutputs cs1)(height bn1 := None)\<rparr>, bn1)"
    by (elim exE conjE)
  let ?R = "\<lambda>s a. (mature_delayed_disjoint (fst a) \<and> bucket_exclusive (fst a) (height (snd s)))
                  \<and> height (snd a) = height (snd s)"
  have "?R (cs, bn) (cs1, bn1)"
  proof (rule for_range_lift[where R = ?R, OF l])
    show "?R (cs, bn) (cs, bn)" using assms(2,3) by simp
  next
    fix x a b
    assume r: "?R (cs, bn) a" and b: "applyMaturedSiacoinOutputs_body env x a = Inr b"
    show "?R (cs, bn) b"
      using applyMaturedSiacoinOutputs_body_disjoint[of env x "fst a" "snd a" "fst b" "snd b"] r b
      by simp
  qed
  then have d1: "mature_delayed_disjoint cs1" by simp
  have so: "siacoinOutputs cs' = siacoinOutputs cs1" using s' by simp
  have bk: "bucket cs' = (bucket cs1)(height bn1 := Map.empty)"
    using s' by (simp add: bucket_delete_height)
  show ?thesis
    using d1 unfolding mature_delayed_disjoint_def so bk by simp
qed

lemma applyMinerPayouts_exclusive:
  assumes "applyMinerPayouts env (cs, bn) = Inr (cs1, bn1)"
    and "bucket_exclusive cs (height bn)" and "payouts_fresh env cs bn"
  shows "bucket_exclusive cs1 (height bn) \<and> height bn1 = height bn"
proof -
  let ?H = "height bn"
  let ?h = "height bn + MaturityDelay env"
  let ?L = "minerPayoutIDs env bn"
  let ?M = "map_of (rev ?L)"
  note c = for_range_addDelayed[OF assms(1)[unfolded applyMinerPayouts_addDelayed]]
  have bk: "bucket cs1 = (bucket cs)(?h := bucket cs ?h ++ ?M)" using c by blast
  have hb: "height bn1 = ?H" using c by simp
  have A: "bucket cs1 g k = (if g = ?h then (case ?M k of None \<Rightarrow> bucket cs ?h k | Some v \<Rightarrow> Some v)
                             else bucket cs g k)" for g k
    by (simp add: bk map_add_def)
  have F: "bucket cs g k = None" if m: "?M k \<noteq> None" and g: "g \<noteq> ?h" for g k
  proof -
    from m have "k \<in> fst ` set ?L" by (auto simp: map_of_eq_None_iff)
    then obtain i where "i < length (MinerPayouts (block bn))"
      and "k = MinerPayoutID env (block bn) (of_nat i)"
      by (auto simp: minerPayoutIDs_nth)
    then show ?thesis using assms(3) g by (simp add: payouts_fresh_def)
  qed
  have E: "bucket cs g k = None" if "g \<noteq> ?H" and "bucket cs ?H k \<noteq> None" for g k
    using that assms(2) by (simp add: bucket_exclusive_def)
  have "bucket cs1 g k = None" if g: "g \<noteq> ?H" and k: "bucket cs1 ?H k \<noteq> None" for g k
  proof (cases "?M k")
    case None
    then have "bucket cs ?H k \<noteq> None" using k by (simp add: A split: if_splits)
    then have "bucket cs g k = None" using E g by blast
    then show ?thesis using None by (auto simp: A)
  next
    case (Some v)
    then have m: "?M k \<noteq> None" by simp
    show ?thesis
    proof (cases "g = ?h")
      case True
      then have "?H \<noteq> ?h" using g by auto
      then have "bucket cs ?H k = None" using F[OF m] by blast
      moreover have "bucket cs1 ?H k = bucket cs ?H k" using \<open>?H \<noteq> ?h\<close> by (simp add: A)
      ultimately show ?thesis using k by simp
    next
      case False
      then show ?thesis using F[OF m False] by (simp add: A)
    qed
  qed
  then show ?thesis using hb by (simp add: bucket_exclusive_def)
qed

lemma applyMaintenance_disjoint:
  assumes "DEBUG env" and "applyMaintenance env dorder forder (cs, bn) = Inr (cs', bn')"
    and "mature_delayed_disjoint cs" and "bucket_exclusive cs (height bn)"
    and "payouts_fresh env cs bn"
  shows "mature_delayed_disjoint cs'"
proof -
  from applyMaintenance_Inr[OF assms(2)] obtain s1 s2 where
    1: "applyMinerPayouts env (cs, bn) = Inr s1"
    and 2: "applyMaturedSiacoinOutputs env dorder s1 = Inr s2"
    and 3: "applyFileContractMaintenance env forder s2 = Inr (cs', bn')"
    by (elim exE conjE)
  obtain cs1 bn1 where s1: "s1 = (cs1, bn1)" by (cases s1)
  obtain cs2 bn2 where s2: "s2 = (cs2, bn2)" by (cases s2)
  have d1: "mature_delayed_disjoint cs1"
    using applyMinerPayouts_disjoint[OF assms(1) 1[unfolded s1] assms(3)] .
  have e1: "bucket_exclusive cs1 (height bn1)"
    using applyMinerPayouts_exclusive[OF 1[unfolded s1] assms(4,5)] by simp
  have d2: "mature_delayed_disjoint cs2"
    using applyMaturedSiacoinOutputs_disjoint[OF 2[unfolded s1 s2] d1 e1] .
  show ?thesis
    using applyFileContractMaintenance_disjoint[OF assms(1) 3[unfolded s2] d2] .
qed

lemma payouts_fresh_checked [simp]:
  "payouts_fresh (env\<lparr>DEBUG := True\<rparr>) cs bn = payouts_fresh env cs bn"
  by (simp add: payouts_fresh_def)

lemma ex_cs_disjoint: "mature_delayed_disjoint ex_cs"
  by (simp add: mature_delayed_disjoint_def ex_cs_def)

lemma cx2_run:
  "applyMaturedSiacoinOutputs env0 [1] (cx2_cs, mkNode 20 []) = Inr (cx2_cs', cx2_bn')"
  by (auto simp add: eval_defs cx2_cs_def cx2_cs'_def cx2_bn'_def fun_eq_iff)

lemma cx3_run:
  "applyMinerPayouts (env0\<lparr>DEBUG := False\<rparr>) (cx3_cs, mkNode 20 [outA]) = Inr (cx3_cs', cx_bn')"
  by (auto simp add: eval_defs cx3_cs_def cx3_cs'_def cx_bn'_def fun_eq_iff)

lemma applyMaturedSiacoinOutputs_logs:
  assumes "distinct order"
    and "applyMaturedSiacoinOutputs env order (cs, bn) = Inr (cs', bn')"
  shows "bn' = bn\<lparr>siacoinOutputDiffs := siacoinOutputDiffs bn @
                    (if height bn > MaturityDelay env
                     then map (maturedDiff (bucket cs (height bn)))
                            (filter (\<lambda>k. bucket cs (height bn) k \<noteq> None) order)
                     else []),
                  delayedSiacoinOutputDiffs := delayedSiacoinOutputDiffs bn @
                    (if height bn > MaturityDelay env
                     then map (drainedDiff (height bn) (bucket cs (height bn)))
                            (filter (\<lambda>k. bucket cs (height bn) k \<noteq> None) order)
                     else [])\<rparr>"
    and "fileContracts cs' = fileContracts cs"
proof -
  have "bn' = bn\<lparr>siacoinOutputDiffs := siacoinOutputDiffs bn @
                    (if height bn > MaturityDelay env
                     then map (maturedDiff (bucket cs (height bn)))
                            (filter (\<lambda>k. bucket cs (height bn) k \<noteq> None) order)
                     else []),
                  delayedSiacoinOutputDiffs := delayedSiacoinOutputDiffs bn @
                    (if height bn > MaturityDelay env
                     then map (drainedDiff (height bn) (bucket cs (height bn)))
                            (filter (\<lambda>k. bucket cs (height bn) k \<noteq> None) order)
                     else [])\<rparr>
        \<and> fileContracts cs' = fileContracts cs"
  proof (cases "height bn > MaturityDelay env")
    case False
    then have "(cs', bn') = (cs, bn)" using assms(2) by (simp add: applyMaturedSiacoinOutputs_def)
    then show ?thesis using False by simp
  next
    case True
    then have h: "height (snd (cs, bn)) > MaturityDelay env" by simp
    from applyMaturedSiacoinOutputs_Inr[OF assms(2) h] obtain cs1 bn1 where
      l: "for_range (applyMaturedSiacoinOutputs_body env) order (cs, bn) = Inr (cs1, bn1)"
      and s': "(cs', bn') = (cs1\<lparr>delayedSiacoinOutputs := (delayedSiacoinOutputs cs1)(height bn1 := None)\<rparr>, bn1)"
      by (elim exE conjE)
    note c = for_range_matured[OF l assms(1)]
    show ?thesis using c s' True by simp
  qed
  then show "bn' = bn\<lparr>siacoinOutputDiffs := siacoinOutputDiffs bn @
                    (if height bn > MaturityDelay env
                     then map (maturedDiff (bucket cs (height bn)))
                            (filter (\<lambda>k. bucket cs (height bn) k \<noteq> None) order)
                     else []),
                  delayedSiacoinOutputDiffs := delayedSiacoinOutputDiffs bn @
                    (if height bn > MaturityDelay env
                     then map (drainedDiff (height bn) (bucket cs (height bn)))
                            (filter (\<lambda>k. bucket cs (height bn) k \<noteq> None) order)
                     else [])\<rparr>"
    and "fileContracts cs' = fileContracts cs" by blast+
qed

lemma applyFileContractMaintenance_logs:
  assumes "distinct order"
    and "applyFileContractMaintenance env order (cs, bn) = Inr (cs', bn')"
  shows "bn' = bn\<lparr>delayedSiacoinOutputDiffs := delayedSiacoinOutputDiffs bn @
                    concat (map (\<lambda>k. map (delayedDiff (height bn + MaturityDelay env))
                                   (missedOutputs env k (contractOf cs k)))
                              (filter (expires cs (height bn)) order)),
                  fileContractDiffs := fileContractDiffs bn @
                    map (contractDiff cs) (filter (expires cs (height bn)) order)\<rparr>"
proof -
  have d: "distinct (filter (expires cs (height bn)) order)" using assms(1) by simp
  show ?thesis
    using for_range_missed[OF applyFileContractMaintenance_char(2)[OF assms] d] by blast
qed

lemma mset_concat_map_cong:
  assumes "mset xs = mset ys"
  shows "mset (concat (map g xs)) = mset (concat (map g ys))"
proof -
  have "mset (concat (map g zs)) = sum_mset (image_mset (\<lambda>z. mset (g z)) (mset zs))" for zs
    by (induction zs) simp_all
  then show ?thesis using assms by simp
qed

lemma contract_views_cong:
  assumes "fileContracts csx = fileContracts csy"
  shows "contractOf csx = contractOf csy" "expires csx = expires csy"
    "contractDiff csx = contractDiff csy"
  using assms by (simp_all add: fun_eq_iff contractOf_def expires_def contractDiff_def)

lemma applyMaintenance_logs:
  assumes "distinct dorder" and "distinct forder"
    and "applyMinerPayouts env (cs, bn) = Inr (cs1, bn1)"
    and "applyMaintenance env dorder forder (cs, bn) = Inr (cs', bn')"
  shows "siacoinOutputDiffs bn' = siacoinOutputDiffs bn1 @
           (if height bn1 > MaturityDelay env
            then map (maturedDiff (bucket cs1 (height bn1)))
                   (filter (\<lambda>k. bucket cs1 (height bn1) k \<noteq> None) dorder)
            else [])"
    and "delayedSiacoinOutputDiffs bn' = (delayedSiacoinOutputDiffs bn1 @
           (if height bn1 > MaturityDelay env
            then map (drainedDiff (height bn1) (bucket cs1 (height bn1)))
                   (filter (\<lambda>k. bucket cs1 (height bn1) k \<noteq> None) dorder)
            else [])) @
           concat (map (\<lambda>k. map (delayedDiff (height bn1 + MaturityDelay env))
                                   (missedOutputs env k (contractOf cs1 k)))
                      (filter (expires cs1 (height bn1)) forder))"
    and "fileContractDiffs bn' = fileContractDiffs bn1 @
           map (contractDiff cs1) (filter (expires cs1 (height bn1)) forder)"
proof -
  from applyMaintenance_Inr[OF assms(4)] obtain s1 s2 where
    1: "applyMinerPayouts env (cs, bn) = Inr s1"
    and 2: "applyMaturedSiacoinOutputs env dorder s1 = Inr s2"
    and 3: "applyFileContractMaintenance env forder s2 = Inr (cs', bn')"
    by (elim exE conjE)
  have s1: "s1 = (cs1, bn1)" using 1 assms(3) by simp
  obtain cs2 bn2 where s2: "s2 = (cs2, bn2)" by (cases s2)
  note m = applyMaturedSiacoinOutputs_logs[OF assms(1) 2[unfolded s1 s2]]
  note f = applyFileContractMaintenance_logs[OF assms(2) 3[unfolded s2]]
  let ?SA = "(if height bn1 > MaturityDelay env
            then map (maturedDiff (bucket cs1 (height bn1)))
                   (filter (\<lambda>k. bucket cs1 (height bn1) k \<noteq> None) dorder)
            else [])"
  let ?DA = "(if height bn1 > MaturityDelay env
            then map (drainedDiff (height bn1) (bucket cs1 (height bn1)))
                   (filter (\<lambda>k. bucket cs1 (height bn1) k \<noteq> None) dorder)
            else [])"
  have b2: "siacoinOutputDiffs bn2 = siacoinOutputDiffs bn1 @ ?SA"
    "delayedSiacoinOutputDiffs bn2 = delayedSiacoinOutputDiffs bn1 @ ?DA"
    "fileContractDiffs bn2 = fileContractDiffs bn1"
    "height bn2 = height bn1"
    by (subst m(1), simp)+
  note v = contract_views_cong[OF m(2)]
  have b3: "siacoinOutputDiffs bn' = siacoinOutputDiffs bn2"
    "delayedSiacoinOutputDiffs bn' = delayedSiacoinOutputDiffs bn2 @
           concat (map (\<lambda>k. map (delayedDiff (height bn2 + MaturityDelay env))
                                   (missedOutputs env k (contractOf cs2 k)))
                      (filter (expires cs2 (height bn2)) forder))"
    "fileContractDiffs bn' = fileContractDiffs bn2 @
           map (contractDiff cs2) (filter (expires cs2 (height bn2)) forder)"
    by (subst f, simp)+
  show "siacoinOutputDiffs bn' = siacoinOutputDiffs bn1 @ ?SA"
    using b3(1) b2(1) by simp
  show "delayedSiacoinOutputDiffs bn' = (delayedSiacoinOutputDiffs bn1 @ ?DA) @
           concat (map (\<lambda>k. map (delayedDiff (height bn1 + MaturityDelay env))
                                   (missedOutputs env k (contractOf cs1 k)))
                      (filter (expires cs1 (height bn1)) forder))"
    using b3(2) unfolding b2 v by simp
  show "fileContractDiffs bn' = fileContractDiffs bn1 @
           map (contractDiff cs1) (filter (expires cs1 (height bn1)) forder)"
    using b3(3) unfolding b2 v by simp
qed

lemma cx4_run_12:
  "applyMaintenance env0 [1, 2] [] (cx4_cs, mkNode 20 []) = Inr (cx4_cs', cx4_bn_12)"
  by (auto simp add: eval_defs cx4_cs_def cx4_cs'_def cx4_bn_12_def fun_eq_iff)

lemma cx4_run_21:
  "applyMaintenance env0 [2, 1] [] (cx4_cs, mkNode 20 []) = Inr (cx4_cs', cx4_bn_21)"
  by (auto simp add: eval_defs cx4_cs_def cx4_cs'_def cx4_bn_21_def fun_eq_iff)

text \<open>
  A run with three contracts: two expire at height 20, one of them with two missed-proof
  outputs, and the third has a later \<open>WindowEnd\<close>.
\<close>

lemma c7_scan:
  "for_range (expiredFileContracts_body env0) [3, 4, 5] ((c7_cs, mkNode 20 []), [])
     = Inr ((c7_cs, mkNode 20 []), [3, 4])"
  by (simp add: c7_cs_def mkNode_def env0_def fcC_def fcD_def fcE_def Let_def)

lemma c7_handle:
  "for_range (applyMissedStorageProof env0) [3, 4] (c7_cs, mkNode 20 []) = Inr (c7_cs', c7_bn')"
  by (auto simp add: applyMissedStorageProof.simps commitDelayedSiacoinOutputDiff_def bucket_def
        env0_def mkNode_def enumerate_eq_zip Let_def
        c7_cs_def c7_cs'_def c7_bn'_def fcC_def fcD_def fcE_def fun_eq_iff)

lemma c7_run:
  "applyFileContractMaintenance env0 [3, 4, 5] (c7_cs, mkNode 20 []) = Inr (c7_cs', c7_bn')"
  by (simp add: applyFileContractMaintenance.simps c7_scan c7_handle
        del: for_range.simps)

lemma c7_contracts:
  "fileContracts c7_cs k = Some fc \<Longrightarrow> WindowEnd fc = 20 \<Longrightarrow>
     (k = 3 \<and> fc = fcD) \<or> (k = 4 \<and> fc = fcC)"
  by (auto simp: c7_cs_def fcE_def split: if_splits)

lemma c7_positions:
  "(i < length (MissedProofOutputs fcD) \<longleftrightarrow> i = 0 \<or> i = 1)
   \<and> (i < length (MissedProofOutputs fcC) \<longleftrightarrow> i = 0)"
  by (auto simp: fcD_def fcC_def)

lemma c7_ids_distinct:
  "\<forall>k fc i k' fc' j.
     fileContracts c7_cs k = Some fc \<and> WindowEnd fc = height (mkNode 20 [])
     \<and> i < length (MissedProofOutputs fc)
     \<and> fileContracts c7_cs k' = Some fc' \<and> WindowEnd fc' = height (mkNode 20 [])
     \<and> j < length (MissedProofOutputs fc')
     \<and> StorageProofOutputID env0 k ProofMissed (of_nat i)
         = StorageProofOutputID env0 k' ProofMissed (of_nat j)
     \<longrightarrow> k = k' \<and> i = j"
proof (intro allI impI, elim conjE)
  fix k fc i k' fc' j
  assume f: "fileContracts c7_cs k = Some fc" and w: "WindowEnd fc = height (mkNode 20 [])"
    and i: "i < length (MissedProofOutputs fc)"
    and f': "fileContracts c7_cs k' = Some fc'" and w': "WindowEnd fc' = height (mkNode 20 [])"
    and j: "j < length (MissedProofOutputs fc')"
    and e: "StorageProofOutputID env0 k ProofMissed (of_nat i)
              = StorageProofOutputID env0 k' ProofMissed (of_nat j)"
  have h: "height (mkNode 20 []) = 20" by (simp add: mkNode_def)
  from c7_contracts[OF f w[unfolded h]] i
  have a: "(k = 3 \<and> i = 0) \<or> (k = 3 \<and> i = 1) \<or> (k = 4 \<and> i = 0)"
    using c7_positions[of i] by blast
  from c7_contracts[OF f' w'[unfolded h]] j
  have b: "(k' = 3 \<and> j = 0) \<or> (k' = 3 \<and> j = 1) \<or> (k' = 4 \<and> j = 0)"
    using c7_positions[of j] by blast
  show "k = k' \<and> i = j"
    using a b e by (auto simp: env0_def)
qed

lemma map_of_functional:
  assumes "(k, v) \<in> set L" and "\<And>v'. (k, v') \<in> set L \<Longrightarrow> v' = v"
  shows "map_of L k = Some v"
proof -
  have "k \<in> fst ` set L" using assms(1) by force
  then obtain v' where m: "map_of L k = Some v'"
    by (cases "map_of L k") (auto simp: map_of_eq_None_iff)
  then have "(k, v') \<in> set L" by (rule map_of_SomeD)
  then show ?thesis using assms(2) m by simp
qed

lemma expires_iff:
  "expires cs H = (\<lambda>fcid. \<exists>fc. fileContracts cs fcid = Some fc \<and> WindowEnd fc = H)"
  by (auto simp: expires_def fun_eq_iff split: option.splits)



lemma for_range_expiredFileContracts_body_Inr:
  assumes "applyFileContractMaintenance env order (cs, bn) = Inr (cs', bn')"
  shows "for_range (expiredFileContracts_body env) order ((cs, bn), [])
           = Inr ((cs, bn), filter (expires cs (height bn)) order)"
proof -
  from applyFileContractMaintenance_Inr[OF assms] obtain expired where
    sc: "for_range (collect_step env cs bn) order [] = Inr expired"
    by (elim exE conjE)
  have "expired = filter (expires cs (height bn)) order"
    using for_range_expired[OF sc] by simp
  then show ?thesis using sc by (simp add: for_range_expiredFileContracts_body)
qed

section \<open>Theorems\<close>

text \<open>
  Claim C5. For a block node whose height is not above \<open>MaturityDelay\<close>,
  \<open>applyMaturedSiacoinOutputs\<close> returns at once: it does not panic, whatever the ledger
  (with or without a bucket at that height) and whatever the iteration order, and the
  ledger and the three diff logs are what they were.
\<close>

theorem applyMaturedSiacoinOutputs_young_chain:
  assumes "height bn \<le> MaturityDelay env"
  shows "applyMaturedSiacoinOutputs env order (cs, bn) = Inr (cs, bn)"
  using assms by (simp add: applyMaturedSiacoinOutputs_def not_less)

theorem applyMaturedSiacoinOutputs_young_chain_witness:
  "height (mkNode 3 []) \<le> MaturityDelay env0
   \<and> applyMaturedSiacoinOutputs env0 [] (emptyCS, mkNode 3 []) = Inr (emptyCS, mkNode 3 [])"
proof -
  have h: "height (mkNode 3 []) \<le> MaturityDelay env0"
    by (simp add: mkNode_def env0_def)
  show ?thesis
    using h applyMaturedSiacoinOutputs_young_chain [OF h, of "[]" emptyCS] by simp
qed

text \<open>
  Claim C10. With the debug checks off, \<open>applyMissedStorageProof\<close> on an identifier that
  is not in the contract set does not panic: no delayed output is made, the ledger (its
  contract map included) is unchanged, and exactly one Revert contract diff holding the
  zero-value contract is appended to the contract diff log.
\<close>

theorem applyMissedStorageProof_absent_contract:
  assumes "\<not> DEBUG env" and "fileContracts cs fcid = None"
  shows "applyMissedStorageProof env fcid (cs, bn) =
           Inr (cs, bn\<lparr>fileContractDiffs := fileContractDiffs bn @
                  [\<lparr>fcd_Direction = DiffRevert, fcd_ID = fcid,
                    fcd_FileContract = zeroFileContract\<rparr>]\<rparr>)
         \<and> MissedProofOutputs zeroFileContract = []"
proof -
  have "(fileContracts cs)(fcid := None) = fileContracts cs"
    using assms(2) by (simp add: fun_upd_idem)
  then show ?thesis
    using assms by (simp add: applyMissedStorageProof.simps zeroFileContract_def)
qed

theorem applyMissedStorageProof_absent_contract_witness:
  "\<not> DEBUG (env0\<lparr>DEBUG := False\<rparr>) \<and> fileContracts emptyCS 5 = None
   \<and> applyMissedStorageProof (env0\<lparr>DEBUG := False\<rparr>) 5 (emptyCS, mkNode 20 []) =
       Inr (emptyCS, (mkNode 20 [])\<lparr>fileContractDiffs :=
              [\<lparr>fcd_Direction = DiffRevert, fcd_ID = 5,
                fcd_FileContract = zeroFileContract\<rparr>]\<rparr>)"
proof -
  have d: "\<not> DEBUG (env0\<lparr>DEBUG := False\<rparr>)" by simp
  have a: "fileContracts emptyCS 5 = None" by (simp add: emptyCS_def)
  show ?thesis
    using d a applyMissedStorageProof_absent_contract [OF d a, of "mkNode 20 []"]
    by (simp add: mkNode_def)
qed

text \<open>
  Claim C1 (amended). Whenever a maintenance pass passes all its sanity checks (the run
  with \<open>build.DEBUG\<close> on returns normally), the pass returns the same state in either
  build, each of the three diff logs of the block node is its old content followed by the
  diffs of the pass, and committing the inverses of those diffs in exact reverse order
  restores the mature-output map, the contents of every delayed-output bucket (a height
  without a bucket counts as an empty bucket) and the contract map to what they were before
  the pass.
\<close>

theorem applyMaintenance_round_trip:
  assumes "applyMaintenance (env\<lparr>DEBUG := True\<rparr>) dorder forder (cs, bn) = Inr (cs', bn')"
  shows "applyMaintenance env dorder forder (cs, bn) = Inr (cs', bn')
       \<and> (\<exists>X Y Z. siacoinOutputDiffs bn' = siacoinOutputDiffs bn @ X
            \<and> delayedSiacoinOutputDiffs bn' = delayedSiacoinOutputDiffs bn @ Y
            \<and> fileContractDiffs bn' = fileContractDiffs bn @ Z
            \<and> siacoinOutputs (revertDiffs X Y Z cs') = siacoinOutputs cs
            \<and> bucket (revertDiffs X Y Z cs') = bucket cs
            \<and> fileContracts (revertDiffs X Y Z cs') = fileContracts cs)"
proof
  show "applyMaintenance env dorder forder (cs, bn) = Inr (cs', bn')"
    using assms by (rule applyMaintenance_checked)
next
  have "DEBUG (env\<lparr>DEBUG := True\<rparr>)" by simp
  then have "restores (cs, bn) (cs', bn')"
    using assms by (rule applyMaintenance_restores)
  then show "\<exists>X Y Z. siacoinOutputDiffs bn' = siacoinOutputDiffs bn @ X
            \<and> delayedSiacoinOutputDiffs bn' = delayedSiacoinOutputDiffs bn @ Y
            \<and> fileContractDiffs bn' = fileContractDiffs bn @ Z
            \<and> siacoinOutputs (revertDiffs X Y Z cs') = siacoinOutputs cs
            \<and> bucket (revertDiffs X Y Z cs') = bucket cs
            \<and> fileContracts (revertDiffs X Y Z cs') = fileContracts cs"
    by (rule restores_revertDiffs)
qed

theorem applyMaintenance_round_trip_witness:
  "applyMaintenance (env0\<lparr>DEBUG := False, DEBUG := True\<rparr>) [1] [3] (ex_cs, ex_bn) = Inr (ex_cs3, ex_bn3)
   \<and> applyMaintenance (env0\<lparr>DEBUG := False\<rparr>) [1] [3] (ex_cs, ex_bn) = Inr (ex_cs3, ex_bn3)
   \<and> (\<exists>X Y Z. siacoinOutputDiffs ex_bn3 = siacoinOutputDiffs ex_bn @ X
            \<and> delayedSiacoinOutputDiffs ex_bn3 = delayedSiacoinOutputDiffs ex_bn @ Y
            \<and> fileContractDiffs ex_bn3 = fileContractDiffs ex_bn @ Z
            \<and> siacoinOutputs (revertDiffs X Y Z ex_cs3) = siacoinOutputs ex_cs
            \<and> bucket (revertDiffs X Y Z ex_cs3) = bucket ex_cs
            \<and> fileContracts (revertDiffs X Y Z ex_cs3) = fileContracts ex_cs)"
proof -
  have e: "env0\<lparr>DEBUG := False, DEBUG := True\<rparr> = env0" by (simp add: env0_def)
  have h: "applyMaintenance (env0\<lparr>DEBUG := False, DEBUG := True\<rparr>) [1] [3] (ex_cs, ex_bn)
             = Inr (ex_cs3, ex_bn3)"
    unfolding e by (rule ex_all)
  show ?thesis by (rule conjI[OF h applyMaintenance_round_trip[OF h]])
qed

text \<open>
  The claim C1 as stated, for any pass on any ledger state, fails in a build without the
  sanity checks: a payout whose identifier is already in the target bucket overwrites the
  entry there, and the rewind removes it instead of restoring the old entry.
\<close>

theorem applyMaintenance_round_trip_counterexample:
  "applyMaintenance (env0\<lparr>DEBUG := False\<rparr>) [] [] (cx_cs, mkNode 20 [outA]) = Inr (cx_cs', cx_bn')
   \<and> siacoinOutputDiffs (mkNode 20 [outA]) = [] \<and> delayedSiacoinOutputDiffs (mkNode 20 [outA]) = []
   \<and> fileContractDiffs (mkNode 20 [outA]) = []
   \<and> bucket (revertDiffs (siacoinOutputDiffs cx_bn') (delayedSiacoinOutputDiffs cx_bn')
               (fileContractDiffs cx_bn') cx_cs') 30 1000 = None
   \<and> bucket cx_cs 30 1000 = Some outB"
  by (simp add: cx_run)
     (simp add: mkNode_def cx_bn'_def cx_cs'_def cx_cs_def revertDiffs_def undo_S_def undo_D_def
        undo_F_def bucket_def commitDelayedSiacoinOutputDiff_def)

text \<open>
  Claim C4. When \<open>applyMinerPayouts\<close> returns, for a block node at height \<open>H\<close> whose
  derived payout identifiers are pairwise distinct: the delayed-output diff log has gained
  exactly one Apply diff per payout, in payout order, with the identifier derived from the
  block and the position, the payout itself and maturity height \<open>H + MaturityDelay\<close> (the
  \<open>uint64\<close> sum); the bucket at that height holds each payout under its identifier and is
  otherwise what it was; no other height and neither the mature-output set nor the contract
  set is modified.
\<close>

theorem applyMinerPayouts_creates_delayed_outputs:
  assumes "applyMinerPayouts env (cs, bn) = Inr (cs', bn')"
    and "distinct (map (\<lambda>i. MinerPayoutID env (block bn) (of_nat i))
                     [0..<length (MinerPayouts (block bn))])"
  shows "bn' = bn\<lparr>delayedSiacoinOutputDiffs := delayedSiacoinOutputDiffs bn @
                  map (\<lambda>i. \<lparr>dscod_Direction = DiffApply,
                             dscod_ID = MinerPayoutID env (block bn) (of_nat i),
                             dscod_SiacoinOutput = MinerPayouts (block bn) ! i,
                             dscod_MaturityHeight = height bn + MaturityDelay env\<rparr>)
                    [0..<length (MinerPayouts (block bn))]\<rparr>
       \<and> (\<forall>i<length (MinerPayouts (block bn)).
             bucket cs' (height bn + MaturityDelay env) (MinerPayoutID env (block bn) (of_nat i))
               = Some (MinerPayouts (block bn) ! i))
       \<and> (\<forall>k. k \<notin> (\<lambda>i. MinerPayoutID env (block bn) (of_nat i)) ` {..<length (MinerPayouts (block bn))}
             \<longrightarrow> bucket cs' (height bn + MaturityDelay env) k
                   = bucket cs (height bn + MaturityDelay env) k)
       \<and> (\<forall>h. h \<noteq> height bn + MaturityDelay env
             \<longrightarrow> delayedSiacoinOutputs cs' h = delayedSiacoinOutputs cs h)
       \<and> siacoinOutputs cs' = siacoinOutputs cs
       \<and> fileContracts cs' = fileContracts cs"
proof -
  let ?h = "height bn + MaturityDelay env"
  let ?n = "length (MinerPayouts (block bn))"
  let ?id = "\<lambda>i. MinerPayoutID env (block bn) (of_nat i)"
  let ?L = "minerPayoutIDs env bn"
  have L: "?L = map (\<lambda>i. (?id i, MinerPayouts (block bn) ! i)) [0..<?n]"
    by (rule minerPayoutIDs_nth)
  have dL: "distinct (map fst ?L)"
    using assms(2) by (simp add: L comp_def)
  have fL: "fst ` set ?L = ?id ` {..<?n}"
    by (simp add: L image_image atLeast0LessThan[symmetric])
  note c = for_range_addDelayed[OF assms(1)[unfolded applyMinerPayouts_addDelayed]]
  have bk: "bucket cs' ?h = bucket cs ?h ++ map_of (rev ?L)"
    using c by simp
  have 1: "bn' = bn\<lparr>delayedSiacoinOutputDiffs := delayedSiacoinOutputDiffs bn @
                  map (\<lambda>i. \<lparr>dscod_Direction = DiffApply, dscod_ID = ?id i,
                             dscod_SiacoinOutput = MinerPayouts (block bn) ! i,
                             dscod_MaturityHeight = ?h\<rparr>) [0..<?n]\<rparr>"
    using c by (simp add: L delayedDiff_def comp_def)
  have 2: "\<forall>i<?n. bucket cs' ?h (?id i) = Some (MinerPayouts (block bn) ! i)"
  proof (intro allI impI)
    fix i assume "i < ?n"
    then have "(?id i, MinerPayouts (block bn) ! i) \<in> set ?L" by (simp add: L)
    then show "bucket cs' ?h (?id i) = Some (MinerPayouts (block bn) ! i)"
      unfolding bk by (rule map_add_map_of_rev_distinct(1)[OF dL])
  qed
  have 3: "\<forall>k. k \<notin> ?id ` {..<?n} \<longrightarrow> bucket cs' ?h k = bucket cs ?h k"
    unfolding bk fL[symmetric] using map_add_map_of_rev_distinct(2)[OF dL] by blast
  show ?thesis using 1 2 3 c by blast
qed

theorem applyMinerPayouts_creates_delayed_outputs_witness:
  "applyMinerPayouts env0 (ex_cs, ex_bn) = Inr (ex_cs1, ex_bn1)
   \<and> distinct (map (\<lambda>i. MinerPayoutID env0 (block ex_bn) (of_nat i))
                  [0..<length (MinerPayouts (block ex_bn))])
   \<and> delayedSiacoinOutputDiffs ex_bn1 =
       [\<lparr>dscod_Direction = DiffApply, dscod_ID = 1000, dscod_SiacoinOutput = outA,
         dscod_MaturityHeight = 30\<rparr>]
   \<and> bucket ex_cs1 30 1000 = Some outA
   \<and> delayedSiacoinOutputs ex_cs1 20 = delayedSiacoinOutputs ex_cs 20
   \<and> siacoinOutputs ex_cs1 = siacoinOutputs ex_cs"
proof -
  have h1: "applyMinerPayouts env0 (ex_cs, ex_bn) = Inr (ex_cs1, ex_bn1)" by (rule ex1)
  have h2: "distinct (map (\<lambda>i. MinerPayoutID env0 (block ex_bn) (of_nat i))
                  [0..<length (MinerPayouts (block ex_bn))])"
    by (simp add: ex_bn_def mkNode_def)
  note t = applyMinerPayouts_creates_delayed_outputs[OF h1 h2]
  have n: "length (MinerPayouts (block ex_bn)) = 1" "height ex_bn + MaturityDelay env0 = 30"
    "MinerPayoutID env0 (block ex_bn) (of_nat 0) = 1000" "MinerPayouts (block ex_bn) ! 0 = outA"
    by (simp_all add: ex_bn_def mkNode_def env0_def)
  from t have "bucket ex_cs1 (height ex_bn + MaturityDelay env0)
                 (MinerPayoutID env0 (block ex_bn) (of_nat 0)) = Some (MinerPayouts (block ex_bn) ! 0)"
    using n(1) by simp
  then have a: "bucket ex_cs1 30 1000 = Some outA" unfolding n .
  from t have "delayedSiacoinOutputs ex_cs1 20 = delayedSiacoinOutputs ex_cs 20"
    using n(2) by simp
  moreover from t have "siacoinOutputs ex_cs1 = siacoinOutputs ex_cs" by blast
  moreover have "delayedSiacoinOutputDiffs ex_bn1 =
       [\<lparr>dscod_Direction = DiffApply, dscod_ID = 1000, dscod_SiacoinOutput = outA,
         dscod_MaturityHeight = 30\<rparr>]"
    by (simp add: ex_bn1_def)
  ultimately show ?thesis using h1 h2 a by blast
qed

text \<open>
  Claim C6. For a block node at height \<open>H > MaturityDelay\<close>, when the runtime yields the keys
  of the bucket at \<open>H\<close> in the order \<open>order\<close> (each key once) and
  \<open>applyMaturedSiacoinOutputs\<close> returns: the height index has no bucket at \<open>H\<close>; every entry
  the bucket held is in the mature-output set under the same identifier with the same
  output; the output diff log has gained, per entry and in iteration order, exactly one
  Apply diff inserting it, and the delayed-output diff log exactly one Revert diff removing
  it from the bucket at \<open>H\<close>; the contract diff log, the other heights and the other
  mature outputs are untouched.
\<close>

theorem applyMaturedSiacoinOutputs_matures_bucket:
  assumes "height bn > MaturityDelay env"
    and "distinct order"
    and "set order = dom (bucket cs (height bn))"
    and "applyMaturedSiacoinOutputs env order (cs, bn) = Inr (cs', bn')"
  shows "delayedSiacoinOutputs cs' (height bn) = None
       \<and> (\<forall>k v. bucket cs (height bn) k = Some v \<longrightarrow> siacoinOutputs cs' k = Some v)
       \<and> siacoinOutputDiffs bn' = siacoinOutputDiffs bn @
            map (\<lambda>k. \<lparr>scod_Direction = DiffApply, scod_ID = k,
                       scod_SiacoinOutput = the (bucket cs (height bn) k)\<rparr>) order
       \<and> delayedSiacoinOutputDiffs bn' = delayedSiacoinOutputDiffs bn @
            map (\<lambda>k. \<lparr>dscod_Direction = DiffRevert, dscod_ID = k,
                       dscod_SiacoinOutput = the (bucket cs (height bn) k),
                       dscod_MaturityHeight = height bn\<rparr>) order
       \<and> fileContractDiffs bn' = fileContractDiffs bn
       \<and> (\<forall>k. bucket cs (height bn) k = None \<longrightarrow> siacoinOutputs cs' k = siacoinOutputs cs k)
       \<and> (\<forall>h. h \<noteq> height bn \<longrightarrow> delayedSiacoinOutputs cs' h = delayedSiacoinOutputs cs h)"
proof -
  let ?H = "height bn"
  let ?B = "bucket cs ?H"
  have h: "height (snd (cs, bn)) > MaturityDelay env" using assms(1) by simp
  from applyMaturedSiacoinOutputs_Inr[OF assms(4) h] obtain cs1 bn1 where
    l: "for_range (applyMaturedSiacoinOutputs_body env) order (cs, bn) = Inr (cs1, bn1)"
    and s': "(cs', bn') = (cs1\<lparr>delayedSiacoinOutputs := (delayedSiacoinOutputs cs1)(height bn1 := None)\<rparr>, bn1)"
    by (elim exE conjE)
  note c = for_range_matured[OF l assms(2)]
  have f: "filter (\<lambda>k. ?B k \<noteq> None) order = order"
    using assms(3) by (auto simp: filter_id_conv)
  have bn1: "bn1 = bn\<lparr>siacoinOutputDiffs := siacoinOutputDiffs bn @ map (maturedDiff ?B) order,
                  delayedSiacoinOutputDiffs := delayedSiacoinOutputDiffs bn @
                    map (drainedDiff ?H ?B) order\<rparr>"
    using c unfolding f by blast
  have h1: "height bn1 = ?H" by (simp add: bn1)
  have so1: "siacoinOutputs cs1 = siacoinOutputs cs ++ (?B |` set order)" using c by blast
  have d1: "\<forall>h. h \<noteq> ?H \<longrightarrow> delayedSiacoinOutputs cs1 h = delayedSiacoinOutputs cs h"
    using c by blast
  have cs': "cs' = cs1\<lparr>delayedSiacoinOutputs := (delayedSiacoinOutputs cs1)(?H := None)\<rparr>"
    and bn': "bn' = bn1" using s' h1 by simp_all
  have 1: "delayedSiacoinOutputs cs' ?H = None" by (simp add: cs')
  have 2: "\<forall>k v. ?B k = Some v \<longrightarrow> siacoinOutputs cs' k = Some v"
    using assms(3) by (auto simp: cs' so1 map_add_def restrict_map_def split: option.splits)
  have 3: "siacoinOutputDiffs bn' = siacoinOutputDiffs bn @
            map (\<lambda>k. \<lparr>scod_Direction = DiffApply, scod_ID = k,
                       scod_SiacoinOutput = the (?B k)\<rparr>) order"
    by (simp add: bn' bn1 maturedDiff_def[abs_def])
  have 4: "delayedSiacoinOutputDiffs bn' = delayedSiacoinOutputDiffs bn @
            map (\<lambda>k. \<lparr>dscod_Direction = DiffRevert, dscod_ID = k,
                       dscod_SiacoinOutput = the (?B k), dscod_MaturityHeight = ?H\<rparr>) order"
    by (simp add: bn' bn1 drainedDiff_def[abs_def])
  have 5: "fileContractDiffs bn' = fileContractDiffs bn" by (simp add: bn' bn1)
  have 6: "\<forall>k. ?B k = None \<longrightarrow> siacoinOutputs cs' k = siacoinOutputs cs k"
    by (auto simp: cs' so1 map_add_def restrict_map_def split: option.splits)
  have 7: "\<forall>h. h \<noteq> ?H \<longrightarrow> delayedSiacoinOutputs cs' h = delayedSiacoinOutputs cs h"
    using d1 by (simp add: cs')
  show ?thesis using 1 2 3 4 5 6 7 by blast
qed

theorem applyMaturedSiacoinOutputs_matures_bucket_witness:
  "height ex_bn1 > MaturityDelay env0 \<and> distinct [1::SiacoinOutputID]
   \<and> set [1] = dom (bucket ex_cs1 (height ex_bn1))
   \<and> applyMaturedSiacoinOutputs env0 [1] (ex_cs1, ex_bn1) = Inr (ex_cs2, ex_bn2)
   \<and> delayedSiacoinOutputs ex_cs2 (height ex_bn1) = None
   \<and> bucket ex_cs1 (height ex_bn1) 1 = Some outA
   \<and> siacoinOutputs ex_cs2 1 = Some outA
   \<and> siacoinOutputDiffs ex_bn2 = siacoinOutputDiffs ex_bn1 @
        map (\<lambda>k. \<lparr>scod_Direction = DiffApply, scod_ID = k,
                   scod_SiacoinOutput = the (bucket ex_cs1 (height ex_bn1) k)\<rparr>) [1]"
proof -
  have h1: "height ex_bn1 > MaturityDelay env0" by (simp add: ex_bn1_def env0_def)
  have h2: "distinct [1::SiacoinOutputID]" by simp
  have h3: "set [1] = dom (bucket ex_cs1 (height ex_bn1))"
    by (simp add: ex_bn1_def ex_cs1_def bucket_def)
  have h4: "bucket ex_cs1 (height ex_bn1) 1 = Some outA"
    by (simp add: ex_bn1_def ex_cs1_def bucket_def)
  note t = applyMaturedSiacoinOutputs_matures_bucket[OF h1 h2 h3 ex2]
  show ?thesis using h1 h2 h3 h4 ex2 t by blast
qed

text \<open>
  Claim C7. Let the runtime yield the keys of the contract set in the order \<open>order\<close> (each
  key once), let the identifiers derived for the missed-proof outputs of the contracts that
  expire at the block height \<open>H\<close> be pairwise distinct, and let
  \<open>applyFileContractMaintenance\<close> return. Then the contract diff log has gained exactly one
  Revert diff per expiring contract, carrying the contract, in iteration order; the
  delayed-output diff log has gained exactly one Apply diff per missed-proof output of each
  of them, with the identifier derived from the contract identifier, the missed tag and the
  position, the output itself and maturity height \<open>H + MaturityDelay\<close>; every expiring
  contract is gone from the contract set, and the bucket at \<open>H + MaturityDelay\<close> holds each
  of its missed-proof outputs under that identifier. Every contract with another
  \<open>WindowEnd\<close>, so every one with \<open>WindowEnd > H\<close>, is in the contract set unchanged; the
  mature-output set, the output diff log, the other heights and the other entries of the
  bucket are untouched.
\<close>

theorem applyFileContractMaintenance_expires_contracts:
  assumes "distinct order"
    and "set order = dom (fileContracts cs)"
    and "\<forall>k fc i k' fc' j.
           fileContracts cs k = Some fc \<and> WindowEnd fc = height bn
           \<and> i < length (MissedProofOutputs fc)
           \<and> fileContracts cs k' = Some fc' \<and> WindowEnd fc' = height bn
           \<and> j < length (MissedProofOutputs fc')
           \<and> StorageProofOutputID env k ProofMissed (of_nat i)
               = StorageProofOutputID env k' ProofMissed (of_nat j)
           \<longrightarrow> k = k' \<and> i = j"
    and "applyFileContractMaintenance env order (cs, bn) = Inr (cs', bn')"
  shows "fileContractDiffs bn' = fileContractDiffs bn @
           map (\<lambda>k. \<lparr>fcd_Direction = DiffRevert, fcd_ID = k,
                      fcd_FileContract = the (fileContracts cs k)\<rparr>)
             (filter (\<lambda>k. \<exists>fc. fileContracts cs k = Some fc \<and> WindowEnd fc = height bn) order)
       \<and> delayedSiacoinOutputDiffs bn' = delayedSiacoinOutputDiffs bn @
           concat (map (\<lambda>k. map (\<lambda>i. \<lparr>dscod_Direction = DiffApply,
                                       dscod_ID = StorageProofOutputID env k ProofMissed (of_nat i),
                                       dscod_SiacoinOutput =
                                         MissedProofOutputs (the (fileContracts cs k)) ! i,
                                       dscod_MaturityHeight = height bn + MaturityDelay env\<rparr>)
                             [0..<length (MissedProofOutputs (the (fileContracts cs k)))])
             (filter (\<lambda>k. \<exists>fc. fileContracts cs k = Some fc \<and> WindowEnd fc = height bn) order))
       \<and> siacoinOutputDiffs bn' = siacoinOutputDiffs bn
       \<and> (\<forall>fcid fc. fileContracts cs fcid = Some fc \<and> WindowEnd fc = height bn \<longrightarrow>
              fileContracts cs' fcid = None
              \<and> filter (\<lambda>d. fcd_ID d = fcid)
                   (drop (length (fileContractDiffs bn)) (fileContractDiffs bn')) =
                  [\<lparr>fcd_Direction = DiffRevert, fcd_ID = fcid, fcd_FileContract = fc\<rparr>]
              \<and> (\<forall>i<length (MissedProofOutputs fc).
                    bucket cs' (height bn + MaturityDelay env)
                      (StorageProofOutputID env fcid ProofMissed (of_nat i))
                      = Some (MissedProofOutputs fc ! i)
                    \<and> \<lparr>dscod_Direction = DiffApply,
                        dscod_ID = StorageProofOutputID env fcid ProofMissed (of_nat i),
                        dscod_SiacoinOutput = MissedProofOutputs fc ! i,
                        dscod_MaturityHeight = height bn + MaturityDelay env\<rparr>
                      \<in> set (drop (length (delayedSiacoinOutputDiffs bn))
                                (delayedSiacoinOutputDiffs bn'))))
       \<and> (\<forall>fcid fc. fileContracts cs fcid = Some fc \<and> WindowEnd fc \<noteq> height bn \<longrightarrow>
              fileContracts cs' fcid = Some fc)
       \<and> siacoinOutputs cs' = siacoinOutputs cs
       \<and> (\<forall>h. h \<noteq> height bn + MaturityDelay env \<longrightarrow>
              delayedSiacoinOutputs cs' h = delayedSiacoinOutputs cs h)
       \<and> (\<forall>k. (\<forall>fcid fc i. fileContracts cs fcid = Some fc \<and> WindowEnd fc = height bn
                    \<and> i < length (MissedProofOutputs fc)
                    \<longrightarrow> k \<noteq> StorageProofOutputID env fcid ProofMissed (of_nat i))
              \<longrightarrow> bucket cs' (height bn + MaturityDelay env) k
                    = bucket cs (height bn + MaturityDelay env) k)"
proof -
  let ?h = "height bn + MaturityDelay env"
  let ?P = "\<lambda>k. \<exists>fc. fileContracts cs k = Some fc \<and> WindowEnd fc = height bn"
  let ?ex = "filter ?P order"
  let ?o = "\<lambda>k. missedOutputs env k (contractOf cs k)"
  let ?A = "concat (map ?o ?ex)"
  let ?fd = "\<lambda>k. \<lparr>fcd_Direction = DiffRevert, fcd_ID = k,
                      fcd_FileContract = the (fileContracts cs k)\<rparr>"
  let ?dd = "\<lambda>k i. \<lparr>dscod_Direction = DiffApply,
                      dscod_ID = StorageProofOutputID env k ProofMissed (of_nat i),
                      dscod_SiacoinOutput = MissedProofOutputs (the (fileContracts cs k)) ! i,
                      dscod_MaturityHeight = ?h\<rparr>"
  let ?F = "map ?fd ?ex"
  let ?D = "concat (map (\<lambda>k. map (?dd k) [0..<length (MissedProofOutputs (the (fileContracts cs k)))]) ?ex)"
  have dex: "distinct ?ex" using assms(1) by simp
  have ex_eq: "filter (expires cs (height bn)) order = ?ex" by (simp add: expires_iff)
  note c = for_range_missed[OF applyFileContractMaintenance_char(2)[OF assms(1,4)]
             dex[folded ex_eq], unfolded ex_eq]
  have inE: "k \<in> set ?ex \<longleftrightarrow> ?P k" for k
    using assms(2) by auto
  have co: "contractOf cs k = the (fileContracts cs k)" if "k \<in> set ?ex" for k
    using that by (auto simp: contractOf_def)
  have Fm: "map (contractDiff cs) ?ex = ?F"
    by (rule map_cong) (simp_all add: contractDiff_def co)
  have Dm: "map (\<lambda>k. map (delayedDiff ?h) (?o k)) ?ex
            = map (\<lambda>k. map (?dd k) [0..<length (MissedProofOutputs (the (fileContracts cs k)))]) ?ex"
    by (rule map_cong) (simp_all add: co missedOutputs_nth delayedDiff_def comp_def)
  have 1: "fileContractDiffs bn' = fileContractDiffs bn @ ?F"
    using c unfolding Fm by simp
  have 2: "delayedSiacoinOutputDiffs bn' = delayedSiacoinOutputDiffs bn @ ?D"
    using c unfolding Dm by simp
  have 3: "siacoinOutputDiffs bn' = siacoinOutputDiffs bn" using c by simp
  have fc': "fileContracts cs' = fileContracts cs |` (- set ?ex)" using c by blast
  have bk: "bucket cs' ?h = bucket cs ?h ++ map_of (rev ?A)" using c by simp
  have Amem: "(key, v) \<in> set ?A \<longleftrightarrow>
                (\<exists>k fc i. fileContracts cs k = Some fc \<and> WindowEnd fc = height bn
                   \<and> i < length (MissedProofOutputs fc)
                   \<and> key = StorageProofOutputID env k ProofMissed (of_nat i)
                   \<and> v = MissedProofOutputs fc ! i)" for key v
  proof
    assume "(key, v) \<in> set ?A"
    then obtain k where k: "k \<in> set ?ex" and m: "(key, v) \<in> set (?o k)" by auto
    from k obtain fc where f: "fileContracts cs k = Some fc" "WindowEnd fc = height bn"
      using inE by blast
    have "contractOf cs k = fc" using f by (simp add: contractOf_def)
    then have "(key, v) \<in> set (missedOutputs env k fc)" using m by simp
    then obtain i where "i < length (MissedProofOutputs fc)"
      "key = StorageProofOutputID env k ProofMissed (of_nat i)" "v = MissedProofOutputs fc ! i"
      by (auto simp: missedOutputs_nth)
    then show "\<exists>k fc i. fileContracts cs k = Some fc \<and> WindowEnd fc = height bn
                   \<and> i < length (MissedProofOutputs fc)
                   \<and> key = StorageProofOutputID env k ProofMissed (of_nat i)
                   \<and> v = MissedProofOutputs fc ! i"
      using f by blast
  next
    assume "\<exists>k fc i. fileContracts cs k = Some fc \<and> WindowEnd fc = height bn
                   \<and> i < length (MissedProofOutputs fc)
                   \<and> key = StorageProofOutputID env k ProofMissed (of_nat i)
                   \<and> v = MissedProofOutputs fc ! i"
    then obtain k fc i where f: "fileContracts cs k = Some fc" "WindowEnd fc = height bn"
      and i: "i < length (MissedProofOutputs fc)"
      and kv: "key = StorageProofOutputID env k ProofMissed (of_nat i)"
              "v = MissedProofOutputs fc ! i"
      by blast
    have k: "k \<in> set ?ex" using inE f by blast
    have "contractOf cs k = fc" using f by (simp add: contractOf_def)
    then have "(key, v) \<in> set (?o k)" using i kv by (simp add: missedOutputs_nth)
    then show "(key, v) \<in> set ?A" using k by auto
  qed
  have 4: "fileContracts cs' fcid = None
           \<and> filter (\<lambda>d. fcd_ID d = fcid)
                (drop (length (fileContractDiffs bn)) (fileContractDiffs bn')) =
               [\<lparr>fcd_Direction = DiffRevert, fcd_ID = fcid, fcd_FileContract = fc\<rparr>]
           \<and> (\<forall>i<length (MissedProofOutputs fc).
                 bucket cs' ?h (StorageProofOutputID env fcid ProofMissed (of_nat i))
                   = Some (MissedProofOutputs fc ! i)
                 \<and> \<lparr>dscod_Direction = DiffApply,
                     dscod_ID = StorageProofOutputID env fcid ProofMissed (of_nat i),
                     dscod_SiacoinOutput = MissedProofOutputs fc ! i,
                     dscod_MaturityHeight = ?h\<rparr>
                   \<in> set (drop (length (delayedSiacoinOutputDiffs bn))
                             (delayedSiacoinOutputDiffs bn')))"
    if f: "fileContracts cs fcid = Some fc" and w: "WindowEnd fc = height bn" for fcid fc
  proof -
    have mem: "fcid \<in> set ?ex" using inE f w by blast
    have a: "fileContracts cs' fcid = None" using mem f w by (auto simp: fc' restrict_map_def)
    have "filter (\<lambda>d. fcd_ID d = fcid) ?F = map ?fd (filter (\<lambda>k. k = fcid) ?ex)"
      by (simp only: filter_map comp_def FileContractDiff.simps)
    also have "\<dots> = [?fd fcid]"
      by (simp only: filter_eq_distinct[OF dex mem] list.map)
    finally have b: "filter (\<lambda>d. fcd_ID d = fcid)
                (drop (length (fileContractDiffs bn)) (fileContractDiffs bn')) =
               [\<lparr>fcd_Direction = DiffRevert, fcd_ID = fcid, fcd_FileContract = fc\<rparr>]"
      using f by (simp add: 1)
    have c': "bucket cs' ?h (StorageProofOutputID env fcid ProofMissed (of_nat i))
                   = Some (MissedProofOutputs fc ! i)
                 \<and> \<lparr>dscod_Direction = DiffApply,
                     dscod_ID = StorageProofOutputID env fcid ProofMissed (of_nat i),
                     dscod_SiacoinOutput = MissedProofOutputs fc ! i,
                     dscod_MaturityHeight = ?h\<rparr>
                   \<in> set (drop (length (delayedSiacoinOutputDiffs bn))
                             (delayedSiacoinOutputDiffs bn'))"
      if i: "i < length (MissedProofOutputs fc)" for i
    proof -
      let ?key = "StorageProofOutputID env fcid ProofMissed (of_nat i)"
      let ?v = "MissedProofOutputs fc ! i"
      have m: "(?key, ?v) \<in> set (rev ?A)"
        using Amem[of ?key ?v] f w i by auto
      have u: "v' = ?v" if "(?key, v') \<in> set (rev ?A)" for v'
      proof -
        from that have "(?key, v') \<in> set ?A" by simp
        then obtain k' fc' j where f': "fileContracts cs k' = Some fc'" "WindowEnd fc' = height bn"
          and j: "j < length (MissedProofOutputs fc')"
          and e: "?key = StorageProofOutputID env k' ProofMissed (of_nat j)"
          and v': "v' = MissedProofOutputs fc' ! j"
          using Amem[of ?key v'] by blast
        have "fcid = k' \<and> i = j"
          using assms(3)[rule_format, of fcid fc i k' fc' j] f w i f' j e by blast
        then show ?thesis using f f' v' by simp
      qed
      have "map_of (rev ?A) ?key = Some ?v" using m u by (rule map_of_functional)
      then have x: "bucket cs' ?h ?key = Some ?v" by (simp add: bk)
      have "?dd fcid i \<in> set ?D" using mem i f by auto
      then have y: "\<lparr>dscod_Direction = DiffApply, dscod_ID = ?key, dscod_SiacoinOutput = ?v,
                      dscod_MaturityHeight = ?h\<rparr>
                   \<in> set (drop (length (delayedSiacoinOutputDiffs bn))
                             (delayedSiacoinOutputDiffs bn'))"
        using f by (simp add: 2)
      show ?thesis using x y by blast
    qed
    show ?thesis using a b c' by blast
  qed
  have 5: "fileContracts cs' fcid = Some fc"
    if f: "fileContracts cs fcid = Some fc" and w: "WindowEnd fc \<noteq> height bn" for fcid fc
  proof -
    show ?thesis using f w by (auto simp: fc' restrict_map_def)
  qed
  have 6: "siacoinOutputs cs' = siacoinOutputs cs" using c by blast
  have 7: "\<forall>h. h \<noteq> ?h \<longrightarrow> delayedSiacoinOutputs cs' h = delayedSiacoinOutputs cs h"
    using c by blast
  have 8: "bucket cs' ?h k = bucket cs ?h k"
    if n: "\<forall>fcid fc i. fileContracts cs fcid = Some fc \<and> WindowEnd fc = height bn
                    \<and> i < length (MissedProofOutputs fc)
                    \<longrightarrow> k \<noteq> StorageProofOutputID env fcid ProofMissed (of_nat i)" for k
  proof -
    have "k \<notin> fst ` set (rev ?A)"
    proof
      assume "k \<in> fst ` set (rev ?A)"
      then obtain v where "(k, v) \<in> set ?A" by force
      then show False using Amem[of k v] n by blast
    qed
    then have "map_of (rev ?A) k = None" unfolding map_of_eq_None_iff by blast
    then show ?thesis by (simp add: bk map_add_def)
  qed
  show ?thesis using 1 2 3 4 5 6 7 8 by blast
qed

theorem applyFileContractMaintenance_expires_contracts_witness:
  "distinct [3::FileContractID, 4, 5] \<and> set [3, 4, 5] = dom (fileContracts c7_cs)
   \<and> applyFileContractMaintenance env0 [3, 4, 5] (c7_cs, mkNode 20 []) = Inr (c7_cs', c7_bn')
   \<and> fileContracts c7_cs 3 = Some fcD \<and> WindowEnd fcD = height (mkNode 20 [])
   \<and> MissedProofOutputs fcD = [outB, outA]
   \<and> fileContracts c7_cs 5 = Some fcE \<and> WindowEnd fcE \<noteq> height (mkNode 20 [])
   \<and> fileContracts c7_cs' 3 = None
   \<and> filter (\<lambda>d. fcd_ID d = 3)
        (drop (length (fileContractDiffs (mkNode 20 []))) (fileContractDiffs c7_bn')) =
       [\<lparr>fcd_Direction = DiffRevert, fcd_ID = 3, fcd_FileContract = fcD\<rparr>]
   \<and> bucket c7_cs' 30 2048 = Some outB
   \<and> bucket c7_cs' 30 2049 = Some outA
   \<and> \<lparr>dscod_Direction = DiffApply, dscod_ID = 2049, dscod_SiacoinOutput = outA,
       dscod_MaturityHeight = 30\<rparr>
       \<in> set (drop (length (delayedSiacoinOutputDiffs (mkNode 20 [])))
                 (delayedSiacoinOutputDiffs c7_bn'))
   \<and> fileContracts c7_cs' 5 = Some fcE
   \<and> siacoinOutputs c7_cs' = siacoinOutputs c7_cs
   \<and> siacoinOutputDiffs c7_bn' = siacoinOutputDiffs (mkNode 20 [])"
proof -
  have h1: "distinct [3::FileContractID, 4, 5]" by simp
  have h2: "set [3, 4, 5] = dom (fileContracts c7_cs)" by (auto simp: c7_cs_def)
  note t = applyFileContractMaintenance_expires_contracts[OF h1 h2 c7_ids_distinct c7_run]
  have n: "height (mkNode 20 []) + MaturityDelay env0 = 30"
    "StorageProofOutputID env0 3 ProofMissed (of_nat 0) = 2048"
    "StorageProofOutputID env0 3 ProofMissed (of_nat 1) = 2049"
    "MissedProofOutputs fcD ! 0 = outB" "MissedProofOutputs fcD ! 1 = outA"
    by (simp_all add: mkNode_def env0_def fcD_def)
  have f3: "fileContracts c7_cs 3 = Some fcD \<and> WindowEnd fcD = height (mkNode 20 [])"
    by (simp add: c7_cs_def fcD_def mkNode_def)
  have f5: "fileContracts c7_cs 5 = Some fcE \<and> WindowEnd fcE \<noteq> height (mkNode 20 [])"
    by (simp add: c7_cs_def fcE_def mkNode_def)
  have m: "MissedProofOutputs fcD = [outB, outA]" by (simp add: fcD_def)
  have l: "(0::nat) < length (MissedProofOutputs fcD)" "(1::nat) < length (MissedProofOutputs fcD)"
    by (simp_all add: fcD_def)
  note t4 = t[THEN conjunct2, THEN conjunct2, THEN conjunct2, THEN conjunct1, rule_format, OF f3]
  have a: "fileContracts c7_cs' 3 = None" using t4 by blast
  have b: "filter (\<lambda>d. fcd_ID d = 3)
        (drop (length (fileContractDiffs (mkNode 20 []))) (fileContractDiffs c7_bn')) =
       [\<lparr>fcd_Direction = DiffRevert, fcd_ID = 3, fcd_FileContract = fcD\<rparr>]"
    using t4 by blast
  note t40 = t4[THEN conjunct2, THEN conjunct2, rule_format, OF l(1), unfolded n]
  note t41 = t4[THEN conjunct2, THEN conjunct2, rule_format, OF l(2), unfolded n]
  have c: "bucket c7_cs' 30 2048 = Some outB" using t40 by blast
  have d: "bucket c7_cs' 30 2049 = Some outA" using t41 by blast
  have e: "\<lparr>dscod_Direction = DiffApply, dscod_ID = 2049, dscod_SiacoinOutput = outA,
       dscod_MaturityHeight = 30\<rparr>
       \<in> set (drop (length (delayedSiacoinOutputDiffs (mkNode 20 [])))
                 (delayedSiacoinOutputDiffs c7_bn'))"
    using t41 by blast
  have f: "fileContracts c7_cs' 5 = Some fcE"
    using t[THEN conjunct2, THEN conjunct2, THEN conjunct2, THEN conjunct2, THEN conjunct1,
            rule_format, OF f5] .
  have g: "siacoinOutputs c7_cs' = siacoinOutputs c7_cs" using t by blast
  have i: "siacoinOutputDiffs c7_bn' = siacoinOutputDiffs (mkNode 20 [])" using t by blast
  show ?thesis using h1 h2 c7_run f3 m f5 a b c d e f g i by blast
qed



text \<open>
  Claim C9. In a build with \<open>build.DEBUG\<close> on, every violated precondition ends the
  operation in a panic, which is not a value the caller gets back: a payout identifier
  already in the target bucket or in the mature-output set; a missed-proof output
  identifier already in either; a maturing identifier already in the mature-output set; a
  contract that is missing, or that does not expire at the block height, when
  \<open>applyMissedStorageProof\<close> is called for it; a contract whose \<open>WindowEnd\<close> is below the block
  height when the scanner meets it; a bucket that is not empty after the maturation loop.
  The operations return nothing but the state: a normal return (\<open>Inr\<close>) carries no error.
\<close>

theorem sanity_checks_panic:
  assumes "DEBUG env"
  shows "(\<forall>cs bn i. i < length (MinerPayouts (block bn))
            \<and> (bucket cs (height bn + MaturityDelay env) (MinerPayoutID env (block bn) (of_nat i)) \<noteq> None
               \<or> siacoinOutputs cs (MinerPayoutID env (block bn) (of_nat i)) \<noteq> None)
            \<longrightarrow> applyMinerPayouts env (cs, bn) = Inl errPayoutsAlreadyPaid)
       \<and> (\<forall>cs bn fcid fc i. fileContracts cs fcid = Some fc \<and> WindowEnd fc = height bn
            \<and> i < length (MissedProofOutputs fc)
            \<and> (bucket cs (height bn + MaturityDelay env)
                  (StorageProofOutputID env fcid ProofMissed (of_nat i)) \<noteq> None
               \<or> siacoinOutputs cs (StorageProofOutputID env fcid ProofMissed (of_nat i)) \<noteq> None)
            \<longrightarrow> applyMissedStorageProof env fcid (cs, bn) = Inl errPayoutsAlreadyPaid)
       \<and> (\<forall>cs bn order k. height bn > MaturityDelay env \<and> distinct order \<and> k \<in> set order
            \<and> bucket cs (height bn) k \<noteq> None \<and> siacoinOutputs cs k \<noteq> None
            \<longrightarrow> applyMaturedSiacoinOutputs env order (cs, bn) = Inl errOutputAlreadyMature)
       \<and> (\<forall>cs bn fcid. fileContracts cs fcid = None
            \<longrightarrow> applyMissedStorageProof env fcid (cs, bn) = Inl errMissingFileContract)
       \<and> (\<forall>cs bn fcid fc. fileContracts cs fcid = Some fc \<and> WindowEnd fc \<noteq> height bn
            \<longrightarrow> applyMissedStorageProof env fcid (cs, bn) = Inl errStorageProofTiming)
       \<and> (\<forall>cs bn order k fc. k \<in> set order \<and> fileContracts cs k = Some fc
            \<and> WindowEnd fc < height bn
            \<longrightarrow> applyFileContractMaintenance env order (cs, bn)
                  = Inl panic_expiring_file_contract_missed)
       \<and> (\<forall>cs bn order cs1 bn1. height bn > MaturityDelay env
            \<and> for_range (applyMaturedSiacoinOutputs_body env) order (cs, bn) = Inr (cs1, bn1)
            \<and> bucket cs1 (height bn1) \<noteq> Map.empty
            \<longrightarrow> applyMaturedSiacoinOutputs env order (cs, bn) = Inl panic_deleting_non_empty_map)"
proof (intro conjI allI impI)
  fix cs :: ConsensusSet and bn :: blockNode and i
  assume "i < length (MinerPayouts (block bn))
            \<and> (bucket cs (height bn + MaturityDelay env) (MinerPayoutID env (block bn) (of_nat i)) \<noteq> None
               \<or> siacoinOutputs cs (MinerPayoutID env (block bn) (of_nat i)) \<noteq> None)"
  then show "applyMinerPayouts env (cs, bn) = Inl errPayoutsAlreadyPaid"
    using applyMinerPayouts_panics[OF assms] by blast
next
  fix cs :: ConsensusSet and bn :: blockNode and fcid fc i
  assume "fileContracts cs fcid = Some fc \<and> WindowEnd fc = height bn
            \<and> i < length (MissedProofOutputs fc)
            \<and> (bucket cs (height bn + MaturityDelay env)
                  (StorageProofOutputID env fcid ProofMissed (of_nat i)) \<noteq> None
               \<or> siacoinOutputs cs (StorageProofOutputID env fcid ProofMissed (of_nat i)) \<noteq> None)"
  then show "applyMissedStorageProof env fcid (cs, bn) = Inl errPayoutsAlreadyPaid"
    using applyMissedStorageProof_panics[OF assms] by blast
next
  fix cs :: ConsensusSet and bn :: blockNode and order k
  assume "height bn > MaturityDelay env \<and> distinct order \<and> k \<in> set order
            \<and> bucket cs (height bn) k \<noteq> None \<and> siacoinOutputs cs k \<noteq> None"
  then show "applyMaturedSiacoinOutputs env order (cs, bn) = Inl errOutputAlreadyMature"
    using applyMaturedSiacoinOutputs_panics[OF assms] by blast
next
  fix cs :: ConsensusSet and bn :: blockNode and fcid
  assume "fileContracts cs fcid = None"
  then show "applyMissedStorageProof env fcid (cs, bn) = Inl errMissingFileContract"
    by (rule applyMissedStorageProof_missing[OF assms])
next
  fix cs :: ConsensusSet and bn :: blockNode and fcid fc
  assume "fileContracts cs fcid = Some fc \<and> WindowEnd fc \<noteq> height bn"
  then show "applyMissedStorageProof env fcid (cs, bn) = Inl errStorageProofTiming"
    using applyMissedStorageProof_timing[OF assms] by blast
next
  fix cs :: ConsensusSet and bn :: blockNode and order k fc
  assume "k \<in> set order \<and> fileContracts cs k = Some fc \<and> WindowEnd fc < height bn"
  then show "applyFileContractMaintenance env order (cs, bn)
                  = Inl panic_expiring_file_contract_missed"
    using applyFileContractMaintenance_panics[OF assms] by blast
next
  fix cs :: ConsensusSet and bn :: blockNode and order cs1 and bn1 :: blockNode
  assume "height bn > MaturityDelay env
            \<and> for_range (applyMaturedSiacoinOutputs_body env) order (cs, bn) = Inr (cs1, bn1)
            \<and> bucket cs1 (height bn1) \<noteq> Map.empty"
  then show "applyMaturedSiacoinOutputs env order (cs, bn) = Inl panic_deleting_non_empty_map"
    using applyMaturedSiacoinOutputs_nonempty_panics[OF assms] by blast
qed

theorem sanity_checks_panic_witness:
  "DEBUG env0
   \<and> applyMinerPayouts env0 (cx_cs, mkNode 20 [outA]) = Inl errPayoutsAlreadyPaid
   \<and> applyMissedStorageProof env0 3 (cs_missed_clash, mkNode 20 []) = Inl errPayoutsAlreadyPaid
   \<and> applyMaturedSiacoinOutputs env0 [1] (cs_mature_clash, mkNode 20 []) = Inl errOutputAlreadyMature
   \<and> applyMissedStorageProof env0 5 (emptyCS, mkNode 20 []) = Inl errMissingFileContract
   \<and> applyMissedStorageProof env0 3 (cs_missed_clash, mkNode 21 []) = Inl errStorageProofTiming
   \<and> applyFileContractMaintenance env0 [3] (cs_missed_clash, mkNode 21 [])
       = Inl panic_expiring_file_contract_missed
   \<and> applyMaturedSiacoinOutputs env0 [] (cs_mature_clash, mkNode 20 [])
       = Inl panic_deleting_non_empty_map"
proof -
  have d: "DEBUG env0" by (simp add: env0_def)
  note t = sanity_checks_panic[OF d]
  note t1 = t[THEN conjunct1, rule_format]
  note t2 = t[THEN conjunct2, THEN conjunct1, rule_format]
  note t3 = t[THEN conjunct2, THEN conjunct2, THEN conjunct1, rule_format]
  note t4 = t[THEN conjunct2, THEN conjunct2, THEN conjunct2, THEN conjunct1, rule_format]
  note t5 = t[THEN conjunct2, THEN conjunct2, THEN conjunct2, THEN conjunct2, THEN conjunct1,
              rule_format]
  note t6 = t[THEN conjunct2, THEN conjunct2, THEN conjunct2, THEN conjunct2, THEN conjunct2,
              THEN conjunct1, rule_format]
  note t7 = t[THEN conjunct2, THEN conjunct2, THEN conjunct2, THEN conjunct2, THEN conjunct2,
              THEN conjunct2, rule_format]
  have 1: "applyMinerPayouts env0 (cx_cs, mkNode 20 [outA]) = Inl errPayoutsAlreadyPaid"
  proof -
    have "0 < length (MinerPayouts (block (mkNode 20 [outA])))
            \<and> (bucket cx_cs (height (mkNode 20 [outA]) + MaturityDelay env0)
                  (MinerPayoutID env0 (block (mkNode 20 [outA])) (of_nat 0)) \<noteq> None
               \<or> siacoinOutputs cx_cs (MinerPayoutID env0 (block (mkNode 20 [outA])) (of_nat 0)) \<noteq> None)"
      by (simp add: mkNode_def env0_def cx_cs_def bucket_def)
    then show ?thesis by (rule t1)
  qed
  have 2: "applyMissedStorageProof env0 3 (cs_missed_clash, mkNode 20 []) = Inl errPayoutsAlreadyPaid"
  proof -
    have "fileContracts cs_missed_clash 3 = Some fcC \<and> WindowEnd fcC = height (mkNode 20 [])
            \<and> 0 < length (MissedProofOutputs fcC)
            \<and> (bucket cs_missed_clash (height (mkNode 20 []) + MaturityDelay env0)
                  (StorageProofOutputID env0 3 ProofMissed (of_nat 0)) \<noteq> None
               \<or> siacoinOutputs cs_missed_clash (StorageProofOutputID env0 3 ProofMissed (of_nat 0)) \<noteq> None)"
      by (simp add: mkNode_def env0_def cs_missed_clash_def fcC_def bucket_def)
    then show ?thesis by (rule t2)
  qed
  have 3: "applyMaturedSiacoinOutputs env0 [1] (cs_mature_clash, mkNode 20 []) = Inl errOutputAlreadyMature"
  proof -
    have "height (mkNode 20 []) > MaturityDelay env0 \<and> distinct [1::SiacoinOutputID]
            \<and> (1::SiacoinOutputID) \<in> set [1]
            \<and> bucket cs_mature_clash (height (mkNode 20 [])) 1 \<noteq> None
            \<and> siacoinOutputs cs_mature_clash 1 \<noteq> None"
      by (simp add: mkNode_def env0_def cs_mature_clash_def bucket_def)
    then show ?thesis by (rule t3)
  qed
  have 4: "applyMissedStorageProof env0 5 (emptyCS, mkNode 20 []) = Inl errMissingFileContract"
  proof -
    have "fileContracts emptyCS 5 = None" by (simp add: emptyCS_def)
    then show ?thesis by (rule t4)
  qed
  have 5: "applyMissedStorageProof env0 3 (cs_missed_clash, mkNode 21 []) = Inl errStorageProofTiming"
  proof -
    have "fileContracts cs_missed_clash 3 = Some fcC \<and> WindowEnd fcC \<noteq> height (mkNode 21 [])"
      by (simp add: mkNode_def cs_missed_clash_def fcC_def)
    then show ?thesis by (rule t5)
  qed
  have 6: "applyFileContractMaintenance env0 [3] (cs_missed_clash, mkNode 21 [])
       = Inl panic_expiring_file_contract_missed"
  proof -
    have "(3::FileContractID) \<in> set [3] \<and> fileContracts cs_missed_clash 3 = Some fcC
            \<and> WindowEnd fcC < height (mkNode 21 [])"
      by (simp add: mkNode_def cs_missed_clash_def fcC_def)
    then show ?thesis by (rule t6)
  qed
  have 7: "applyMaturedSiacoinOutputs env0 [] (cs_mature_clash, mkNode 20 [])
       = Inl panic_deleting_non_empty_map"
  proof -
    have "bucket cs_mature_clash (height (mkNode 20 [])) 1 \<noteq> None"
      by (simp add: mkNode_def cs_mature_clash_def bucket_def)
    then have "bucket cs_mature_clash (height (mkNode 20 [])) \<noteq> Map.empty" by auto
    then have "height (mkNode 20 []) > MaturityDelay env0
            \<and> for_range (applyMaturedSiacoinOutputs_body env0) [] (cs_mature_clash, mkNode 20 [])
                = Inr (cs_mature_clash, mkNode 20 [])
            \<and> bucket cs_mature_clash (height (mkNode 20 [])) \<noteq> Map.empty"
      by (simp add: mkNode_def env0_def)
    then show ?thesis by (rule t7)
  qed
  show ?thesis using d 1 2 3 4 5 6 7 by blast
qed

text \<open>
  Claim C2 (amended). Let no identifier be both in the mature-output set and in a delayed
  bucket. Then this still holds after \<open>applyMinerPayouts\<close> and after
  \<open>applyFileContractMaintenance\<close> whenever their sanity checks pass (the run with
  \<open>build.DEBUG\<close> on returns normally, and then the run returns the same state in either
  build); after \<open>applyMaturedSiacoinOutputs\<close> whenever no identifier of the bucket at the
  block height is in another bucket; and after \<open>applyMaintenance\<close> whenever its sanity checks
  pass, no identifier of the bucket at the block height is in another bucket, and no derived
  payout identifier of the block is in a bucket other than the target bucket.
\<close>

theorem maintenance_keeps_mature_and_delayed_disjoint:
  assumes "mature_delayed_disjoint cs"
  shows "(\<forall>cs' bn'. applyMinerPayouts (env\<lparr>DEBUG := True\<rparr>) (cs, bn) = Inr (cs', bn')
            \<longrightarrow> applyMinerPayouts env (cs, bn) = Inr (cs', bn') \<and> mature_delayed_disjoint cs')
       \<and> (\<forall>order cs' bn'. bucket_exclusive cs (height bn)
            \<and> applyMaturedSiacoinOutputs env order (cs, bn) = Inr (cs', bn')
            \<longrightarrow> mature_delayed_disjoint cs')
       \<and> (\<forall>order cs' bn'.
            applyFileContractMaintenance (env\<lparr>DEBUG := True\<rparr>) order (cs, bn) = Inr (cs', bn')
            \<longrightarrow> applyFileContractMaintenance env order (cs, bn) = Inr (cs', bn')
                \<and> mature_delayed_disjoint cs')
       \<and> (\<forall>dorder forder cs' bn'. bucket_exclusive cs (height bn) \<and> payouts_fresh env cs bn
            \<and> applyMaintenance (env\<lparr>DEBUG := True\<rparr>) dorder forder (cs, bn) = Inr (cs', bn')
            \<longrightarrow> applyMaintenance env dorder forder (cs, bn) = Inr (cs', bn')
                \<and> mature_delayed_disjoint cs')"
proof (intro conjI allI impI)
  fix cs' bn'
  assume r: "applyMinerPayouts (env\<lparr>DEBUG := True\<rparr>) (cs, bn) = Inr (cs', bn')"
  show "applyMinerPayouts env (cs, bn) = Inr (cs', bn')"
    using r by (rule applyMinerPayouts_checked)
  show "mature_delayed_disjoint cs'"
    using applyMinerPayouts_disjoint[OF _ r assms] by simp
next
  fix order cs' bn'
  assume "bucket_exclusive cs (height bn)
            \<and> applyMaturedSiacoinOutputs env order (cs, bn) = Inr (cs', bn')"
  then show "mature_delayed_disjoint cs'"
    using applyMaturedSiacoinOutputs_disjoint[OF _ assms] by blast
next
  fix order cs' bn'
  assume r: "applyFileContractMaintenance (env\<lparr>DEBUG := True\<rparr>) order (cs, bn) = Inr (cs', bn')"
  show "applyFileContractMaintenance env order (cs, bn) = Inr (cs', bn')"
    using r by (rule applyFileContractMaintenance_checked)
  show "mature_delayed_disjoint cs'"
    using applyFileContractMaintenance_disjoint[OF _ r assms] by simp
next
  fix dorder forder cs' bn'
  assume a: "bucket_exclusive cs (height bn) \<and> payouts_fresh env cs bn
            \<and> applyMaintenance (env\<lparr>DEBUG := True\<rparr>) dorder forder (cs, bn) = Inr (cs', bn')"
  then have r: "applyMaintenance (env\<lparr>DEBUG := True\<rparr>) dorder forder (cs, bn) = Inr (cs', bn')"
    by simp
  show "applyMaintenance env dorder forder (cs, bn) = Inr (cs', bn')"
    using r by (rule applyMaintenance_checked)
  show "mature_delayed_disjoint cs'"
    using applyMaintenance_disjoint[OF _ r assms] a by simp
qed

theorem maintenance_keeps_mature_and_delayed_disjoint_witness:
  "mature_delayed_disjoint ex_cs
   \<and> bucket_exclusive ex_cs (height ex_bn) \<and> payouts_fresh env0 ex_cs ex_bn
   \<and> applyMinerPayouts (env0\<lparr>DEBUG := True\<rparr>) (ex_cs, ex_bn) = Inr (ex_cs1, ex_bn1)
   \<and> mature_delayed_disjoint ex_cs1
   \<and> bucket_exclusive ex_cs1 (height ex_bn1)
   \<and> applyMaturedSiacoinOutputs env0 [1] (ex_cs1, ex_bn1) = Inr (ex_cs2, ex_bn2)
   \<and> mature_delayed_disjoint ex_cs2
   \<and> applyFileContractMaintenance (env0\<lparr>DEBUG := True\<rparr>) [3] (ex_cs2, ex_bn2) = Inr (ex_cs3, ex_bn3)
   \<and> mature_delayed_disjoint ex_cs3
   \<and> applyMaintenance (env0\<lparr>DEBUG := True\<rparr>) [1] [3] (ex_cs, ex_bn) = Inr (ex_cs3, ex_bn3)
   \<and> applyMaintenance env0 [1] [3] (ex_cs, ex_bn) = Inr (ex_cs3, ex_bn3)"
proof -
  have d0: "mature_delayed_disjoint ex_cs" by (rule ex_cs_disjoint)
  have e0: "bucket_exclusive ex_cs (height ex_bn)"
    by (simp add: bucket_exclusive_def ex_cs_def ex_bn_def mkNode_def bucket_def)
  have f0: "payouts_fresh env0 ex_cs ex_bn"
    by (simp add: payouts_fresh_def ex_cs_def ex_bn_def mkNode_def bucket_def env0_def)
  have r1: "applyMinerPayouts (env0\<lparr>DEBUG := True\<rparr>) (ex_cs, ex_bn) = Inr (ex_cs1, ex_bn1)"
    unfolding env0_checked by (rule ex1)
  have r3: "applyFileContractMaintenance (env0\<lparr>DEBUG := True\<rparr>) [3] (ex_cs2, ex_bn2) = Inr (ex_cs3, ex_bn3)"
    unfolding env0_checked by (rule ex3)
  have r4: "applyMaintenance (env0\<lparr>DEBUG := True\<rparr>) [1] [3] (ex_cs, ex_bn) = Inr (ex_cs3, ex_bn3)"
    unfolding env0_checked by (rule ex_all)
  note t0 = maintenance_keeps_mature_and_delayed_disjoint[OF d0, of env0 ex_bn]
  have d1: "mature_delayed_disjoint ex_cs1"
    using t0[THEN conjunct1, rule_format, OF r1] by simp
  have e1: "bucket_exclusive ex_cs1 (height ex_bn1)"
    by (simp add: bucket_exclusive_def ex_cs1_def ex_bn1_def bucket_def)
  note t1 = maintenance_keeps_mature_and_delayed_disjoint[OF d1, of env0 ex_bn1]
  have d2: "mature_delayed_disjoint ex_cs2"
    using t1[THEN conjunct2, THEN conjunct1, rule_format, of "[1]" ex_cs2 ex_bn2] e1 ex2 by simp
  note t2 = maintenance_keeps_mature_and_delayed_disjoint[OF d2, of env0 ex_bn2]
  have d3: "mature_delayed_disjoint ex_cs3"
    using t2[THEN conjunct2, THEN conjunct2, THEN conjunct1, rule_format, OF r3] by simp
  have r5: "applyMaintenance env0 [1] [3] (ex_cs, ex_bn) = Inr (ex_cs3, ex_bn3)"
    using t0[THEN conjunct2, THEN conjunct2, THEN conjunct2, rule_format,
             of "[1]" "[3]" ex_cs3 ex_bn3] e0 f0 r4 by simp
  show ?thesis using d0 e0 f0 r1 d1 e1 ex2 d2 r3 d3 r4 r5 by blast
qed

text \<open>
  The claim C2 as stated fails in a debug build when an identifier sits in two buckets: the
  maturation check looks at the mature-output set only, so the mature copy and the second
  delayed copy end up side by side. It also fails in a build without the checks when a
  payout identifier is already mature.
\<close>

theorem maintenance_keeps_mature_and_delayed_disjoint_counterexample:
  "DEBUG env0 \<and> mature_delayed_disjoint cx2_cs
   \<and> applyMaturedSiacoinOutputs env0 [1] (cx2_cs, mkNode 20 []) = Inr (cx2_cs', cx2_bn')
   \<and> siacoinOutputs cx2_cs' 1 = Some outA \<and> bucket cx2_cs' 30 1 = Some outA
   \<and> mature_delayed_disjoint cx3_cs
   \<and> applyMinerPayouts (env0\<lparr>DEBUG := False\<rparr>) (cx3_cs, mkNode 20 [outA]) = Inr (cx3_cs', cx_bn')
   \<and> siacoinOutputs cx3_cs' 1000 = Some outB \<and> bucket cx3_cs' 30 1000 = Some outA"
  by (simp add: cx2_run cx3_run)
     (simp add: mature_delayed_disjoint_def cx2_cs_def cx2_cs'_def cx3_cs_def cx3_cs'_def
        bucket_def env0_def)

text \<open>
  Claim C3 (amended). The three diff logs are a function of the block node, the ledger
  state and the orders in which the runtime yields the keys of the bucket at the block
  height and of the contract set. For two runs on the same block node and ledger state that
  both return, each with its own iteration orders over the same keys (each key once), the
  three diff logs of the two runs hold the same diffs with the same multiplicities, in
  possibly different orders; with the same iteration orders the runs end in the same block
  node and ledger state.
\<close>

theorem applyMaintenance_diff_logs_up_to_iteration_order:
  assumes "distinct d1" and "distinct d2" and "set d1 = set d2"
    and "distinct f1" and "distinct f2" and "set f1 = set f2"
    and "applyMaintenance env d1 f1 (cs, bn) = Inr (csa, bna)"
    and "applyMaintenance env d2 f2 (cs, bn) = Inr (csb, bnb)"
  shows "mset (siacoinOutputDiffs bna) = mset (siacoinOutputDiffs bnb)
       \<and> mset (delayedSiacoinOutputDiffs bna) = mset (delayedSiacoinOutputDiffs bnb)
       \<and> mset (fileContractDiffs bna) = mset (fileContractDiffs bnb)
       \<and> (d1 = d2 \<and> f1 = f2 \<longrightarrow> bna = bnb \<and> csa = csb)"
proof -
  from applyMaintenance_Inr[OF assms(7)] obtain s1 where
    1: "applyMinerPayouts env (cs, bn) = Inr s1" by (elim exE conjE)
  obtain cs1 bn1 where s1: "s1 = (cs1, bn1)" by (cases s1)
  note a = applyMaintenance_logs[OF assms(1,4) 1[unfolded s1] assms(7)]
  note b = applyMaintenance_logs[OF assms(2,5) 1[unfolded s1] assms(8)]
  have md: "mset d1 = mset d2"
    using assms(1,2,3) by (simp add: set_eq_iff_mset_eq_distinct)
  have mf: "mset f1 = mset f2"
    using assms(4,5,6) by (simp add: set_eq_iff_mset_eq_distinct)
  have fd: "mset (filter P d1) = mset (filter P d2)" for P using md by simp
  have ff: "mset (filter P f1) = mset (filter P f2)" for P using mf by simp
  have 2: "mset (siacoinOutputDiffs bna) = mset (siacoinOutputDiffs bnb)"
    unfolding a(1) b(1) using fd by simp
  have 3: "mset (delayedSiacoinOutputDiffs bna) = mset (delayedSiacoinOutputDiffs bnb)"
    unfolding a(2) b(2) mset_append
    using fd mset_concat_map_cong[OF ff] by simp
  have 4: "mset (fileContractDiffs bna) = mset (fileContractDiffs bnb)"
    unfolding a(3) b(3) using ff by simp
  have 5: "d1 = d2 \<and> f1 = f2 \<longrightarrow> bna = bnb \<and> csa = csb"
    using assms(7,8) by auto
  show ?thesis using 2 3 4 5 by blast
qed

theorem applyMaintenance_diff_logs_up_to_iteration_order_witness:
  "distinct [1, 2::SiacoinOutputID] \<and> distinct [2, 1::SiacoinOutputID]
   \<and> set [1, 2::SiacoinOutputID] = set [2, 1]
   \<and> applyMaintenance env0 [1, 2] [] (cx4_cs, mkNode 20 []) = Inr (cx4_cs', cx4_bn_12)
   \<and> applyMaintenance env0 [2, 1] [] (cx4_cs, mkNode 20 []) = Inr (cx4_cs', cx4_bn_21)
   \<and> mset (siacoinOutputDiffs cx4_bn_12) = mset (siacoinOutputDiffs cx4_bn_21)
   \<and> mset (delayedSiacoinOutputDiffs cx4_bn_12) = mset (delayedSiacoinOutputDiffs cx4_bn_21)
   \<and> mset (fileContractDiffs cx4_bn_12) = mset (fileContractDiffs cx4_bn_21)"
proof -
  have h1: "distinct [1, 2::SiacoinOutputID]" by simp
  have h2: "distinct [2, 1::SiacoinOutputID]" by simp
  have h3: "set [1, 2::SiacoinOutputID] = set [2, 1]" by auto
  have h4: "distinct ([]::FileContractID list)" by simp
  have h6: "set ([]::FileContractID list) = set []" by simp
  note t = applyMaintenance_diff_logs_up_to_iteration_order[OF h1 h2 h3 h4 h4 h6
             cx4_run_12 cx4_run_21]
  show ?thesis using h1 h2 h3 cx4_run_12 cx4_run_21 t by blast
qed

text \<open>
  The claim C3 as stated fails: Go leaves the iteration order of a map unspecified, and two
  runs that range over a bucket of two entries in the two possible orders record the diffs
  in different orders.
\<close>

theorem applyMaintenance_diff_logs_counterexample:
  "distinct [1, 2::SiacoinOutputID] \<and> set [1, 2] = dom (bucket cx4_cs 20)
   \<and> distinct [2, 1::SiacoinOutputID] \<and> set [2, 1] = dom (bucket cx4_cs 20)
   \<and> applyMaintenance env0 [1, 2] [] (cx4_cs, mkNode 20 []) = Inr (cx4_cs', cx4_bn_12)
   \<and> applyMaintenance env0 [2, 1] [] (cx4_cs, mkNode 20 []) = Inr (cx4_cs', cx4_bn_21)
   \<and> siacoinOutputDiffs cx4_bn_12 \<noteq> siacoinOutputDiffs cx4_bn_21
   \<and> delayedSiacoinOutputDiffs cx4_bn_12 \<noteq> delayedSiacoinOutputDiffs cx4_bn_21"
  by (simp add: cx4_run_12 cx4_run_21)
     (auto simp add: cx4_cs_def bucket_def cx4_bn_12_def cx4_bn_21_def)

end
